(* ===== verification/Jol_Prelude.thy ===== *)
theory Jol_Prelude
  imports Main "HOL-Library.AList" "HOL-Library.Code_Target_Numeral" "HOL-Library.List_Lexorder" "HOL-Library.Char_ord"
begin

text \<open>
  Shared vocabulary of the development: Python exceptions as values, results, stateful
  operations, insertion-ordered dictionaries, and the interfaces (locales) that several
  components implement: an append-only log, a keyed store, a machine with an invariant.

  Conventions. A Python \<open>str\<close> is a \<open>string\<close> whose characters are ASCII. An exception is a
  constructor of \<open>pyexc\<close> without its message text. A Python \<open>dict\<close> is an association list
  in insertion order with distinct keys.
\<close>

section \<open>Exceptions and results\<close>

datatype pyexc =
    ValueError
  | LookupError
  | KeyError
  | FileNotFoundError
  | TypeError
  | OverflowError
  | InvalidOperation
  | DecimalOverflow
  | DivisionByZero
  | TenantNotFoundError
  | CrossTenantAccessError
  | ProvisioningError
  | PaymentFlowError
  | ChannelNotAllowedError
  | WebhookVerificationError
  | SignatureVerificationError
  | SyncWriteRejectedError
  | PIIDetectionError
  | GatewayError
  | CallbackError

text \<open>The classes a handler \<open>except ValueError\<close> catches: the class itself and the subclasses the
  program declares. Decimal signals derive from \<open>ArithmeticError\<close> and are not among them.\<close>

definition is_ValueError :: "pyexc \<Rightarrow> bool" where
  "is_ValueError e \<longleftrightarrow> e \<in> {ValueError, PaymentFlowError, ChannelNotAllowedError}"

type_synonym 'a result = "pyexc + 'a"

text \<open>A stateful operation returns its outcome and the state it leaves, also when it raises:
  Python does not undo the assignments made before an exception.\<close>

type_synonym ('s, 'a) op = "'s \<Rightarrow> 'a result \<times> 's"

definition op_return :: "'a \<Rightarrow> ('s, 'a) op" where
  "op_return a s = (Inr a, s)"

definition op_raise :: "pyexc \<Rightarrow> ('s, 'a) op" where
  "op_raise e s = (Inl e, s)"

definition op_bind :: "('s, 'a) op \<Rightarrow> ('a \<Rightarrow> ('s, 'b) op) \<Rightarrow> ('s, 'b) op" where
  "op_bind m f s = (case m s of (Inl e, s') \<Rightarrow> (Inl e, s') | (Inr a, s') \<Rightarrow> f a s')"

definition op_lift :: "'a result \<Rightarrow> ('s, 'a) op" where
  "op_lift r s = (r, s)"

definition op_modify :: "('s \<Rightarrow> 's) \<Rightarrow> ('s, unit) op" where
  "op_modify f s = (Inr (), f s)"

definition res_bind :: "'a result \<Rightarrow> ('a \<Rightarrow> 'b result) \<Rightarrow> 'b result" where
  "res_bind r f = (case r of Inl e \<Rightarrow> Inl e | Inr a \<Rightarrow> f a)"

named_theorems op_simps \<open>unfolding of stateful operations\<close>

lemma op_return_apply [op_simps]: "op_return a s = (Inr a, s)"
  by (simp add: op_return_def)

lemma op_raise_apply [op_simps]: "op_raise e s = (Inl e, s)"
  by (simp add: op_raise_def)

lemma op_lift_apply [op_simps]: "op_lift r s = (r, s)"
  by (simp add: op_lift_def)

lemma op_modify_apply [op_simps]: "op_modify f s = (Inr (), f s)"
  by (simp add: op_modify_def)

lemma op_bind_Inl [op_simps]: "m s = (Inl e, s') \<Longrightarrow> op_bind m f s = (Inl e, s')"
  by (simp add: op_bind_def)

lemma op_bind_Inr [op_simps]: "m s = (Inr a, s') \<Longrightarrow> op_bind m f s = f a s'"
  by (simp add: op_bind_def)

lemma op_bind_apply:
  "op_bind m f s = (case fst (m s) of Inl e \<Rightarrow> (Inl e, snd (m s)) | Inr a \<Rightarrow> f a (snd (m s)))"
  by (simp add: op_bind_def split: prod.split sum.split)

lemma op_bind_lift: "op_bind (op_lift r) f s = (case r of Inl e \<Rightarrow> (Inl e, s) | Inr a \<Rightarrow> f a s)"
  by (simp add: op_bind_def op_lift_def split: sum.split)

lemma op_bind_InrE:
  assumes "op_bind m f s = (Inr b, t)"
  obtains a s' where "m s = (Inr a, s')" and "f a s' = (Inr b, t)"
  using assms by (auto simp: op_bind_def split: prod.splits sum.splits)

lemma res_bind_simps [simp]:
  "res_bind (Inl e) f = Inl e"
  "res_bind (Inr a) f = f a"
  by (simp_all add: res_bind_def)

lemma res_bind_eq_Inr: "res_bind r f = Inr b \<longleftrightarrow> (\<exists>a. r = Inr a \<and> f a = Inr b)"
  by (cases r) auto

text \<open>A loop \<open>for x in xs: body(x)\<close> that stops at the first exception.\<close>

fun op_each :: "('a \<Rightarrow> ('s, unit) op) \<Rightarrow> 'a list \<Rightarrow> ('s, unit) op" where
  "op_each f [] = op_return ()"
| "op_each f (x # xs) = op_bind (f x) (\<lambda>_. op_each f xs)"

text \<open>Invariants of operations: what holds of the state afterwards, whatever the outcome.\<close>

definition op_keeps :: "('s \<Rightarrow> bool) \<Rightarrow> ('s, 'a) op \<Rightarrow> bool" where
  "op_keeps I m \<longleftrightarrow> (\<forall>s. I s \<longrightarrow> I (snd (m s)))"

named_theorems op_keeps_intros \<open>how operations keep invariants\<close>

lemma op_keepsI: "(\<And>s. I s \<Longrightarrow> I (snd (m s))) \<Longrightarrow> op_keeps I m"
  by (simp add: op_keeps_def)

lemma op_keepsD: "op_keeps I m \<Longrightarrow> I s \<Longrightarrow> I (snd (m s))"
  by (simp add: op_keeps_def)

lemma op_keeps_return [op_keeps_intros]: "op_keeps I (op_return a)"
  by (simp add: op_keeps_def op_return_def)

lemma op_keeps_raise [op_keeps_intros]: "op_keeps I (op_raise e)"
  by (simp add: op_keeps_def op_raise_def)

lemma op_keeps_lift [op_keeps_intros]: "op_keeps I (op_lift r)"
  by (simp add: op_keeps_def op_lift_def)

lemma op_keeps_modify: "(\<And>s. I s \<Longrightarrow> I (f s)) \<Longrightarrow> op_keeps I (op_modify f)"
  by (simp add: op_keeps_def op_modify_def)

lemma op_keeps_bind [op_keeps_intros]:
  assumes "op_keeps I m" and "\<And>a. op_keeps I (f a)"
  shows "op_keeps I (op_bind m f)"
proof (rule op_keepsI)
  fix s
  assume "I s"
  with assms(1) have "I (snd (m s))" by (rule op_keepsD)
  with assms(2) show "I (snd (op_bind m f s))"
    by (cases "m s"; cases "fst (m s)") (auto simp: op_bind_def op_keeps_def)
qed

lemma op_keeps_each [op_keeps_intros]: "(\<And>x. op_keeps I (f x)) \<Longrightarrow> op_keeps I (op_each f xs)"
  by (induction xs) (auto intro: op_keeps_intros)

section \<open>Dictionaries\<close>

type_synonym ('k, 'v) dict = "('k \<times> 'v) list"

abbreviation dict_ok :: "('k, 'v) dict \<Rightarrow> bool" where
  "dict_ok d \<equiv> distinct (map fst d)"

abbreviation dict_get :: "('k, 'v) dict \<Rightarrow> 'k \<Rightarrow> 'v option" where
  "dict_get \<equiv> map_of"

text \<open>\<open>d[k] = v\<close> keeps the position of an existing key and appends a new one.\<close>

abbreviation dict_set :: "'k \<Rightarrow> 'v \<Rightarrow> ('k, 'v) dict \<Rightarrow> ('k, 'v) dict" where
  "dict_set \<equiv> AList.update"

abbreviation dict_del :: "'k \<Rightarrow> ('k, 'v) dict \<Rightarrow> ('k, 'v) dict" where
  "dict_del \<equiv> AList.delete"

abbreviation dict_has :: "('k, 'v) dict \<Rightarrow> 'k \<Rightarrow> bool" where
  "dict_has d k \<equiv> k \<in> set (map fst d)"

definition dict_values :: "('k, 'v) dict \<Rightarrow> 'v list" where
  "dict_values d = map snd d"

definition dict_keys :: "('k, 'v) dict \<Rightarrow> 'k list" where
  "dict_keys d = map fst d"

definition dict_setdefault :: "'k \<Rightarrow> 'v \<Rightarrow> ('k, 'v) dict \<Rightarrow> ('k, 'v) dict" where
  "dict_setdefault k v d = (case dict_get d k of None \<Rightarrow> dict_set k v d | Some _ \<Rightarrow> d)"

lemma dict_get_set: "dict_get (dict_set k v d) x = (if x = k then Some v else dict_get d x)"
  by (simp add: update_conv')

lemma dict_ok_set [simp]: "dict_ok d \<Longrightarrow> dict_ok (dict_set k v d)"
  by (rule distinct_update)

lemma dict_has_iff: "dict_has d k \<longleftrightarrow> dict_get d k \<noteq> None"
  by (auto simp: map_of_eq_None_iff)

lemma dict_get_values: "dict_ok d \<Longrightarrow> set (dict_values d) = {v. \<exists>k. dict_get d k = Some v}"
  by (force simp: dict_values_def)

lemma dict_set_new: "\<not> dict_has d k \<Longrightarrow> dict_set k v d = d @ [(k, v)]"
  by (induction d) auto

lemma dict_ok_setdefault [simp]: "dict_ok d \<Longrightarrow> dict_ok (dict_setdefault k v d)"
  by (simp add: dict_setdefault_def split: option.split)

lemma dict_get_setdefault:
  "dict_get (dict_setdefault k v d) x =
     (if x = k \<and> dict_get d k = None then Some v else dict_get d x)"
  by (auto simp: dict_setdefault_def dict_get_set split: option.split)

section \<open>Interfaces\<close>

text \<open>An append-only log: the state shows a list of items, and the one writing operation puts an
  item at its end.\<close>

locale append_log =
  fixes items :: "'s \<Rightarrow> 'e list"
    and push :: "'e \<Rightarrow> 's \<Rightarrow> 's"
  assumes items_push: "items (push e s) = items s @ [e]"
begin

lemma items_run: "items (fold push es s) = items s @ es"
  by (induction es arbitrary: s) (simp_all add: items_push)

lemma history_kept: "take (length (items s)) (items (fold push es s)) = items s"
  by (simp add: items_run)

lemma query_run: "filter P (items (fold push es s)) = filter P (items s) @ filter P es"
  by (simp add: items_run)

lemma item_stays: "i < length (items s) \<Longrightarrow> items (fold push es s) ! i = items s ! i"
  by (simp add: items_run nth_append)

lemma total_run:
  "sum_list (map f (filter P (items (fold push es s)))) =
     sum_list (map f (filter P (items s))) + (sum_list (map f (filter P es)) :: int)"
  by (simp add: items_run)

end

text \<open>A store addressed by a key that the stored value carries.\<close>

locale keyed_store =
  fixes fetch :: "'s \<Rightarrow> 'k \<Rightarrow> 'v option"
    and put :: "'v \<Rightarrow> 's \<Rightarrow> 's"
    and key :: "'v \<Rightarrow> 'k"
    and vals :: "'s \<Rightarrow> 'v list"
    and wf :: "'s \<Rightarrow> bool"
  assumes fetch_put: "wf s \<Longrightarrow> fetch (put v s) k = (if k = key v then Some v else fetch s k)"
    and vals_fetch: "wf s \<Longrightarrow> set (vals s) = {v. \<exists>k. fetch s k = Some v}"
    and key_fetch: "wf s \<Longrightarrow> fetch s k = Some v \<Longrightarrow> key v = k"
    and wf_put: "wf s \<Longrightarrow> wf (put v s)"
begin

lemma wf_run: "wf s \<Longrightarrow> wf (fold put vs s)"
  by (induction vs arbitrary: s) (simp_all add: wf_put)

text \<open>The last value written under a key is the one found.\<close>

lemma fetch_run:
  "wf s \<Longrightarrow> fetch (fold put vs s) k =
     (case find (\<lambda>v. key v = k) (rev vs) of Some v \<Rightarrow> Some v | None \<Rightarrow> fetch s k)"
proof (induction vs rule: rev_induct)
  case Nil
  then show ?case by simp
next
  case (snoc v vs)
  then show ?case by (auto simp: fetch_put wf_run)
qed

lemma vals_put: "wf s \<Longrightarrow> set (vals (put v s)) = insert v {w \<in> set (vals s). key w \<noteq> key v}"
  by (auto simp: vals_fetch wf_put fetch_put dest: key_fetch split: if_splits)

lemma fetch_vals: "wf s \<Longrightarrow> v \<in> set (vals s) \<Longrightarrow> fetch s (key v) = Some v"
  by (auto simp: vals_fetch dest: key_fetch)

lemma key_unique: "wf s \<Longrightarrow> v \<in> set (vals s) \<Longrightarrow> w \<in> set (vals s) \<Longrightarrow> key v = key w \<Longrightarrow> v = w"
  by (metis fetch_vals option.inject)

end

text \<open>A machine whose steps keep an invariant and move along a preorder.\<close>

locale inv_machine =
  fixes step :: "'e \<Rightarrow> 's \<Rightarrow> 's"
    and inv :: "'s \<Rightarrow> bool"
    and leq :: "'s \<Rightarrow> 's \<Rightarrow> bool"
  assumes inv_step: "inv s \<Longrightarrow> inv (step e s)"
    and leq_refl: "leq s s"
    and leq_trans: "leq s t \<Longrightarrow> leq t u \<Longrightarrow> leq s u"
    and leq_step: "inv s \<Longrightarrow> leq s (step e s)"
begin

lemma inv_run: "inv s \<Longrightarrow> inv (fold step es s)"
  by (induction es arbitrary: s) (simp_all add: inv_step)

lemma leq_run: "inv s \<Longrightarrow> leq s (fold step es s)"
proof (induction es arbitrary: s)
  case Nil
  then show ?case by (simp add: leq_refl)
next
  case (Cons e es)
  from Cons.prems have "leq (step e s) (fold step es (step e s))"
    by (intro Cons.IH inv_step)
  with Cons.prems show ?case by (auto intro: leq_trans leq_step)
qed

end

end
