(* ===== verification/Py_Text.thy ===== *)
theory Py_Text
  imports Jol_Prelude
begin

text \<open>
  The string methods of Python that the program calls, on ASCII text, and the decimal notation
  of natural numbers: \<open>startswith\<close>, \<open>endswith\<close>, \<open>removesuffix\<close>, \<open>split\<close>, \<open>strip\<close>,
  \<open>replace\<close>, \<open>upper\<close>, \<open>join\<close>, \<open>isdigit\<close>, \<open>str(int)\<close>, \<open>int(str)\<close>. The last section
  proves that reading a printed number gives the number back.
\<close>

section \<open>Character classes\<close>

definition in_range :: "nat \<Rightarrow> nat \<Rightarrow> char \<Rightarrow> bool" where
  "in_range lo hi c \<longleftrightarrow> lo \<le> of_char c \<and> of_char c \<le> hi"

definition is_digit :: "char \<Rightarrow> bool" where
  "is_digit = in_range 48 57"

definition is_upper :: "char \<Rightarrow> bool" where
  "is_upper = in_range 65 90"

definition is_lower :: "char \<Rightarrow> bool" where
  "is_lower = in_range 97 122"

definition is_letter :: "char \<Rightarrow> bool" where
  "is_letter c \<longleftrightarrow> is_upper c \<or> is_lower c"

definition is_space :: "char \<Rightarrow> bool" where
  "is_space c \<longleftrightarrow> in_range 9 13 c \<or> in_range 28 32 c"

text \<open>The class \<open>\w\<close> of the regular expressions.\<close>

definition is_word :: "char \<Rightarrow> bool" where
  "is_word c \<longleftrightarrow> is_letter c \<or> is_digit c \<or> c = CHR ''_''"

definition to_upper :: "char \<Rightarrow> char" where
  "to_upper c = (if is_lower c then char_of (of_char c - 32 :: nat) else c)"

definition to_lower :: "char \<Rightarrow> char" where
  "to_lower c = (if is_upper c then char_of (of_char c + 32 :: nat) else c)"

lemmas char_class_defs =
  in_range_def is_digit_def is_upper_def is_lower_def is_letter_def is_space_def is_word_def

section \<open>String methods\<close>

definition str_startswith :: "string \<Rightarrow> string \<Rightarrow> bool" where
  "str_startswith s p \<longleftrightarrow> take (length p) s = p"

definition str_endswith :: "string \<Rightarrow> string \<Rightarrow> bool" where
  "str_endswith s p \<longleftrightarrow> length p \<le> length s \<and> drop (length s - length p) s = p"

definition str_removesuffix :: "string \<Rightarrow> string \<Rightarrow> string" where
  "str_removesuffix s p =
     (if p \<noteq> [] \<and> str_endswith s p then take (length s - length p) s else s)"

fun str_split :: "char \<Rightarrow> string \<Rightarrow> string list" where
  "str_split c [] = [[]]"
| "str_split c (x # xs) =
     (if x = c then [] # str_split c xs
      else (case str_split c xs of [] \<Rightarrow> [[x]] | w # ws \<Rightarrow> (x # w) # ws))"

definition str_strip_if :: "(char \<Rightarrow> bool) \<Rightarrow> string \<Rightarrow> string" where
  "str_strip_if P s = rev (dropWhile P (rev (dropWhile P s)))"

definition str_strip :: "string \<Rightarrow> string" where
  "str_strip = str_strip_if is_space"

text \<open>\<open>s.replace(old, new)\<close> for a non-empty \<open>old\<close>: left to right, without overlaps.\<close>

function str_replace :: "string \<Rightarrow> string \<Rightarrow> string \<Rightarrow> string" where
  "str_replace old new s =
     (if old = [] \<or> s = [] then s
      else if str_startswith s old then new @ str_replace old new (drop (length old) s)
      else hd s # str_replace old new (tl s))"
  by pat_completeness auto
termination
  by (relation "measure (\<lambda>(old, new, s). length s)") auto

declare str_replace.simps [simp del]

definition str_upper :: "string \<Rightarrow> string" where
  "str_upper = map to_upper"

definition str_lower :: "string \<Rightarrow> string" where
  "str_lower = map to_lower"

definition str_isdigit :: "string \<Rightarrow> bool" where
  "str_isdigit s \<longleftrightarrow> s \<noteq> [] \<and> list_all is_digit s"

fun str_join :: "string \<Rightarrow> string list \<Rightarrow> string" where
  "str_join sep [] = []"
| "str_join sep [s] = s"
| "str_join sep (s # ss) = s @ sep @ str_join sep ss"

lemma str_split_nonempty [simp]: "str_split c s \<noteq> []"
  by (induction s) (auto split: list.splits)

lemma str_split_no_sep: "w \<in> set (str_split c s) \<Longrightarrow> c \<notin> set w"
proof (induction s arbitrary: w)
  case Nil
  then show ?case by simp
next
  case (Cons x xs)
  then show ?case by (cases "str_split c xs") (fastforce split: if_splits)+
qed

lemma str_startswith_append [simp]: "str_startswith (p @ s) p"
  by (simp add: str_startswith_def)

lemma str_startswith_iff: "str_startswith s p \<longleftrightarrow> (\<exists>t. s = p @ t)"
  by (metis append_take_drop_id str_startswith_append str_startswith_def)

lemma str_endswith_append [simp]: "str_endswith (s @ p) p"
  by (simp add: str_endswith_def)

lemma str_endswith_iff: "str_endswith s p \<longleftrightarrow> (\<exists>t. s = t @ p)"
proof
  assume "str_endswith s p"
  then have "s = take (length s - length p) s @ p"
    by (metis append_take_drop_id str_endswith_def)
  then show "\<exists>t. s = t @ p" ..
qed auto

lemma str_removesuffix_append: "p \<noteq> [] \<Longrightarrow> str_removesuffix (s @ p) p = s"
  by (simp add: str_removesuffix_def)

lemma str_replace_single:
  "str_replace [c] new s = concat (map (\<lambda>x. if x = c then new else [x]) s)"
proof (induction s)
  case Nil
  then show ?case by (simp add: str_replace.simps)
next
  case (Cons x xs)
  then show ?case
    by (subst str_replace.simps) (simp add: str_startswith_def)
qed

lemma str_replace_delete: "str_replace [c] [] s = filter (\<lambda>x. x \<noteq> c) s"
  by (induction s) (simp_all add: str_replace_single)

section \<open>Decimal notation\<close>

definition digit_char :: "nat \<Rightarrow> char" where
  "digit_char n = char_of (48 + n)"

definition digit_val :: "char \<Rightarrow> nat" where
  "digit_val c = of_char c - 48"

fun str_of_nat :: "nat \<Rightarrow> string" where
  "str_of_nat n =
     (if n < 10 then [digit_char n] else str_of_nat (n div 10) @ [digit_char (n mod 10)])"

declare str_of_nat.simps [simp del]

definition nat_of_digits :: "string \<Rightarrow> nat" where
  "nat_of_digits s = foldl (\<lambda>n c. 10 * n + digit_val c) 0 s"

definition str_of_int :: "int \<Rightarrow> string" where
  "str_of_int i = (if i < 0 then ''-'' @ str_of_nat (nat (- i)) else str_of_nat (nat i))"

lemma of_char_digit_char: "n < 10 \<Longrightarrow> of_char (digit_char n) = 48 + n"
  by (simp add: digit_char_def of_char_of)

lemma digit_val_char [simp]: "n < 10 \<Longrightarrow> digit_val (digit_char n) = n"
  by (simp add: digit_val_def of_char_digit_char)

lemma is_digit_char [simp]: "n < 10 \<Longrightarrow> is_digit (digit_char n)"
  by (simp add: is_digit_def in_range_def of_char_digit_char)

lemma digit_val_less: "is_digit c \<Longrightarrow> digit_val c < 10"
  by (auto simp: is_digit_def in_range_def digit_val_def)

lemma digit_char_val: "is_digit c \<Longrightarrow> digit_char (digit_val c) = c"
  by (auto simp: is_digit_def in_range_def digit_val_def digit_char_def)

lemma str_of_nat_digits: "list_all is_digit (str_of_nat n)"
proof (induction n rule: str_of_nat.induct)
  case (1 n)
  then show ?case by (subst str_of_nat.simps) simp
qed

lemma str_of_nat_nonempty [simp]: "str_of_nat n \<noteq> []"
  by (subst str_of_nat.simps) simp

lemma foldl_digits:
  "foldl (\<lambda>n c. 10 * n + digit_val c) a s = a * 10 ^ length s + nat_of_digits s"
proof (induction s rule: rev_induct)
  case Nil
  then show ?case by (simp add: nat_of_digits_def)
next
  case (snoc c s)
  then show ?case by (simp add: nat_of_digits_def algebra_simps)
qed

lemma nat_of_digits_append:
  "nat_of_digits (s @ t) = nat_of_digits s * 10 ^ length t + nat_of_digits t"
  by (simp add: nat_of_digits_def foldl_digits [of "foldl _ _ _", unfolded nat_of_digits_def])

lemma nat_of_digits_Nil [simp]: "nat_of_digits [] = 0"
  by (simp add: nat_of_digits_def)

lemma nat_of_digits_single [simp]: "nat_of_digits [c] = digit_val c"
  by (simp add: nat_of_digits_def)

theorem nat_of_str_of_nat [simp]: "nat_of_digits (str_of_nat n) = n"
proof (induction n rule: str_of_nat.induct)
  case (1 n)
  then show ?case
    by (subst str_of_nat.simps) (simp add: nat_of_digits_append)
qed

lemma str_of_nat_inject [simp]: "str_of_nat m = str_of_nat n \<longleftrightarrow> m = n"
  by (metis nat_of_str_of_nat)

lemma nat_of_digits_zeros [simp]: "nat_of_digits (replicate k CHR ''0'') = 0"
  by (induction k) (simp_all add: nat_of_digits_def foldl_digits digit_val_def)

lemma nat_of_digits_less: "list_all is_digit s \<Longrightarrow> nat_of_digits s < 10 ^ length s"
proof (induction s rule: rev_induct)
  case Nil
  then show ?case by simp
next
  case (snoc c s)
  then have "nat_of_digits s + 1 \<le> 10 ^ length s" and "digit_val c < 10"
    by (auto dest: digit_val_less)
  then have "(nat_of_digits s + 1) * 10 \<le> 10 ^ length s * 10" and "digit_val c < 10"
    by (auto intro: mult_le_mono1)
  then show ?case by (simp add: nat_of_digits_append)
qed

text \<open>The number of digits of a positive number.\<close>

definition ndigits :: "nat \<Rightarrow> nat" where
  "ndigits n = length (str_of_nat n)"

lemma ndigits_pos [simp]: "0 < ndigits n"
  by (simp add: ndigits_def)

lemma less_ndigits: "n < 10 ^ ndigits n"
  using nat_of_digits_less [OF str_of_nat_digits, of n] by (simp add: ndigits_def)

lemma ndigits_step: "ndigits n = (if n < 10 then 1 else Suc (ndigits (n div 10)))"
  by (simp add: ndigits_def str_of_nat.simps [of n])

lemma ndigits_le_iff: "0 < k \<Longrightarrow> ndigits n \<le> k \<longleftrightarrow> n < 10 ^ k"
proof (induction k arbitrary: n)
  case 0
  then show ?case by simp
next
  case (Suc k)
  show ?case
  proof (cases "n < 10")
    case True
    moreover have "(10::nat) \<le> 10 ^ Suc k" by simp
    ultimately show ?thesis using ndigits_step [of n] by (simp add: less_le_trans)
  next
    case False
    show ?thesis
    proof (cases "k = 0")
      case True
      with False show ?thesis using ndigits_step [of n] ndigits_pos [of "n div 10"] by simp
    next
      case k: False
      with Suc.IH have "ndigits (n div 10) \<le> k \<longleftrightarrow> n div 10 < 10 ^ k" by simp
      also have "\<dots> \<longleftrightarrow> n < 10 ^ Suc k" by (simp add: div_less_iff_less_mult mult.commute)
      finally show ?thesis using False ndigits_step [of n] by simp
    qed
  qed
qed

lemma ndigits_lower: "n \<noteq> 0 \<Longrightarrow> 10 ^ (ndigits n - 1) \<le> n"
proof (cases "ndigits n - 1")
  case (Suc k)
  then have "\<not> ndigits n \<le> Suc k" by linarith
  then show ?thesis using Suc ndigits_le_iff [of "Suc k" n] by simp
qed simp

end
