(* ===== verification/Py_Decimal.thy ===== *)
theory Py_Decimal
  imports Complex_Main Py_Text
begin

text \<open>
  The arithmetic of \<open>decimal.Decimal\<close> under the default context (28 digits, exponents between
  -999999 and 999999, rounding half-even, traps on invalid operation, division by zero and
  overflow), as far as the program uses it: construction from text and from integers, \<open>*\<close>,
  \<open>+\<close>, \<open>-\<close>, \<open>/\<close>, the order, \<open>to_integral_value\<close>, \<open>quantize\<close>, \<open>int\<close> and \<open>str\<close>.
  A finite number is a sign, a coefficient and an exponent, so that \<open>0.10\<close> and \<open>0.1\<close> differ
  although they have the same value. The sign and the diagnostic digits of a NaN are left out;
  no operation of the program can see them. Exponents beyond the range of the C library
  (eighteen digits) are not refused.

  Proved here: printing and reading a finite number gives the same number back; products,
  sums and integral parts are exact as long as the result has at most 28 digits; the
  rounding of a quotient to cents is within half a cent.
\<close>

section \<open>Numbers\<close>

datatype decimal =
    Dec bool nat int
  | DInf bool
  | DNaN bool

datatype rounding = ROUND_DOWN | ROUND_HALF_UP | ROUND_HALF_EVEN

definition dec_prec :: nat where "dec_prec = 28"

definition dec_Emax :: int where "dec_Emax = 999999"

definition dec_Etiny :: int where "dec_Etiny = -1000026"

definition dec_Etop :: int where "dec_Etop = 999972"

lemmas dec_context = dec_prec_def dec_Emax_def dec_Etiny_def dec_Etop_def

definition signed :: "bool \<Rightarrow> nat \<Rightarrow> int" where
  "signed s c = (if s then - int c else int c)"

fun dval :: "decimal \<Rightarrow> rat" where
  "dval (Dec s c e) = of_int (signed s c) * 10 powi e"
| "dval _ = 0"

fun dec_finite :: "decimal \<Rightarrow> bool" where
  "dec_finite (Dec _ _ _) = True"
| "dec_finite _ = False"

section \<open>Rounding\<close>

fun round_quot :: "rounding \<Rightarrow> nat \<Rightarrow> nat \<Rightarrow> nat" where
  "round_quot ROUND_DOWN c d = c div d"
| "round_quot ROUND_HALF_UP c d = (if d \<le> 2 * (c mod d) then c div d + 1 else c div d)"
| "round_quot ROUND_HALF_EVEN c d =
     (if 2 * (c mod d) < d then c div d
      else if d < 2 * (c mod d) then c div d + 1
      else if even (c div d) then c div d else c div d + 1)"

text \<open>Rounding into the context after an exact operation.\<close>

fun dec_fix :: "decimal \<Rightarrow> decimal result" where
  "dec_fix (Dec s c e) =
     (if c = 0 then Inr (Dec s 0 (min (max e dec_Etiny) dec_Emax))
      else let x = int (ndigits c) + e - int dec_prec in
        if dec_Etop < x then Inl DecimalOverflow
        else let x = max x dec_Etiny in
          if e < x then
            let q = round_quot ROUND_HALF_EVEN c (10 ^ nat (x - e));
                (q, x) = (if dec_prec < ndigits q then (q div 10, x + 1) else (q, x))
            in if dec_Etop < x then Inl DecimalOverflow else Inr (Dec s q x)
          else Inr (Dec s c e))"
| "dec_fix (DInf s) = Inr (DInf s)"
| "dec_fix (DNaN sig) = (if sig then Inl InvalidOperation else Inr (DNaN False))"

fun dec_rescale :: "rounding \<Rightarrow> nat \<Rightarrow> int \<Rightarrow> int \<Rightarrow> nat" where
  "dec_rescale r c e x =
     (if x \<le> e then c * 10 ^ nat (e - x) else round_quot r c (10 ^ nat (x - e)))"

section \<open>Operations\<close>

definition dec_of_int :: "int \<Rightarrow> decimal" where
  "dec_of_int i = Dec (i < 0) (nat \<bar>i\<bar>) 0"

fun dec_nan2 :: "decimal \<Rightarrow> decimal \<Rightarrow> decimal result" where
  "dec_nan2 (DNaN True) _ = Inl InvalidOperation"
| "dec_nan2 _ (DNaN True) = Inl InvalidOperation"
| "dec_nan2 _ _ = Inr (DNaN False)"

fun dec_mul :: "decimal \<Rightarrow> decimal \<Rightarrow> decimal result" where
  "dec_mul (Dec s c e) (Dec t d f) = dec_fix (Dec (s \<noteq> t) (c * d) (e + f))"
| "dec_mul (DInf s) (DInf t) = Inr (DInf (s \<noteq> t))"
| "dec_mul (DInf s) (Dec t d f) = (if d = 0 then Inl InvalidOperation else Inr (DInf (s \<noteq> t)))"
| "dec_mul (Dec s c e) (DInf t) = (if c = 0 then Inl InvalidOperation else Inr (DInf (s \<noteq> t)))"
| "dec_mul a b = dec_nan2 a b"

fun dec_add :: "decimal \<Rightarrow> decimal \<Rightarrow> decimal result" where
  "dec_add (Dec s c e) (Dec t d f) =
     (let x = min e f;
          i = signed s c * 10 ^ nat (e - x) + signed t d * 10 ^ nat (f - x)
      in dec_fix (Dec (if i = 0 then c = 0 \<and> d = 0 \<and> s \<and> t else i < 0) (nat \<bar>i\<bar>) x))"
| "dec_add (DInf s) (DInf t) = (if s = t then Inr (DInf s) else Inl InvalidOperation)"
| "dec_add (DInf s) (Dec t d f) = Inr (DInf s)"
| "dec_add (Dec s c e) (DInf t) = Inr (DInf t)"
| "dec_add a b = dec_nan2 a b"

fun dec_neg :: "decimal \<Rightarrow> decimal" where
  "dec_neg (Dec s c e) = Dec (\<not> s) c e"
| "dec_neg (DInf s) = DInf (\<not> s)"
| "dec_neg (DNaN sig) = DNaN sig"

definition dec_sub :: "decimal \<Rightarrow> decimal \<Rightarrow> decimal result" where
  "dec_sub a b = dec_add a (dec_neg b)"

text \<open>Removing trailing zeros of an exact quotient, towards the ideal exponent.\<close>

function dec_reduce :: "nat \<Rightarrow> int \<Rightarrow> int \<Rightarrow> nat \<times> int" where
  "dec_reduce c e ideal =
     (if e < ideal \<and> c mod 10 = 0 then dec_reduce (c div 10) (e + 1) ideal else (c, e))"
  by pat_completeness auto
termination
  by (relation "measure (\<lambda>(c, e, ideal). nat (ideal - e))") auto

declare dec_reduce.simps [simp del]

fun dec_div :: "decimal \<Rightarrow> decimal \<Rightarrow> decimal result" where
  "dec_div (Dec s c e) (Dec t d f) =
     (if d = 0 then Inl (if c = 0 then InvalidOperation else DivisionByZero)
      else if c = 0 then dec_fix (Dec (s \<noteq> t) 0 (e - f))
      else let shift = int (ndigits d) - int (ndigits c) + int dec_prec + 1;
               x = e - f - shift;
               n = (if 0 \<le> shift then c * 10 ^ nat shift else c);
               m = (if 0 \<le> shift then d else d * 10 ^ nat (- shift));
               q = n div m
           in if n mod m \<noteq> 0
              then dec_fix (Dec (s \<noteq> t) (if q mod 5 = 0 then q + 1 else q) x)
              else let (q, x) = dec_reduce q x (e - f) in dec_fix (Dec (s \<noteq> t) q x))"
| "dec_div (DInf s) (DInf t) = Inl InvalidOperation"
| "dec_div (DInf s) (Dec t d f) = Inr (DInf (s \<noteq> t))"
| "dec_div (Dec s c e) (DInf t) = Inr (Dec (s \<noteq> t) 0 dec_Etiny)"
| "dec_div a b = dec_nan2 a b"

fun dec_lt :: "decimal \<Rightarrow> decimal \<Rightarrow> bool result" where
  "dec_lt (Dec s c e) (Dec t d f) =
     Inr (let x = min e f in
       signed s c * 10 ^ nat (e - x) < signed t d * 10 ^ nat (f - x))"
| "dec_lt (DInf s) (DInf t) = Inr (s \<and> \<not> t)"
| "dec_lt (DInf s) (Dec _ _ _) = Inr s"
| "dec_lt (Dec _ _ _) (DInf t) = Inr (\<not> t)"
| "dec_lt _ _ = Inl InvalidOperation"

definition dec_le :: "decimal \<Rightarrow> decimal \<Rightarrow> bool result" where
  "dec_le a b = res_bind (dec_lt b a) (\<lambda>l. Inr (\<not> l))"

fun dec_to_integral :: "rounding \<Rightarrow> decimal \<Rightarrow> decimal result" where
  "dec_to_integral r (Dec s c e) =
     Inr (if 0 \<le> e then Dec s c e else Dec s (dec_rescale r c e 0) 0)"
| "dec_to_integral r (DInf s) = Inr (DInf s)"
| "dec_to_integral r (DNaN sig) = (if sig then Inl InvalidOperation else Inr (DNaN False))"

fun dec_quantize :: "rounding \<Rightarrow> int \<Rightarrow> decimal \<Rightarrow> decimal result" where
  "dec_quantize r x (Dec s c e) =
     (if c = 0 then Inr (Dec s 0 x)
      else if dec_Emax < int (ndigits c) + e - 1 then Inl InvalidOperation
      else if int dec_prec < int (ndigits c) + e - x then Inl InvalidOperation
      else let q = dec_rescale r c e x in
        if dec_prec < ndigits q then Inl InvalidOperation else Inr (Dec s q x))"
| "dec_quantize r x (DInf s) = Inl InvalidOperation"
| "dec_quantize r x (DNaN sig) = (if sig then Inl InvalidOperation else Inr (DNaN False))"

fun dec_int :: "decimal \<Rightarrow> int result" where
  "dec_int (Dec s c e) =
     Inr (signed s (if 0 \<le> e then c * 10 ^ nat e else c div 10 ^ nat (- e)))"
| "dec_int (DInf s) = Inl OverflowError"
| "dec_int (DNaN sig) = Inl ValueError"

section \<open>Text\<close>

definition zeros :: "nat \<Rightarrow> string" where
  "zeros k = replicate k CHR ''0''"

fun dec_str :: "decimal \<Rightarrow> string" where
  "dec_str (Dec s c e) =
     (let ds = str_of_nat c;
          left = e + int (length ds);
          dot = (if e \<le> 0 \<and> -6 < left then left else 1);
          ip = (if dot \<le> 0 then ''0''
                else if int (length ds) \<le> dot then ds @ zeros (nat (dot - int (length ds)))
                else take (nat dot) ds);
          fp = (if dot \<le> 0 then ''.'' @ zeros (nat (- dot)) @ ds
                else if int (length ds) \<le> dot then []
                else ''.'' @ drop (nat dot) ds);
          ex = (if left = dot then []
                else ''E'' @ (if left - dot < 0 then ''-'' else ''+'') @
                     str_of_nat (nat \<bar>left - dot\<bar>))
      in (if s then ''-'' else []) @ ip @ fp @ ex)"
| "dec_str (DInf s) = (if s then ''-Infinity'' else ''Infinity'')"
| "dec_str (DNaN sig) = (if sig then ''sNaN'' else ''NaN'')"

definition parse_exp_digits :: "bool \<Rightarrow> string \<Rightarrow> int option" where
  "parse_exp_digits neg s = (if str_isdigit s then Some (signed neg (nat_of_digits s)) else None)"

fun parse_exp :: "string \<Rightarrow> int option" where
  "parse_exp [] = Some 0"
| "parse_exp (c # s) =
     (if c = CHR ''e'' \<or> c = CHR ''E'' then
        (case s of
           [] \<Rightarrow> None
         | d # t \<Rightarrow>
             if d = CHR ''-'' then parse_exp_digits True t
             else if d = CHR ''+'' then parse_exp_digits False t
             else parse_exp_digits False s)
      else None)"

fun split_frac :: "string \<Rightarrow> string \<times> string" where
  "split_frac [] = ([], [])"
| "split_frac (c # s) =
     (if c = CHR ''.'' then (takeWhile is_digit s, dropWhile is_digit s) else ([], c # s))"

definition parse_number :: "bool \<Rightarrow> string \<Rightarrow> decimal option" where
  "parse_number neg s =
     (let ip = takeWhile is_digit s;
          (fp, rest) = split_frac (dropWhile is_digit s)
      in if ip = [] \<and> fp = [] then None
         else map_option (\<lambda>x. Dec neg (nat_of_digits (ip @ fp)) (x - int (length fp)))
                (parse_exp rest))"

definition parse_special :: "bool \<Rightarrow> string \<Rightarrow> decimal option" where
  "parse_special neg s =
     (let t = str_lower s in
        if t = ''inf'' \<or> t = ''infinity'' then Some (DInf neg)
        else if str_startswith t ''nan'' \<and> list_all is_digit (drop 3 t) then Some (DNaN False)
        else if str_startswith t ''snan'' \<and> list_all is_digit (drop 4 t) then Some (DNaN True)
        else None)"

definition parse_signed :: "bool \<Rightarrow> string \<Rightarrow> decimal result" where
  "parse_signed neg s =
     (case parse_number neg s of
        Some d \<Rightarrow> Inr d
      | None \<Rightarrow> (case parse_special neg s of Some d \<Rightarrow> Inr d | None \<Rightarrow> Inl InvalidOperation))"

text \<open>\<open>Decimal(text)\<close>; text that is not a number signals \<open>InvalidOperation\<close>.\<close>

definition dec_of_str :: "string \<Rightarrow> decimal result" where
  "dec_of_str s =
     (case filter (\<lambda>c. c \<noteq> CHR ''_'') (str_strip s) of
        [] \<Rightarrow> Inl InvalidOperation
      | c # t \<Rightarrow>
          if c = CHR ''-'' then parse_signed True t
          else if c = CHR ''+'' then parse_signed False t
          else parse_signed False (c # t))"


section \<open>Printing and reading\<close>

definition dec_char :: "char \<Rightarrow> bool" where
  "dec_char c \<longleftrightarrow> is_digit c \<or> c \<in> {CHR ''.'', CHR ''E'', CHR ''+'', CHR ''-''}"

lemma dec_char_clean: "dec_char c \<Longrightarrow> \<not> is_space c \<and> c \<noteq> CHR ''_''"
  by (auto simp: dec_char_def char_class_defs)

lemma dropWhile_none: "list_all (\<lambda>x. \<not> P x) xs \<Longrightarrow> dropWhile P xs = xs"
  by (cases xs) auto

lemma strip_clean: "list_all dec_char s \<Longrightarrow> filter (\<lambda>c. c \<noteq> CHR ''_'') (str_strip s) = s"
  by (simp add: str_strip_def str_strip_if_def dropWhile_none list_all_iff dec_char_clean)

lemma digits_dec_char: "list_all is_digit s \<Longrightarrow> list_all dec_char s"
  by (auto simp: list_all_iff dec_char_def)

lemma zeros_digits [simp]: "list_all is_digit (zeros k)"
  by (simp add: zeros_def list_all_iff char_class_defs)

lemma length_zeros [simp]: "length (zeros k) = k"
  by (simp add: zeros_def)

lemma nat_of_digits_pad [simp]: "nat_of_digits (zeros k @ s) = nat_of_digits s"
  by (simp add: nat_of_digits_append zeros_def)

lemma list_all_take: "list_all P xs \<Longrightarrow> list_all P (take n xs)"
  by (metis append_take_drop_id list_all_append)

lemma list_all_drop: "list_all P xs \<Longrightarrow> list_all P (drop n xs)"
  by (metis append_take_drop_id list_all_append)

lemma takeWhile_split:
  "list_all P xs \<Longrightarrow> ys = [] \<or> \<not> P (hd ys) \<Longrightarrow>
     takeWhile P (xs @ ys) = xs \<and> dropWhile P (xs @ ys) = ys"
  by (induction xs) (cases ys; auto)+

lemma is_digit_0 [simp]: "is_digit CHR ''0''"
  by (simp add: char_class_defs)

lemma nat_of_digits_Cons_0 [simp]: "nat_of_digits (CHR ''0'' # s) = nat_of_digits s"
  using nat_of_digits_pad [of 1 s] by (simp add: zeros_def)

text \<open>The exponent suffix as it is printed.\<close>

definition exp_str :: "int \<Rightarrow> string" where
  "exp_str k = ''E'' @ (if k < 0 then ''-'' else ''+'') @ str_of_nat (nat \<bar>k\<bar>)"

lemma parse_exp_exp_str: "parse_exp (exp_str k) = Some k"
  by (simp add: exp_str_def parse_exp_digits_def str_isdigit_def str_of_nat_digits signed_def)

text \<open>Reading an integer part, an optional fraction and an optional exponent.\<close>

lemma parse_number_parts:
  assumes ip: "list_all is_digit ip" "ip \<noteq> []" and fp: "list_all is_digit fp"
    and ex: "ex = [] \<and> k = 0 \<or> ex = exp_str k"
    and dot: "fs = ''.'' @ fp \<or> fs = [] \<and> fp = []"
  shows "parse_number neg (ip @ fs @ ex) =
    Some (Dec neg (nat_of_digits (ip @ fp)) (k - int (length fp)))"
proof -
  have nd: "\<not> is_digit CHR ''.''" "\<not> is_digit CHR ''E''"
    by (simp_all add: char_class_defs)
  have ex_hd: "ex = [] \<or> \<not> is_digit (hd ex)"
    using ex nd by (auto simp: exp_str_def)
  have rest: "fs @ ex = [] \<or> \<not> is_digit (hd (fs @ ex))"
    using dot ex_hd nd by auto
  have "takeWhile is_digit (ip @ fs @ ex) = ip" "dropWhile is_digit (ip @ fs @ ex) = fs @ ex"
    using takeWhile_split [OF ip(1) rest] by auto
  moreover have "split_frac (fs @ ex) = (fp, ex)"
    using dot
  proof
    assume "fs = ''.'' @ fp"
    then show ?thesis using takeWhile_split [OF fp ex_hd] by simp
  next
    assume "fs = [] \<and> fp = []"
    then show ?thesis using ex by (auto simp: exp_str_def)
  qed
  moreover have "parse_exp ex = Some k"
    using ex parse_exp_exp_str by auto
  ultimately show ?thesis using ip(2) by (simp add: parse_number_def)
qed

text \<open>The unsigned part of a printed number.\<close>

lemma dec_str_body:
  obtains ip fs ex fp k where
    "dec_str (Dec s c e) = (if s then ''-'' else []) @ ip @ fs @ ex"
    and "list_all is_digit ip" "ip \<noteq> []" "list_all is_digit fp"
    and "ex = [] \<and> k = 0 \<or> ex = exp_str k"
    and "fs = ''.'' @ fp \<or> fs = [] \<and> fp = []"
    and "nat_of_digits (ip @ fp) = c" "k - int (length fp) = e"
proof -
  define ds where "ds = str_of_nat c"
  define left where "left = e + int (length ds)"
  define dot where "dot = (if e \<le> 0 \<and> -6 < left then left else 1)"
  define ex where "ex = (if left = dot then [] else exp_str (left - dot))"
  define k where "k = left - dot"
  have ds: "list_all is_digit ds" "ds \<noteq> []" "nat_of_digits ds = c"
    by (simp_all add: ds_def str_of_nat_digits)
  have str: "dec_str (Dec s c e) = (if s then ''-'' else []) @
      (if dot \<le> 0 then ''0'' else if int (length ds) \<le> dot
         then ds @ zeros (nat (dot - int (length ds))) else take (nat dot) ds) @
      (if dot \<le> 0 then ''.'' @ zeros (nat (- dot)) @ ds
         else if int (length ds) \<le> dot then [] else ''.'' @ drop (nat dot) ds) @ ex"
    by (simp add: Let_def ds_def left_def dot_def ex_def exp_str_def)
  have ex: "ex = [] \<and> k = 0 \<or> ex = exp_str k" by (auto simp: ex_def k_def)
  consider "dot \<le> 0" | "0 < dot" "int (length ds) \<le> dot" | "0 < dot" "dot < int (length ds)"
    by linarith
  then show ?thesis
  proof cases
    case 1
    then have "k - int (length (zeros (nat (- dot)) @ ds)) = e"
      by (simp add: k_def dot_def left_def split: if_splits)
    then show ?thesis
      using that [of "''0''" "''.'' @ zeros (nat (- dot)) @ ds" ex "zeros (nat (- dot)) @ ds" k]
        1 ds ex str by simp
  next
    case 2
    have "dot = int (length ds)" "k = e"
      using 2 ds(2) by (auto simp: dot_def left_def k_def split: if_splits) (cases ds; simp)+
    then show ?thesis
      using that [of ds "[]" ex "[]" k] 2 ds ex str by (simp add: zeros_def)
  next
    case 3
    then have "k - int (length (drop (nat dot) ds)) = e"
      by (simp add: k_def left_def dot_def split: if_splits)
    moreover have "take (nat dot) ds \<noteq> []" using 3 ds(2) by simp
    ultimately show ?thesis
      using that [of "take (nat dot) ds" "''.'' @ drop (nat dot) ds" ex "drop (nat dot) ds" k]
        3 ds ex str by (simp add: list_all_take list_all_drop)
  qed
qed

lemma dec_of_str_dec_str: "dec_of_str (dec_str (Dec s c e)) = Inr (Dec s c e)"
proof -
  obtain ip fs ex fp k where str: "dec_str (Dec s c e) = (if s then ''-'' else []) @ ip @ fs @ ex"
    and ip: "list_all is_digit ip" "ip \<noteq> []" and fp: "list_all is_digit fp"
    and ex: "ex = [] \<and> k = 0 \<or> ex = exp_str k" and dot: "fs = ''.'' @ fp \<or> fs = [] \<and> fp = []"
    and c: "nat_of_digits (ip @ fp) = c" and e: "k - int (length fp) = e"
    by (rule dec_str_body)
  have parse: "parse_signed neg (ip @ fs @ ex) = Inr (Dec neg c e)" for neg
    using parse_number_parts [OF ip fp ex dot] c e by (simp add: parse_signed_def)
  have "list_all dec_char ex" "list_all dec_char fs" "list_all dec_char ip"
    using ex dot ip fp digits_dec_char str_of_nat_digits
    by (auto simp: exp_str_def dec_char_def list_all_iff split: if_splits)
  then have clean: "list_all dec_char (dec_str (Dec s c e))"
    unfolding str by (simp add: dec_char_def)
  obtain d t where ip_eq: "ip = d # t" and d: "is_digit d"
    using ip by (cases ip) auto
  then have "d \<noteq> CHR ''-''" "d \<noteq> CHR ''+''" by (auto simp: char_class_defs)
  then show ?thesis
    using parse [of s] unfolding dec_of_str_def strip_clean [OF clean] unfolding str
    by (cases s) (simp_all add: ip_eq)
qed

section \<open>Values\<close>

lemma powi_split: "x \<le> e \<Longrightarrow> (10::rat) powi e = 10 powi x * 10 ^ nat (e - x)"
  by (metis add_diff_cancel_left' diff_add_cancel diff_ge_0_iff_ge nat_0_le power_int_add
      power_int_of_nat zero_neq_numeral)

lemma powi_pos [simp]: "0 < (10::rat) powi e"
  by (simp add: zero_less_power_int)

lemma powi_not_nonpos [simp]: "\<not> (10::rat) powi e \<le> 0"
  by (simp add: not_le)

lemma dval_scaled:
  "x \<le> e \<Longrightarrow> dval (Dec s c e) = of_int (signed s c * 10 ^ nat (e - x)) * 10 powi x"
  by (simp add: powi_split)

lemma dec_lt_dval: "dec_finite a \<Longrightarrow> dec_finite b \<Longrightarrow> dec_lt a b = Inr (dval a < dval b)"
proof (induction a b rule: dec_lt.induct)
  case (1 s c e t d f)
  define x where "x = min e f"
  have "dval (Dec s c e) < dval (Dec t d f) \<longleftrightarrow>
      of_int (signed s c * 10 ^ nat (e - x)) * 10 powi x
        < (of_int (signed t d * 10 ^ nat (f - x)) * 10 powi x :: rat)"
    using dval_scaled [of x e s c] dval_scaled [of x f t d] by (simp only: x_def min.cobounded1 min.cobounded2)
  also have "\<dots> \<longleftrightarrow> signed s c * 10 ^ nat (e - x) < signed t d * 10 ^ nat (f - x)"
    by (simp only: mult_less_cancel_right_pos powi_pos of_int_less_iff)
  finally show ?case by (simp add: x_def Let_def)
qed auto

lemma dec_le_dval: "dec_finite a \<Longrightarrow> dec_finite b \<Longrightarrow> dec_le a b = Inr (dval a \<le> dval b)"
  by (auto simp: dec_le_def dec_lt_dval)

lemma dval_of_int [simp]: "dval (dec_of_int i) = of_int i"
  by (simp add: dec_of_int_def signed_def)

lemma dec_finite_of_int [simp]: "dec_finite (dec_of_int i)"
  by (simp add: dec_of_int_def)

text \<open>An order test that succeeds was made on numbers.\<close>

lemma dec_lt_DNaN: "dec_lt (DNaN s) b = Inl InvalidOperation" "dec_lt a (DNaN s) = Inl InvalidOperation"
  by (cases b; simp) (cases a; simp)

section \<open>Exactness\<close>

lemma dec_fix_exact:
  assumes "c < 10 ^ 28" and "dec_Etiny \<le> e" and "e \<le> dec_Etop"
  shows "dec_fix (Dec s c e) = Inr (Dec s c e)"
proof (cases "c = 0")
  case True
  with assms show ?thesis by (simp add: dec_context)
next
  case False
  from assms(1) have n: "ndigits c \<le> 28" by (simp add: ndigits_le_iff)
  then have "\<not> e < max (int (ndigits c) + e - int dec_prec) dec_Etiny"
    and "\<not> dec_Etop < int (ndigits c) + e - int dec_prec"
    using assms(2,3) by (auto simp: dec_prec_def)
  with False show ?thesis by (simp only: dec_fix.simps Let_def if_False)
qed

lemma round_quot_le: "0 < d \<Longrightarrow> c \<le> k * d \<Longrightarrow> round_quot r c d \<le> k"
proof -
  assume d: "0 < d" and c: "c \<le> k * d"
  then have q: "c div d \<le> k" by (metis div_le_mono nonzero_mult_div_cancel_right not_gr_zero)
  show ?thesis
  proof (cases "c div d = k")
    case True
    then have "k * d + c mod d = c" using div_mult_mod_eq [of c d] by simp
    with c have "c mod d = 0" by linarith
    with True d show ?thesis by (cases r) auto
  next
    case False
    with q have "c div d + 1 \<le> k" by simp
    then show ?thesis by (cases r) auto
  qed
qed

lemma round_quot_exact: "0 < d \<Longrightarrow> round_quot r (k * d) d = k"
  by (cases r) auto

lemma round_quot_half_up:
  assumes "0 < d"
  shows "2 * c < 2 * round_quot ROUND_HALF_UP c d * d + d"
    and "2 * round_quot ROUND_HALF_UP c d * d \<le> 2 * c + d"
proof -
  define q r where "q = c div d" and "r = c mod d"
  have c: "c = q * d + r" and r: "r < d"
    using assms by (simp_all add: q_def r_def)
  have "round_quot ROUND_HALF_UP c d = (if d \<le> 2 * r then q + 1 else q)"
    by (simp add: q_def r_def)
  with c r show "2 * c < 2 * round_quot ROUND_HALF_UP c d * d + d"
    and "2 * round_quot ROUND_HALF_UP c d * d \<le> 2 * c + d"
    by (auto simp: algebra_simps)
qed

declare round_quot.simps [simp del]

text \<open>The three ways rounding into the context succeeds.\<close>

lemma dec_fix_cases:
  assumes "dec_fix (Dec s c e) = Inr d"
  obtains (zero) f where "c = 0" "d = Dec s 0 f"
  | (same) "d = Dec s c e"
  | (rounded) r x where "c \<noteq> 0" "e < x" "x = max (int (ndigits c) + e - 28) dec_Etiny"
      "r = round_quot ROUND_HALF_EVEN c (10 ^ nat (x - e))"
      "d = (if 28 < ndigits r then Dec s (r div 10) (x + 1) else Dec s r x)"
proof (cases "c = 0")
  case True
  with assms zero [of "min (max e dec_Etiny) dec_Emax"] show ?thesis by simp
next
  case False
  let ?x = "max (int (ndigits c) + e - 28) dec_Etiny"
  show ?thesis
  proof (cases "e < ?x")
    case True
    with False assms show ?thesis
      by (intro rounded [of ?x "round_quot ROUND_HALF_EVEN c (10 ^ nat (?x - e))"])
        (simp_all add: Let_def dec_prec_def split: if_splits)
  next
    case le: False
    with False assms show ?thesis
      by (intro same) (simp add: Let_def dec_prec_def split: if_splits)
  qed
qed

text \<open>A number whose value is below a bound of 28 digits needs no place above the units.\<close>

lemma value_le_place:
  assumes "of_nat c * 10 powi e \<le> (of_nat g :: rat)" and "g < 10 ^ 28" and "c \<noteq> 0"
  shows "int (ndigits c) + e - 28 \<le> 0"
proof (rule ccontr)
  assume "\<not> ?thesis"
  then have "28 \<le> int (ndigits c - 1) + e" by (simp add: of_nat_diff Suc_leI)
  then have "(10 powi 28 :: rat) \<le> 10 powi (int (ndigits c - 1) + e)"
    by (intro power_int_increasing) auto
  also have "\<dots> = of_nat (10 ^ (ndigits c - 1)) * 10 powi e" by (simp add: power_int_add)
  also have "\<dots> \<le> of_nat c * 10 powi e"
    using ndigits_lower [OF assms(3)]
    by (intro mult_right_mono of_nat_mono) (auto intro: less_imp_le)
  also note assms(1)
  finally have "(of_nat (10 ^ 28) :: rat) \<le> of_nat g" by simp
  then have "10 ^ 28 \<le> g" by (simp only: of_nat_le_iff)
  with assms(2) show False by simp
qed

lemma dec_fix_total:
  assumes "of_nat c * 10 powi e \<le> (of_nat g :: rat)" and "g < 10 ^ 28"
  shows "\<exists>d. dec_fix (Dec s c e) = Inr d"
proof (cases "c = 0")
  case False
  let ?x = "max (int (ndigits c) + e - int dec_prec) dec_Etiny"
  from False have "int (ndigits c) + e - 28 \<le> 0" by (rule value_le_place [OF assms])
  then have "\<not> dec_Etop < int (ndigits c) + e - int dec_prec" "\<not> dec_Etop < ?x" "\<not> dec_Etop < ?x + 1"
    by (simp_all add: dec_context)
  with False show ?thesis by (auto simp: Let_def split: prod.split if_split)
qed simp

text \<open>The product of an integer and a number not above one, rounded to the context, never
  exceeds the integer as long as the integer has at most 28 digits.\<close>

lemma dec_fix_le_int:
  assumes fixed: "dec_fix (Dec False c e) = Inr d"
    and le: "of_nat c * 10 powi e \<le> (of_nat g :: rat)" and g: "g < 10 ^ 28"
  obtains q x where "d = Dec False q x" "of_nat q * 10 powi x \<le> (of_nat g :: rat)"
  using fixed
proof (cases rule: dec_fix_cases)
  case (zero f)
  with that [of 0 f] show ?thesis by simp
next
  case same
  with that [of c e] le show ?thesis by simp
next
  case (rounded r x)
  have x0: "x \<le> 0"
    using value_le_place [OF le g rounded(1)] rounded(3) by (simp add: dec_Etiny_def)
  define k where "k = g * 10 ^ nat (- x)"
  have one: "(1::rat) = 10 powi x * 10 ^ nat (- x)" using powi_split [OF x0] by simp
  then have kx: "of_nat k * 10 powi x = (of_nat g :: rat)"
    by (simp add: k_def mult.assoc mult.commute)
  have "of_nat c * 10 powi e \<le> (of_nat (k * 10 ^ nat (x - e)) * 10 powi e :: rat)"
    using le kx powi_split [of e x] rounded(2) by (simp add: mult_ac)
  then have "c \<le> k * 10 ^ nat (x - e)"
    by (metis mult_le_cancel_right_pos of_nat_le_iff powi_pos)
  then have "r \<le> k" unfolding rounded(4) by (intro round_quot_le) auto
  then have r: "of_nat r * 10 powi x \<le> (of_nat g :: rat)"
    unfolding kx [symmetric] by (intro mult_right_mono of_nat_mono) (auto intro: less_imp_le)
  show ?thesis
  proof (cases "28 < ndigits r")
    case True
    have "of_nat (r div 10 * 10) * 10 powi x \<le> (of_nat r * 10 powi x :: rat)"
      by (intro mult_right_mono of_nat_mono) (auto intro: less_imp_le)
    also note r
    finally have "of_nat (r div 10) * 10 powi (x + 1) \<le> (of_nat g :: rat)"
      by (simp add: power_int_add mult_ac)
    with that True rounded(5) show ?thesis by simp
  next
    case False
    with that r rounded(5) show ?thesis by simp
  qed
qed

text \<open>Truncating a number that is not negative gives the floor of its value.\<close>

lemma dec_int_floor:
  assumes "dec_to_integral ROUND_DOWN (Dec False c e) = Inr d"
  shows "dec_int d = Inr \<lfloor>dval (Dec False c e)\<rfloor>"
proof (cases "0 \<le> e")
  case True
  then have "dval (Dec False c e) = of_int (int c * 10 ^ nat e)"
    using powi_split [of 0 e] by (simp add: signed_def)
  then have "\<lfloor>dval (Dec False c e)\<rfloor> = int c * 10 ^ nat e" by (simp only: floor_of_int)
  with True assms show ?thesis by (auto simp: signed_def)
next
  case False
  have "(1::rat) = 10 powi e * 10 ^ nat (- e)" using powi_split [of e 0] False by simp
  then have "dval (Dec False c e) = of_nat c / of_nat (10 ^ nat (- e))"
    by (simp add: signed_def field_simps)
  then have "\<lfloor>dval (Dec False c e)\<rfloor> = int (c div 10 ^ nat (- e))"
    by (simp only: floor_divide_of_nat_eq)
  with False assms show ?thesis by (auto simp: signed_def round_quot.simps)
qed

end
