(* ===== verification/Commissions.thy ===== *)
theory Commissions
  imports Py_Decimal
begin

text \<open>
  The commission engine and the settlement ledger: \<open>commissions/commission_engine.py\<close> and
  \<open>commissions/commission_ledger.py\<close>. A split divides an order total between the platform
  fee and the tenant settlement; a reversal takes back a fraction of a settled split; the
  ledger only accepts balanced entries and only grows.

  Proved: a calculated split is balanced, neither part is negative and the fee is the floor of
  the exact product; the calculation succeeds exactly on the documented inputs; the rate text
  that a settlement stores reads back as the same rate; reversals stay within the settled
  amounts and a full reversal returns them exactly; reconciliation totals are balanced.
\<close>

section \<open>The commission engine\<close>

definition DEFAULT_COMMISSION_RATE :: decimal where
  "DEFAULT_COMMISSION_RATE = Dec False 10 (-2)"

record commission_split =
  cs_rate :: decimal
  cs_gross_amount_cents :: int
  cs_platform_fee_cents :: int
  cs_tenant_settlement_cents :: int

definition rate_str :: "commission_split \<Rightarrow> string" where
  "rate_str sp = dec_str (cs_rate sp)"

definition validate_rate :: "decimal \<Rightarrow> unit result" where
  "validate_rate rate =
     res_bind (dec_lt rate (dec_of_int 0)) (\<lambda>neg.
       if neg then Inl ValueError
       else res_bind (dec_lt (dec_of_int 1) rate) (\<lambda>above.
         if above then Inl ValueError else Inr ()))"

record commission_engine =
  ce_default_rate :: decimal

definition CommissionEngine :: "decimal \<Rightarrow> commission_engine result" where
  "CommissionEngine default_rate =
     res_bind (validate_rate default_rate) (\<lambda>_. Inr \<lparr>ce_default_rate = default_rate\<rparr>)"

text \<open>\<open>int((Decimal(amount) * factor).to_integral_value(rounding=ROUND_DOWN))\<close>\<close>

definition scaled_down :: "int \<Rightarrow> decimal \<Rightarrow> int result" where
  "scaled_down amount factor =
     res_bind (dec_mul (dec_of_int amount) factor) (\<lambda>p.
       res_bind (dec_to_integral ROUND_DOWN p) dec_int)"

definition calculate :: "commission_engine \<Rightarrow> int \<Rightarrow> string option \<Rightarrow> commission_split result" where
  "calculate eng gross_amount_cents tenant_rate =
     (if gross_amount_cents < 0 then Inl ValueError
      else
        res_bind (case tenant_rate of Some r \<Rightarrow> dec_of_str r | None \<Rightarrow> Inr (ce_default_rate eng)) (\<lambda>rate.
        res_bind (validate_rate rate) (\<lambda>_.
        res_bind (scaled_down gross_amount_cents rate) (\<lambda>fee.
          Inr \<lparr>cs_rate = rate,
               cs_gross_amount_cents = gross_amount_cents,
               cs_platform_fee_cents = fee,
               cs_tenant_settlement_cents = gross_amount_cents - fee\<rparr>))))"

definition reverse_split :: "commission_split \<Rightarrow> string \<Rightarrow> commission_split result" where
  "reverse_split sp fraction =
     res_bind (dec_of_str fraction) (\<lambda>frac.
     res_bind (dec_le frac (dec_of_int 0)) (\<lambda>nonpos.
     res_bind (if nonpos then Inr True else dec_lt (dec_of_int 1) frac) (\<lambda>bad.
       if bad then Inl ValueError
       else
         res_bind (scaled_down (cs_gross_amount_cents sp) frac) (\<lambda>gross_reversed.
         res_bind (scaled_down (cs_platform_fee_cents sp) frac) (\<lambda>fee_reversed.
           Inr \<lparr>cs_rate = cs_rate sp,
                cs_gross_amount_cents = gross_reversed,
                cs_platform_fee_cents = fee_reversed,
                cs_tenant_settlement_cents = gross_reversed - fee_reversed\<rparr>)))))"

section \<open>The ledger\<close>

record ledger_entry =
  le_tenant_id :: string
  le_order_id :: string
  le_currency :: string
  le_gross_amount_cents :: int
  le_platform_fee_cents :: int
  le_tenant_settlement_cents :: int
  le_rate :: string
  le_entry_id :: string
  le_settled_at :: string

text \<open>The frozen dataclass checks its balance when it is constructed.\<close>

definition LedgerEntry :: "ledger_entry \<Rightarrow> ledger_entry result" where
  "LedgerEntry e =
     (if le_platform_fee_cents e + le_tenant_settlement_cents e \<noteq> le_gross_amount_cents e
      then Inl ValueError else Inr e)"

record commission_ledger =
  cl_entries :: "ledger_entry list"

definition empty_ledger :: commission_ledger where
  "empty_ledger = \<lparr>cl_entries = []\<rparr>"

definition ledger_append :: "ledger_entry \<Rightarrow> commission_ledger \<Rightarrow> commission_ledger" where
  "ledger_append e l = l\<lparr>cl_entries := cl_entries l @ [e]\<rparr>"

definition entries_for_tenant :: "string \<Rightarrow> commission_ledger \<Rightarrow> ledger_entry list" where
  "entries_for_tenant tenant_id l = filter (\<lambda>e. le_tenant_id e = tenant_id) (cl_entries l)"

text \<open>\<open>self.entries_for_tenant(tenant_id) if tenant_id else self._entries\<close>\<close>

definition ledger_view :: "string option \<Rightarrow> commission_ledger \<Rightarrow> ledger_entry list" where
  "ledger_view tenant_id l =
     (case tenant_id of
        Some t \<Rightarrow> if t \<noteq> [] then entries_for_tenant t l else cl_entries l
      | None \<Rightarrow> cl_entries l)"

definition platform_fee_total :: "string option \<Rightarrow> commission_ledger \<Rightarrow> int" where
  "platform_fee_total tenant_id l = sum_list (map le_platform_fee_cents (ledger_view tenant_id l))"

definition ledger_entry_count :: "commission_ledger \<Rightarrow> nat" where
  "ledger_entry_count l = length (cl_entries l)"

definition daily_reconciliation_balance ::
    "string option \<Rightarrow> commission_ledger \<Rightarrow> (string, int) dict" where
  "daily_reconciliation_balance tenant_id l =
     (let entries = ledger_view tenant_id l in
       [(''gross_cents'', sum_list (map le_gross_amount_cents entries)),
        (''platform_fee_cents'', sum_list (map le_platform_fee_cents entries)),
        (''tenant_settlement_cents'', sum_list (map le_tenant_settlement_cents entries))])"

definition rate_to_decimal :: "string \<Rightarrow> decimal result" where
  "rate_to_decimal rate = dec_of_str rate"

section \<open>What an accepted rate is\<close>

text \<open>The rates the engine accepts: finite numbers between zero and one.\<close>

definition unit_rate :: "decimal \<Rightarrow> bool" where
  "unit_rate d \<longleftrightarrow> dec_finite d \<and> 0 \<le> dval d \<and> dval d \<le> 1"

lemma dval_nonneg_iff: "0 \<le> dval (Dec s c e) \<longleftrightarrow> \<not> s \<or> c = 0"
  by (auto simp: signed_def zero_le_mult_iff)

lemma validate_rate_iff: "validate_rate d = Inr () \<longleftrightarrow> unit_rate d"
proof (cases "dec_finite d")
  case True
  then show ?thesis by (auto simp: validate_rate_def unit_rate_def dec_lt_dval)
next
  case False
  then show ?thesis
    by (cases d) (auto simp: validate_rate_def unit_rate_def dec_of_int_def)
qed

lemma unit_rate_cases:
  assumes "unit_rate d"
  obtains s c e where "d = Dec s c e" "\<not> s \<or> c = 0" "of_nat c * 10 powi e \<le> (1::rat)"
proof -
  from assms obtain s c e where d: "d = Dec s c e" by (cases d) (auto simp: unit_rate_def)
  with assms have "\<not> s \<or> c = 0" by (simp add: unit_rate_def dval_nonneg_iff del: dval.simps)
  moreover from this assms d have "of_nat c * 10 powi e \<le> (1::rat)"
    by (auto simp: unit_rate_def signed_def)
  ultimately show ?thesis using d that by blast
qed

section \<open>Scaling an amount\<close>

text \<open>Scaling a non-negative amount of at most 28 digits by a rate succeeds, and the result lies
  between zero and the amount.\<close>

lemma scaled_down_bounds:
  assumes "0 \<le> g" and "g < 10 ^ 28" and "unit_rate d"
  obtains f where "scaled_down g d = Inr f" "0 \<le> f" "f \<le> g"
proof -
  from assms(3) obtain s c e where d: "d = Dec s c e" and s: "\<not> s \<or> c = 0"
    and le: "of_nat c * 10 powi e \<le> (1::rat)" by (rule unit_rate_cases)
  define p where "p = nat g * c"
  have g: "nat g < 10 ^ 28" using assms(1,2) by (simp add: nat_less_iff)
  have "of_nat p * 10 powi e = of_nat (nat g) * (of_nat c * 10 powi e :: rat)"
    by (simp add: p_def mult_ac)
  also have "\<dots> \<le> of_nat (nat g) * 1" using le by (intro mult_left_mono) auto
  finally have ple: "of_nat p * 10 powi e \<le> (of_nat (nat g) :: rat)" by simp
  have mul: "dec_mul (dec_of_int g) d = dec_fix (Dec (s \<noteq> (g < 0)) p e)"
    using assms(1) by (auto simp: dec_of_int_def d p_def)
  show ?thesis
  proof (cases "s")
    case True
    with s have "c = 0" by simp
    then have p: "p = 0" by (simp add: p_def)
    have "scaled_down g d = Inr 0"
      unfolding scaled_down_def mul p by (simp add: signed_def round_quot.simps)
    with that [of 0] assms(1) show ?thesis by simp
  next
    case False
    with mul assms(1) have mul: "dec_mul (dec_of_int g) d = dec_fix (Dec False p e)" by simp
    obtain m where m: "dec_fix (Dec False p e) = Inr m" using dec_fix_total [OF ple g] by blast
    then obtain q x where qx: "m = Dec False q x" "of_nat q * 10 powi x \<le> (of_nat (nat g) :: rat)"
      using ple g by (rule dec_fix_le_int)
    have "scaled_down g d = Inr \<lfloor>dval (Dec False q x)\<rfloor>"
      unfolding scaled_down_def mul m qx res_bind_simps
      using dec_int_floor [of q x] by (simp del: dval.simps)
    moreover have "0 \<le> \<lfloor>dval (Dec False q x)\<rfloor>" by (simp add: signed_def)
    moreover have "\<lfloor>dval (Dec False q x)\<rfloor> \<le> g"
      using qx(2) assms(1) by (simp add: signed_def floor_le_iff)
    ultimately show ?thesis using that by blast
  qed
qed

text \<open>A factor that multiplies an amount without rounding: the product has at most 28 digits.\<close>

fun exact_factor :: "int \<Rightarrow> decimal \<Rightarrow> bool" where
  "exact_factor g (Dec s c e) \<longleftrightarrow>
     \<not> s \<and> nat \<bar>g\<bar> * c < 10 ^ 28 \<and> dec_Etiny \<le> e \<and> e \<le> dec_Etop"
| "exact_factor g _ \<longleftrightarrow> False"

lemma scaled_down_exact:
  assumes "0 \<le> g" and "exact_factor g d"
  shows "scaled_down g d = Inr \<lfloor>of_int g * dval d\<rfloor>"
proof -
  from assms(2) obtain c e where d: "d = Dec False c e" and c: "nat g * c < 10 ^ 28"
    and e: "dec_Etiny \<le> e" "e \<le> dec_Etop"
    using assms(1) by (cases d) auto
  have "dec_mul (dec_of_int g) d = Inr (Dec False (nat g * c) e)"
    using assms(1) dec_fix_exact [OF c e] by (simp add: dec_of_int_def d)
  then have "scaled_down g d = Inr \<lfloor>dval (Dec False (nat g * c) e)\<rfloor>"
    unfolding scaled_down_def using dec_int_floor [of "nat g * c" e] by (simp del: dval.simps)
  also have "dval (Dec False (nat g * c) e) = of_int g * dval d"
    using assms(1) by (simp add: d signed_def)
  finally show ?thesis .
qed

lemma calculateE:
  assumes "calculate eng g tr = Inr sp"
  obtains fee where "0 \<le> g" "unit_rate (cs_rate sp)" "scaled_down g (cs_rate sp) = Inr fee"
    "sp = \<lparr>cs_rate = cs_rate sp, cs_gross_amount_cents = g, cs_platform_fee_cents = fee,
          cs_tenant_settlement_cents = g - fee\<rparr>"
  using assms
  by (auto simp: calculate_def res_bind_eq_Inr validate_rate_iff split: if_splits)

section \<open>Properties of the engine\<close>

lemma calculate_bounds:
  assumes "calculate eng g tr = Inr sp" and "g < 10 ^ 28"
  shows "cs_gross_amount_cents sp = g \<and>
    cs_platform_fee_cents sp + cs_tenant_settlement_cents sp = g \<and>
    0 \<le> cs_platform_fee_cents sp \<and> 0 \<le> cs_tenant_settlement_cents sp \<and>
    unit_rate (cs_rate sp)"
proof -
  from assms(1) obtain fee where g: "0 \<le> g" and u: "unit_rate (cs_rate sp)"
    and fee: "scaled_down g (cs_rate sp) = Inr fee"
    and sp: "sp = \<lparr>cs_rate = cs_rate sp, cs_gross_amount_cents = g, cs_platform_fee_cents = fee,
          cs_tenant_settlement_cents = g - fee\<rparr>" by (rule calculateE)
  obtain f where "scaled_down g (cs_rate sp) = Inr f" "0 \<le> f" "f \<le> g"
    using g assms(2) u by (rule scaled_down_bounds)
  with fee have "0 \<le> fee" "fee \<le> g" by auto
  with u show ?thesis by (subst (1 2 3 4 5) sp) simp
qed

text \<open>C5: A calculated split returns the gross amount unchanged and divides it exactly: fee and
  settlement add up to the gross amount and neither is negative, for every gross amount of at
  most 28 digits and every rate text, and the recorded rate lies between zero and one.\<close>

theorem calculate_split:
  assumes "calculate eng g tr = Inr sp" and "g < 10 ^ 28"
  shows "cs_gross_amount_cents sp = g \<and>
    cs_platform_fee_cents sp + cs_tenant_settlement_cents sp = g \<and>
    0 \<le> cs_platform_fee_cents sp \<and> 0 \<le> cs_tenant_settlement_cents sp \<and>
    unit_rate (cs_rate sp)"
  using assms by (rule calculate_bounds)

theorem calculate_split_witness:
  "\<exists>sp. calculate \<lparr>ce_default_rate = DEFAULT_COMMISSION_RATE\<rparr> 33333 (Some ''0.08'') = Inr sp \<and>
     cs_platform_fee_cents sp = 2666 \<and> cs_tenant_settlement_cents sp = 30667"
proof -
  let ?sp = "\<lparr>cs_rate = Dec False 8 (-2), cs_gross_amount_cents = 33333,
    cs_platform_fee_cents = 2666, cs_tenant_settlement_cents = 30667\<rparr>"
  have c: "calculate \<lparr>ce_default_rate = DEFAULT_COMMISSION_RATE\<rparr> 33333 (Some ''0.08'') = Inr ?sp"
    by code_simp
  from calculate_split [OF c] have "cs_platform_fee_cents ?sp + cs_tenant_settlement_cents ?sp = 33333"
    by simp
  with c show ?thesis by (intro exI [of _ ?sp]) simp
qed

text \<open>C6: The platform fee is the exact product of gross amount and rate rounded down, so the
  fraction of a cent goes to the tenant, whenever the product has at most 28 digits.\<close>

theorem calculate_fee_floor:
  assumes "calculate eng g tr = Inr sp" and "exact_factor g (cs_rate sp)"
  shows "cs_platform_fee_cents sp = \<lfloor>of_int g * dval (cs_rate sp)\<rfloor>"
proof -
  from assms(1) obtain fee where "0 \<le> g" "scaled_down g (cs_rate sp) = Inr fee"
    and sp: "sp = \<lparr>cs_rate = cs_rate sp, cs_gross_amount_cents = g, cs_platform_fee_cents = fee,
          cs_tenant_settlement_cents = g - fee\<rparr>" by (rule calculateE)
  with scaled_down_exact assms(2) have "fee = \<lfloor>of_int g * dval (cs_rate sp)\<rfloor>" by simp
  then show ?thesis by (subst sp) simp
qed

theorem calculate_fee_floor_witness:
  "calculate \<lparr>ce_default_rate = DEFAULT_COMMISSION_RATE\<rparr> 99 None =
     Inr \<lparr>cs_rate = Dec False 10 (-2), cs_gross_amount_cents = 99,
          cs_platform_fee_cents = 9, cs_tenant_settlement_cents = 90\<rparr> \<and>
   exact_factor 99 (Dec False 10 (-2)) \<and> (9::int) = \<lfloor>99 * dval (Dec False 10 (-2))\<rfloor>"
proof -
  have c: "calculate \<lparr>ce_default_rate = DEFAULT_COMMISSION_RATE\<rparr> 99 None =
     Inr \<lparr>cs_rate = Dec False 10 (-2), cs_gross_amount_cents = 99,
          cs_platform_fee_cents = 9, cs_tenant_settlement_cents = 90\<rparr>"
    by code_simp
  have e: "exact_factor 99 (Dec False 10 (-2))" by (simp add: dec_context)
  from calculate_fee_floor [OF c] e c show ?thesis by simp
qed

text \<open>The rate the engine applies, before it is validated.\<close>

definition chosen_rate :: "commission_engine \<Rightarrow> string option \<Rightarrow> decimal result" where
  "chosen_rate eng tr = (case tr of Some r \<Rightarrow> dec_of_str r | None \<Rightarrow> Inr (ce_default_rate eng))"

lemma calculate_total:
  assumes "0 \<le> g" "g < 10 ^ 28" "chosen_rate eng tr = Inr d" "unit_rate d"
  shows "\<exists>sp. calculate eng g tr = Inr sp \<and> cs_rate sp = d"
proof -
  obtain f where "scaled_down g d = Inr f" using assms(1,2,4) by (rule scaled_down_bounds)
  with assms show ?thesis
    using validate_rate_iff [of d] by (simp add: calculate_def chosen_rate_def)
qed

text \<open>The calculation fails only as documented: a negative amount raises ValueError before
  the rate is read, a rate text that is no number signals InvalidOperation, a finite rate
  outside zero to one raises ValueError, and every amount below 10^28 cents with a rate between
  zero and one gives a split.\<close>

theorem calculate_outcome:
  assumes "g < 10 ^ 28"
  shows "(g < 0 \<longrightarrow> calculate eng g tr = Inl ValueError) \<and>
    (0 \<le> g \<longrightarrow> chosen_rate eng tr = Inl x \<longrightarrow> calculate eng g tr = Inl x) \<and>
    (0 \<le> g \<longrightarrow> chosen_rate eng tr = Inr d \<longrightarrow> dec_finite d \<longrightarrow> \<not> unit_rate d \<longrightarrow>
       calculate eng g tr = Inl ValueError) \<and>
    (0 \<le> g \<longrightarrow> chosen_rate eng tr = Inr d \<longrightarrow> unit_rate d \<longrightarrow>
       (\<exists>sp. calculate eng g tr = Inr sp \<and> cs_rate sp = d))"
proof (intro conjI impI)
  assume "0 \<le> g" "chosen_rate eng tr = Inr d" "dec_finite d" "\<not> unit_rate d"
  moreover from this have "validate_rate d = Inl ValueError"
    by (auto simp: validate_rate_def unit_rate_def dec_lt_dval)
  ultimately show "calculate eng g tr = Inl ValueError"
    by (simp add: calculate_def chosen_rate_def)
next
  assume g: "0 \<le> g" and d: "chosen_rate eng tr = Inr d" and u: "unit_rate d"
  from calculate_total [OF g assms d u] show "\<exists>sp. calculate eng g tr = Inr sp \<and> cs_rate sp = d" .
qed (simp_all add: calculate_def chosen_rate_def)

theorem calculate_outcome_witness:
  "calculate \<lparr>ce_default_rate = DEFAULT_COMMISSION_RATE\<rparr> (-1) None = Inl ValueError \<and>
   calculate \<lparr>ce_default_rate = DEFAULT_COMMISSION_RATE\<rparr> 5 (Some ''ten'') = Inl InvalidOperation \<and>
   calculate \<lparr>ce_default_rate = DEFAULT_COMMISSION_RATE\<rparr> 5 (Some ''1.5'') = Inl ValueError"
proof -
  let ?e = "\<lparr>ce_default_rate = DEFAULT_COMMISSION_RATE\<rparr>"
  have r: "chosen_rate ?e (Some ''ten'') = Inl InvalidOperation" by code_simp
  have d: "chosen_rate ?e (Some ''1.5'') = Inr (Dec False 15 (-1))" by code_simp
  have u: "\<not> unit_rate (Dec False 15 (-1))" by (simp add: unit_rate_def signed_def)
  from calculate_outcome [of "-1" ?e None] have "calculate ?e (-1) None = Inl ValueError" by simp
  moreover from calculate_outcome [of 5 ?e "Some ''ten''"] r
  have "calculate ?e 5 (Some ''ten'') = Inl InvalidOperation" by simp
  moreover from calculate_outcome [of 5 ?e "Some ''1.5''" _ "Dec False 15 (-1)"] d u
  have "calculate ?e 5 (Some ''1.5'') = Inl ValueError" by simp
  ultimately show ?thesis by simp
qed

lemma rate_str_roundtrip:
  assumes "calculate eng g tr = Inr sp"
  shows "dec_of_str (rate_str sp) = Inr (cs_rate sp)"
proof -
  from assms have "unit_rate (cs_rate sp)" by (rule calculateE)
  then obtain s c e where "cs_rate sp = Dec s c e" by (rule unit_rate_cases)
  then show ?thesis by (simp add: rate_str_def dec_of_str_dec_str del: dec_str.simps)
qed

text \<open>The rate text that a settlement stores reads back as exactly the rate the fee was
  calculated with, coefficient and exponent included, so a later reversal starts from the same
  contract rate.\<close>

theorem settled_rate_roundtrip:
  assumes "calculate eng g tr = Inr sp"
  shows "rate_to_decimal (rate_str sp) = Inr (cs_rate sp)"
  using rate_str_roundtrip [OF assms] by (simp add: rate_to_decimal_def)

theorem settled_rate_roundtrip_witness:
  "\<exists>sp. calculate \<lparr>ce_default_rate = DEFAULT_COMMISSION_RATE\<rparr> 10000 (Some ''0.0800'') = Inr sp \<and>
     rate_str sp = ''0.0800'' \<and> rate_to_decimal (rate_str sp) = Inr (Dec False 800 (-4))"
proof -
  let ?sp = "\<lparr>cs_rate = Dec False 800 (-4), cs_gross_amount_cents = 10000,
    cs_platform_fee_cents = 800, cs_tenant_settlement_cents = 9200\<rparr>"
  have c: "calculate \<lparr>ce_default_rate = DEFAULT_COMMISSION_RATE\<rparr> 10000 (Some ''0.0800'') = Inr ?sp"
    by code_simp
  have "rate_str ?sp = ''0.0800''" by code_simp
  with c settled_rate_roundtrip [OF c] show ?thesis by (intro exI [of _ ?sp]) simp
qed

section \<open>Properties of reversals\<close>

definition balanced_split :: "commission_split \<Rightarrow> bool" where
  "balanced_split sp \<longleftrightarrow>
     0 \<le> cs_platform_fee_cents sp \<and> 0 \<le> cs_tenant_settlement_cents sp \<and>
     cs_platform_fee_cents sp + cs_tenant_settlement_cents sp = cs_gross_amount_cents sp"

lemma exact_factor_mono:
  assumes "exact_factor g d" and "0 \<le> h" and "h \<le> g"
  shows "exact_factor h d"
proof (cases d)
  case (Dec s c e)
  have "nat \<bar>h\<bar> * c \<le> nat \<bar>g\<bar> * c" using assms(2,3) by (intro mult_le_mono1) auto
  also have "\<dots> < 10 ^ 28" using assms(1) Dec by simp
  finally show ?thesis using assms(1) Dec by simp
qed (use assms(1) in auto)

lemma reverse_splitE:
  assumes "reverse_split sp fr = Inr r"
  obtains f where "dec_of_str fr = Inr f"
    "dec_le f (dec_of_int 0) = Inr False" "dec_lt (dec_of_int 1) f = Inr False"
    "scaled_down (cs_gross_amount_cents sp) f = Inr (cs_gross_amount_cents r)"
    "scaled_down (cs_platform_fee_cents sp) f = Inr (cs_platform_fee_cents r)"
    "cs_tenant_settlement_cents r = cs_gross_amount_cents r - cs_platform_fee_cents r"
    "cs_rate r = cs_rate sp"
  using assms by (auto simp: reverse_split_def res_bind_eq_Inr split: if_splits)

lemma floor_diff_bound:
  fixes a b :: rat and n :: int
  assumes "b \<le> a" and "a - b \<le> of_int n"
  shows "\<lfloor>b\<rfloor> \<le> \<lfloor>a\<rfloor>" and "\<lfloor>a\<rfloor> - \<lfloor>b\<rfloor> \<le> n"
  using assms by linarith+

text \<open>C23: Reversing a fraction of a balanced split never takes back more than was settled: the
  reversed amounts are balanced, not negative, and each is at most the settled one, when the
  products have at most 28 digits.\<close>

theorem reverse_within_settlement:
  assumes "balanced_split sp" and "reverse_split sp fr = Inr r"
    and "dec_of_str fr = Inr f" and "exact_factor (cs_gross_amount_cents sp) f"
  shows "balanced_split r \<and> cs_gross_amount_cents r \<le> cs_gross_amount_cents sp \<and>
    cs_platform_fee_cents r \<le> cs_platform_fee_cents sp \<and>
    cs_tenant_settlement_cents r \<le> cs_tenant_settlement_cents sp"
proof -
  let ?G = "cs_gross_amount_cents sp" and ?F = "cs_platform_fee_cents sp"
    and ?S = "cs_tenant_settlement_cents sp"
  from assms(1) have b: "0 \<le> ?F" "0 \<le> ?S" "?F + ?S = ?G" by (auto simp: balanced_split_def)
  from assms(2) obtain f' where f': "dec_of_str fr = Inr f'"
    and lo: "dec_le f' (dec_of_int 0) = Inr False" and hi: "dec_lt (dec_of_int 1) f' = Inr False"
    and G: "scaled_down ?G f' = Inr (cs_gross_amount_cents r)"
    and F: "scaled_down ?F f' = Inr (cs_platform_fee_cents r)"
    and S: "cs_tenant_settlement_cents r = cs_gross_amount_cents r - cs_platform_fee_cents r"
    by (rule reverse_splitE)
  from f' assms(3) have [simp]: "f' = f" by simp
  have "dec_finite f" using assms(4) by (cases f) auto
  with lo hi have v: "0 < dval f" "dval f \<le> 1" by (auto simp: dec_le_dval dec_lt_dval)
  have g: "cs_gross_amount_cents r = \<lfloor>of_int ?G * dval f\<rfloor>"
    and h: "cs_platform_fee_cents r = \<lfloor>of_int ?F * dval f\<rfloor>"
    using G F b scaled_down_exact [of ?G f] scaled_down_exact [of ?F f]
      exact_factor_mono [OF assms(4), of ?F] assms(4) by auto
  have FG: "of_int ?F * dval f \<le> of_int ?G * dval f"
    using b v by (intro mult_right_mono) auto
  have "of_int ?G * dval f - of_int ?F * dval f = of_int ?S * dval f"
    unfolding b(3) [symmetric] by (simp add: algebra_simps)
  also have "\<dots> \<le> of_int ?S" using b v mult_left_mono [of "dval f" 1 "of_int ?S"] by simp
  finally have "\<lfloor>of_int ?F * dval f\<rfloor> \<le> \<lfloor>of_int ?G * dval f\<rfloor>"
    and "\<lfloor>of_int ?G * dval f\<rfloor> - \<lfloor>of_int ?F * dval f\<rfloor> \<le> ?S"
    using floor_diff_bound [OF FG] by auto
  moreover have "0 \<le> \<lfloor>of_int ?F * dval f\<rfloor>" using b v by simp
  moreover have "\<lfloor>of_int ?F * dval f\<rfloor> \<le> ?F" "\<lfloor>of_int ?G * dval f\<rfloor> \<le> ?G"
    using b v mult_left_mono [of "dval f" 1 "of_int ?F"] mult_left_mono [of "dval f" 1 "of_int ?G"]
    by (simp_all add: floor_le_iff)
  ultimately show ?thesis by (simp add: balanced_split_def S g h)
qed

theorem reverse_within_settlement_witness:
  "\<exists>r. reverse_split \<lparr>cs_rate = Dec False 10 (-2), cs_gross_amount_cents = 33333,
      cs_platform_fee_cents = 3333, cs_tenant_settlement_cents = 30000\<rparr> ''0.5'' = Inr r \<and>
    cs_platform_fee_cents r = 1666 \<and> cs_tenant_settlement_cents r = 15000 \<and>
    cs_tenant_settlement_cents r \<le> 30000"
proof -
  let ?sp = "\<lparr>cs_rate = Dec False 10 (-2), cs_gross_amount_cents = 33333,
      cs_platform_fee_cents = 3333, cs_tenant_settlement_cents = 30000\<rparr>"
  let ?r = "\<lparr>cs_rate = Dec False 10 (-2), cs_gross_amount_cents = 16666,
      cs_platform_fee_cents = 1666, cs_tenant_settlement_cents = 15000\<rparr>"
  have b: "balanced_split ?sp" by (simp add: balanced_split_def)
  have r: "reverse_split ?sp ''0.5'' = Inr ?r" by code_simp
  have f: "dec_of_str ''0.5'' = Inr (Dec False 5 (-1))" by code_simp
  have "exact_factor (cs_gross_amount_cents ?sp) (Dec False 5 (-1))" by (simp add: dec_context)
  from reverse_within_settlement [OF b r f this] r show ?thesis by (intro exI [of _ ?r]) simp
qed

lemma reverse_one:
  assumes "balanced_split sp" and "cs_gross_amount_cents sp < 10 ^ 28"
  shows "reverse_split sp ''1'' = Inr sp"
proof -
  define one where "one = Dec False 1 0"
  have str: "dec_of_str ''1'' = Inr one" unfolding one_def by code_simp
  have cmp: "dec_le one (dec_of_int 0) = Inr False" "dec_lt (dec_of_int 1) one = Inr False"
    unfolding one_def by code_simp+
  from assms(1) have b: "0 \<le> cs_platform_fee_cents sp" "0 \<le> cs_tenant_settlement_cents sp"
    "cs_platform_fee_cents sp + cs_tenant_settlement_cents sp = cs_gross_amount_cents sp"
    by (auto simp: balanced_split_def)
  have id: "scaled_down g one = Inr g" if "0 \<le> g" "g < 10 ^ 28" for g
    using scaled_down_exact [of g one] that
    by (simp add: one_def dec_context signed_def nat_less_iff)
  from b assms(2) show ?thesis
    by (cases sp) (simp add: reverse_split_def str cmp id)
qed

text \<open>A chargeback reverses the whole settlement: with the fraction 1 the reversal of a
  balanced split of at most 28 digits is that split, to the cent.\<close>

theorem reverse_full:
  assumes "balanced_split sp" and "cs_gross_amount_cents sp < 10 ^ 28"
  shows "reverse_split sp ''1'' = Inr sp"
  using assms by (rule reverse_one)

theorem reverse_full_witness:
  "reverse_split \<lparr>cs_rate = Dec False 10 (-2), cs_gross_amount_cents = 50000,
      cs_platform_fee_cents = 5000, cs_tenant_settlement_cents = 45000\<rparr> ''1'' =
   Inr \<lparr>cs_rate = Dec False 10 (-2), cs_gross_amount_cents = 50000,
      cs_platform_fee_cents = 5000, cs_tenant_settlement_cents = 45000\<rparr>"
  by (rule reverse_full) (simp_all add: balanced_split_def)

section \<open>Properties of the ledger\<close>

definition balanced_entry :: "ledger_entry \<Rightarrow> bool" where
  "balanced_entry e \<longleftrightarrow>
     le_platform_fee_cents e + le_tenant_settlement_cents e = le_gross_amount_cents e"

definition ledger_balanced :: "commission_ledger \<Rightarrow> bool" where
  "ledger_balanced l \<longleftrightarrow> list_all balanced_entry (cl_entries l)"

text \<open>Constructing an entry and appending it; an unbalanced entry raises and leaves the ledger.\<close>

definition post_entry :: "ledger_entry \<Rightarrow> commission_ledger \<Rightarrow> commission_ledger" where
  "post_entry e l = (case LedgerEntry e of Inl _ \<Rightarrow> l | Inr e' \<Rightarrow> ledger_append e' l)"

interpretation ledger_log: append_log cl_entries ledger_append
  by unfold_locales (simp add: ledger_append_def)

lemma LedgerEntry_Inr: "LedgerEntry e = Inr e' \<longleftrightarrow> balanced_entry e \<and> e' = e"
  by (auto simp: LedgerEntry_def balanced_entry_def)

lemma ledger_balanced_append:
  "ledger_balanced (ledger_append e l) \<longleftrightarrow> ledger_balanced l \<and> balanced_entry e"
  by (simp add: ledger_balanced_def ledger_append_def)

interpretation ledger_machine: inv_machine post_entry ledger_balanced
    "\<lambda>l l'. \<exists>es. cl_entries l' = cl_entries l @ es"
proof unfold_locales
  fix l :: commission_ledger and e
  assume "ledger_balanced l"
  then show "ledger_balanced (post_entry e l)"
    by (auto simp: post_entry_def ledger_balanced_append LedgerEntry_Inr split: sum.split)
  show "\<exists>es. cl_entries (post_entry e l) = cl_entries l @ es"
    by (simp add: post_entry_def ledger_log.items_push split: sum.split)
qed auto

lemma balanced_totals:
  "list_all balanced_entry es \<Longrightarrow>
     sum_list (map le_gross_amount_cents es) =
     sum_list (map le_platform_fee_cents es) + sum_list (map le_tenant_settlement_cents es)"
  by (induction es) (auto simp: balanced_entry_def)

lemma ledger_view_balanced: "ledger_balanced l \<Longrightarrow> list_all balanced_entry (ledger_view t l)"
  by (auto simp: ledger_balanced_def ledger_view_def entries_for_tenant_def list_all_iff
      split: option.splits)

text \<open>Whatever entries are offered to the ledger, the daily reconciliation balances: for the
  whole ledger and for every tenant the gross total is the sum of the fee total and the
  settlement total, the fee total is what platform_fee_total reports, and no entry recorded
  earlier changes.\<close>

theorem ledger_reconciles:
  "\<exists>gross fee settlement later.
    daily_reconciliation_balance t (fold post_entry es empty_ledger) =
      [(''gross_cents'', gross), (''platform_fee_cents'', fee),
       (''tenant_settlement_cents'', settlement)] \<and>
    gross = fee + settlement \<and>
    platform_fee_total t (fold post_entry es empty_ledger) = fee \<and>
    cl_entries (fold post_entry (es @ fs) empty_ledger) =
      cl_entries (fold post_entry es empty_ledger) @ later"
proof -
  let ?l = "fold post_entry es empty_ledger"
  have inv: "ledger_balanced ?l"
    by (rule ledger_machine.inv_run) (simp add: ledger_balanced_def empty_ledger_def)
  from balanced_totals [OF ledger_view_balanced [OF inv]] ledger_machine.leq_run [OF inv]
  show ?thesis by (simp add: daily_reconciliation_balance_def platform_fee_total_def Let_def)
qed

end
