(* ===== verification/Py_Json.thy ===== *)
theory Py_Json
  imports Py_Text
begin

text \<open>
  Dynamically typed values and \<open>json.dumps(value, sort_keys=True, default=str)\<close> on them: the
  serialisation the audit log hashes. A value of a type JSON does not know is carried as its
  \<open>str\<close> text, which is what \<open>default=str\<close> serialises.
\<close>

datatype pyval =
    PNone
  | PBool bool
  | PInt int
  | PStr string
  | POther string
  | PList "pyval list"
  | PDict "(string \<times> pyval) list"

section \<open>Strings\<close>

definition hex_digit :: "nat \<Rightarrow> char" where
  "hex_digit n = (if n < 10 then char_of (48 + n) else char_of (87 + n))"

text \<open>The escapes of \<open>ensure_ascii\<close> output: everything outside the printable ASCII range.\<close>

definition json_char :: "char \<Rightarrow> string" where
  "json_char c =
     (let n = of_char c :: nat in
      if c = CHR 0x22 then [CHR 0x5C, c]
      else if c = CHR 0x5C then [CHR 0x5C, c]
      else if c = CHR 0x0A then [CHR 0x5C, CHR ''n'']
      else if c = CHR 0x0D then [CHR 0x5C, CHR ''r'']
      else if c = CHR 0x09 then [CHR 0x5C, CHR ''t'']
      else if c = CHR 0x0C then [CHR 0x5C, CHR ''f'']
      else if c = CHR 0x08 then [CHR 0x5C, CHR ''b'']
      else if 32 \<le> n \<and> n \<le> 126 then [c]
      else [CHR 0x5C, CHR ''u'', CHR ''0'', CHR ''0'', hex_digit (n div 16), hex_digit (n mod 16)])"

definition json_quote :: char where
  "json_quote = CHR 0x22"

definition json_string :: "string \<Rightarrow> string" where
  "json_string s = json_quote # concat (map json_char s) @ [json_quote]"

section \<open>Values\<close>

text \<open>Members in key order; the keys of a Python dict are distinct.\<close>

fun insert_member :: "(string \<times> 'a) \<Rightarrow> (string \<times> 'a) list \<Rightarrow> (string \<times> 'a) list" where
  "insert_member p [] = [p]"
| "insert_member p (q # qs) = (if fst p \<le> fst q then p # q # qs else q # insert_member p qs)"

definition sort_members :: "(string \<times> 'a) list \<Rightarrow> (string \<times> 'a) list" where
  "sort_members ps = foldr insert_member ps []"

lemma set_insert_member [simp]: "set (insert_member p qs) = insert p (set qs)"
  by (induction qs) auto

lemma set_sort_members [simp]: "set (sort_members ps) = set ps"
  by (induction ps) (simp_all add: sort_members_def)

lemma sorted_insert_member:
  "sorted (map fst qs) \<Longrightarrow> sorted (map fst (insert_member p qs))"
  by (induction qs) auto

lemma sorted_sort_members: "sorted (map fst (sort_members ps))"
  by (induction ps) (simp_all add: sort_members_def sorted_insert_member)

fun json_dumps :: "pyval \<Rightarrow> string"
  and json_members :: "(string \<times> pyval) list \<Rightarrow> (string \<times> string) list" where
  "json_dumps PNone = ''null''"
| "json_dumps (PBool b) = (if b then ''true'' else ''false'')"
| "json_dumps (PInt i) = str_of_int i"
| "json_dumps (PStr s) = json_string s"
| "json_dumps (POther s) = json_string s"
| "json_dumps (PList vs) = ''['' @ str_join '', '' (map json_dumps vs) @ '']''"
| "json_dumps (PDict ms) =
     ''{'' @ str_join '', '' (map (\<lambda>(k, t). json_string k @ '': '' @ t) (sort_members (json_members ms))) @ ''}''"
| "json_members [] = []"
| "json_members ((k, v) # ms) = (k, json_dumps v) # json_members ms"

lemma json_members_map: "json_members ms = map (\<lambda>(k, v). (k, json_dumps v)) ms"
  by (induction ms) auto

section \<open>Unique reading\<close>

text \<open>A reader for one escaped character, and the fact that escaping is uniquely readable.\<close>

definition hex_val :: "char \<Rightarrow> nat" where
  "hex_val c = (if of_char c < (58::nat) then of_char c - 48 else of_char c - 87)"

fun json_unchar :: "string \<Rightarrow> (char \<times> string) option" where
  "json_unchar (c # d # s) =
     (if c \<noteq> CHR 0x5C then Some (c, d # s)
      else if d = CHR ''n'' then Some (CHR 0x0A, s)
      else if d = CHR ''r'' then Some (CHR 0x0D, s)
      else if d = CHR ''t'' then Some (CHR 0x09, s)
      else if d = CHR ''f'' then Some (CHR 0x0C, s)
      else if d = CHR ''b'' then Some (CHR 0x08, s)
      else if d = CHR ''u'' then
        (case s of
           a # b # x # y # t \<Rightarrow> Some (char_of (16 * hex_val x + hex_val y), t)
         | _ \<Rightarrow> None)
      else Some (d, s))"
| "json_unchar [c] = Some (c, [])"
| "json_unchar [] = None"

lemma of_char_less: "(of_char c :: nat) < 256"
  using nat_of_char_less_256 [of c] by simp

lemma hex_val_digit: "n < 16 \<Longrightarrow> hex_val (hex_digit n) = n"
  by (simp add: hex_val_def hex_digit_def of_char_of)

lemma json_unchar_char: "json_unchar (json_char c @ s) = Some (c, s)"
proof -
  have "16 * hex_val (hex_digit (of_char c div 16)) + hex_val (hex_digit (of_char c mod 16)) = of_char c"
    using of_char_less [of c] by (simp add: hex_val_digit less_mult_imp_div_less)
  then show ?thesis
    by (cases s) (auto simp: json_char_def Let_def)
qed

lemma json_char_inject: "json_char c @ s = json_char d @ t \<longleftrightarrow> c = d \<and> s = t"
  using json_unchar_char by (metis option.inject prod.inject)

lemma json_char_no_quote: "json_char c = x # xs \<Longrightarrow> x \<noteq> json_quote"
  by (auto simp: json_char_def Let_def json_quote_def split: if_splits)

lemma json_char_nonempty: "json_char c \<noteq> []"
  by (simp add: json_char_def Let_def)

lemma json_body_inject:
  "concat (map json_char s) @ json_quote # r = concat (map json_char t) @ json_quote # r' \<Longrightarrow>
     s = t \<and> r = r'"
proof (induction s arbitrary: t)
  case Nil
  show ?case
  proof (cases t)
    case (Cons d t')
    with Nil show ?thesis using json_char_no_quote [of d] json_char_nonempty [of d]
      by (cases "json_char d") auto
  qed (use Nil in simp)
next
  case (Cons c s)
  show ?case
  proof (cases t)
    case Nil
    with Cons.prems show ?thesis using json_char_no_quote [of c] json_char_nonempty [of c]
      by (cases "json_char c") auto
  next
    case (Cons d t')
    with Cons.prems show ?thesis
      using Cons.IH [of t'] by (simp add: json_char_inject)
  qed
qed

lemma json_string_inject: "json_string s @ r = json_string t @ r' \<longleftrightarrow> s = t \<and> r = r'"
  by (auto simp: json_string_def dest: json_body_inject)

text \<open>A scanner that skips to the first delimiter outside every bracket and string. It passes
  over a whole value, so the text of a value followed by a delimiter determines where the value
  ends.\<close>

function scan :: "nat \<Rightarrow> string \<Rightarrow> string" and scan_str :: "nat \<Rightarrow> string \<Rightarrow> string" where
  "scan d [] = []"
| "scan d (c # s) =
     (if c = json_quote then scan_str d s
      else if c = CHR ''{'' \<or> c = CHR ''['' then scan (Suc d) s
      else if c = CHR ''}'' \<or> c = CHR '']'' then (if d = 0 then c # s else scan (d - 1) s)
      else if c = CHR '','' \<and> d = 0 then c # s
      else scan d s)"
| "scan_str d [] = []"
| "scan_str d (c # s) =
     (if c = json_quote then scan d s
      else if c = CHR 0x5C then scan_str d (tl s)
      else scan_str d s)"
  by pat_completeness auto
termination
  by (relation "measure (case_sum (\<lambda>(d, s). length s) (\<lambda>(d, s). length s))") auto

lemma quote_chars [simp]:
  "json_quote \<noteq> CHR ''{''" "json_quote \<noteq> CHR ''}''" "json_quote \<noteq> CHR ''[''"
  "json_quote \<noteq> CHR '']''" "json_quote \<noteq> CHR '',''" "json_quote \<noteq> CHR '' ''"
  "json_quote \<noteq> CHR '':''"
  by (simp_all add: json_quote_def)

lemmas quote_chars_sym [simp] = quote_chars [symmetric]

lemma scan_skip:
  "list_all (\<lambda>c. c \<notin> {json_quote, CHR ''{'', CHR ''['', CHR ''}'', CHR '']'', CHR '',''}) s \<Longrightarrow>
     scan d (s @ r) = scan d r"
  by (induction s) auto

lemma hex_digit_plain: "n < 16 \<Longrightarrow> hex_digit n \<noteq> CHR 0x5C \<and> hex_digit n \<noteq> CHR 0x22"
  by (auto simp: hex_digit_def of_char_of dest: arg_cong [of _ _ "of_char :: char \<Rightarrow> nat"])

lemma scan_str_char: "scan_str d (json_char c @ r) = scan_str d r"
proof -
  have "(of_char c :: nat) div 16 < 16" "(of_char c :: nat) mod 16 < 16"
    using of_char_less [of c] by (simp_all add: less_mult_imp_div_less)
  then show ?thesis
    using hex_digit_plain by (simp add: json_char_def Let_def json_quote_def)
qed

lemma scan_str_body: "scan_str d (concat (map json_char s) @ json_quote # r) = scan d r"
  by (induction s) (simp_all add: scan_str_char)

lemma scan_json_string: "scan d (json_string s @ r) = scan d r"
  by (simp add: json_string_def scan_str_body)

lemma digit_plain:
  "is_digit c \<Longrightarrow> c \<notin> {json_quote, CHR ''{'', CHR ''['', CHR ''}'', CHR '']'', CHR '',''}"
  by (auto simp: char_class_defs json_quote_def)

lemma scan_str_of_int: "scan d (str_of_int i @ r) = scan d r"
proof -
  have "list_all (\<lambda>c. c \<notin> {json_quote, CHR ''{'', CHR ''['', CHR ''}'', CHR '']'', CHR '',''})
      (str_of_nat n)" for n
    using str_of_nat_digits [of n] digit_plain by (fastforce simp: list_all_iff)
  from scan_skip [OF this] show ?thesis
    by (auto simp: str_of_int_def json_quote_def char_of_def)
qed

lemma scan_join:
  "(\<And>x r. x \<in> set xs \<Longrightarrow> scan (Suc d) (x @ r) = scan (Suc d) r) \<Longrightarrow>
     scan (Suc d) (str_join '', '' xs @ r) = scan (Suc d) r"
proof (induction xs rule: induct_list012)
  case (3 x y zs)
  then have "scan (Suc d) (x @ '', '' @ str_join '', '' (y # zs) @ r) =
      scan (Suc d) (str_join '', '' (y # zs) @ r)"
    by simp
  also have "\<dots> = scan (Suc d) r" using 3 by (intro "3.IH") auto
  finally show ?case by simp
qed auto

lemma scan_json: "scan d (json_dumps v @ r) = scan d r"
  and scan_json_members: "(k, t) \<in> set (json_members ms) \<Longrightarrow> scan d (t @ r) = scan d r"
proof (induction v and ms arbitrary: d r and k t d r rule: json_dumps_json_members.induct)
  case (6 vs)
  then have "scan (Suc d) (str_join '', '' (map json_dumps vs) @ '']'' @ r) =
      scan (Suc d) ('']'' @ r)" by (intro scan_join) auto
  then show ?case by simp
next
  case (7 ms)
  have "scan (Suc d) (str_join '', ''
      (map (\<lambda>(k, t). json_string k @ '': '' @ t) (sort_members (json_members ms))) @ ''}'' @ r) =
      scan (Suc d) (''}'' @ r)"
  proof (rule scan_join)
    fix x s
    assume "x \<in> set (map (\<lambda>(k, t). json_string k @ '': '' @ t) (sort_members (json_members ms)))"
    then obtain k t where x: "x = json_string k @ '': '' @ t" and "(k, t) \<in> set (json_members ms)"
      by auto
    with 7 have "scan (Suc d) (t @ s) = scan (Suc d) s" by blast
    then show "scan (Suc d) (x @ s) = scan (Suc d) s"
      by (simp add: x scan_json_string)
  qed
  then show ?case by simp
qed (auto simp: scan_json_string scan_str_of_int json_quote_def)

lemma json_prefix_free:
  "json_dumps v @ CHR '','' # r = json_dumps w @ CHR '','' # r' \<longleftrightarrow>
     json_dumps v = json_dumps w \<and> r = r'"
proof
  assume eq: "json_dumps v @ CHR '','' # r = json_dumps w @ CHR '','' # r'"
  from arg_cong [OF eq, of "scan 0"] have "r = r'" by (simp add: scan_json)
  with eq show "json_dumps v = json_dumps w \<and> r = r'" by simp
qed simp

section \<open>Text length\<close>

lemma length_str_join: "length (str_join sep xs) = sum_list (map length xs) + length sep * (length xs - 1)"
  by (induction sep xs rule: str_join.induct) auto

lemma sum_list_insert_member:
  "sum_list (map f (insert_member p qs)) = f p + (sum_list (map f qs) :: nat)"
  by (induction qs) auto

lemma sum_list_sort_members: "sum_list (map f (sort_members ps)) = (sum_list (map f ps) :: nat)"
  by (induction ps) (simp_all add: sort_members_def sum_list_insert_member)

lemma length_sort_members [simp]: "length (sort_members ps) = length ps"
  using sum_list_sort_members [of "\<lambda>_. 1" ps] by (simp add: sum_list_triv)

lemma length_json_dict:
  "length (json_dumps (PDict ms)) =
     2 + sum_list (map (\<lambda>(k, t). length (json_string k) + 2 + length t) (json_members ms)) + 2 * (length ms - 1)"
proof -
  have "sum_list (map (length \<circ> (\<lambda>(k, t). json_string k @ '': '' @ t)) ps) =
      sum_list (map (\<lambda>(k, t). length (json_string k) + 2 + length t) ps)" for ps :: "(string \<times> string) list"
    by (induction ps) auto
  from this [of "json_members ms"] show ?thesis
    by (simp add: length_str_join sum_list_sort_members json_members_map comp_assoc)
qed

text \<open>A dict with further members is serialised to a longer text.\<close>

lemma json_dict_grows: "length (json_dumps (PDict d)) < length (json_dumps (PDict (d @ p # ps)))"
  unfolding length_json_dict by (cases p) (simp add: json_members_map json_string_def)

end
