(* ===== verification/Audit_Log.thy ===== *)
theory Audit_Log
  imports Py_Json
begin

text \<open>
  The hash-chained audit log and its verifier: \<open>audit/audit_log.py\<close> and
  \<open>audit/chain_verifier.py\<close>, and the payment transaction log \<open>audit/transaction_log.py\<close>.
  SHA-256 is a parameter \<open>sha\<close> of every definition that hashes: the theorems hold for any
  function, and tamper evidence is stated as \<open>either the logs agree or a collision of \<open>sha\<close>
  is exhibited\<close>. Entry identifiers and timestamps, which the code draws from \<open>uuid4\<close> and the
  clock, are arguments.
\<close>

section \<open>Entries\<close>

record audit_entry =
  ae_entry_id :: string
  ae_timestamp :: string
  ae_actor :: string
  ae_event_type :: string
  ae_outcome :: string
  ae_transaction_ref :: string
  ae_correlation_id :: string
  ae_entity_type :: string
  ae_entity_id :: string
  ae_ip_address :: string
  ae_user_agent :: string
  ae_details :: "(string, pyval) dict"
  ae_previous_hash :: string

definition entry_asdict :: "audit_entry \<Rightarrow> pyval" where
  "entry_asdict e = PDict
     [(''entry_id'', PStr (ae_entry_id e)),
      (''timestamp'', PStr (ae_timestamp e)),
      (''actor'', PStr (ae_actor e)),
      (''event_type'', PStr (ae_event_type e)),
      (''outcome'', PStr (ae_outcome e)),
      (''transaction_ref'', PStr (ae_transaction_ref e)),
      (''correlation_id'', PStr (ae_correlation_id e)),
      (''entity_type'', PStr (ae_entity_type e)),
      (''entity_id'', PStr (ae_entity_id e)),
      (''ip_address'', PStr (ae_ip_address e)),
      (''user_agent'', PStr (ae_user_agent e)),
      (''details'', PDict (ae_details e)),
      (''previous_hash'', PStr (ae_previous_hash e))]"

text \<open>The text that is hashed.\<close>

definition entry_content :: "audit_entry \<Rightarrow> string" where
  "entry_content e = json_dumps (entry_asdict e)"

definition compute_hash :: "(string \<Rightarrow> string) \<Rightarrow> audit_entry \<Rightarrow> string" where
  "compute_hash sha e = sha (entry_content e)"

section \<open>The logger\<close>

record audit_logger =
  al_entries :: "audit_entry list"
  al_last_hash :: string

definition AuditLogger :: audit_logger where
  "AuditLogger = \<lparr>al_entries = [], al_last_hash = []\<rparr>"

text \<open>The arguments of one call of \<open>log\<close>, with the identifier and the time it draws.\<close>

record log_call =
  lc_entry_id :: string
  lc_timestamp :: string
  lc_actor :: string
  lc_event_type :: string
  lc_outcome :: string
  lc_transaction_ref :: string
  lc_correlation_id :: string
  lc_details :: "(string, pyval) dict option"

definition logged_entry :: "log_call \<Rightarrow> string \<Rightarrow> audit_entry" where
  "logged_entry c previous_hash =
     \<lparr>ae_entry_id = lc_entry_id c, ae_timestamp = lc_timestamp c,
      ae_actor = lc_actor c, ae_event_type = lc_event_type c, ae_outcome = lc_outcome c,
      ae_transaction_ref = lc_transaction_ref c, ae_correlation_id = lc_correlation_id c,
      ae_entity_type = [], ae_entity_id = [], ae_ip_address = [], ae_user_agent = [],
      ae_details = (case lc_details c of None \<Rightarrow> [] | Some d \<Rightarrow> d),
      ae_previous_hash = previous_hash\<rparr>"

definition audit_log :: "(string \<Rightarrow> string) \<Rightarrow> log_call \<Rightarrow> audit_logger \<Rightarrow> audit_logger" where
  "audit_log sha c l =
     (let entry = logged_entry c (al_last_hash l) in
      l\<lparr>al_entries := al_entries l @ [entry], al_last_hash := compute_hash sha entry\<rparr>)"

definition opt_filter :: "('e \<Rightarrow> string) \<Rightarrow> string option \<Rightarrow> 'e list \<Rightarrow> 'e list" where
  "opt_filter field wanted es =
     (case wanted of Some (c # cs) \<Rightarrow> filter (\<lambda>e. field e = c # cs) es | _ \<Rightarrow> es)"

definition get_entries ::
    "string option \<Rightarrow> string option \<Rightarrow> string option \<Rightarrow> audit_logger \<Rightarrow> audit_entry list" where
  "get_entries event_type actor transaction_ref l =
     opt_filter ae_transaction_ref transaction_ref
       (opt_filter ae_actor actor (opt_filter ae_event_type event_type (al_entries l)))"

fun links_hold :: "(string \<Rightarrow> string) \<Rightarrow> string \<Rightarrow> audit_entry list \<Rightarrow> bool" where
  "links_hold sha previous_hash [] = True"
| "links_hold sha previous_hash (e # es) =
     (if ae_previous_hash e \<noteq> previous_hash then False
      else links_hold sha (compute_hash sha e) es)"

definition verify_chain_integrity :: "(string \<Rightarrow> string) \<Rightarrow> audit_logger \<Rightarrow> bool" where
  "verify_chain_integrity sha l = links_hold sha [] (al_entries l)"

definition audit_entry_count :: "audit_logger \<Rightarrow> nat" where
  "audit_entry_count l = length (al_entries l)"

section \<open>The chain verifier\<close>

datatype verdict = VERDICT_INTACT | VERDICT_TAMPERED

record chain_report =
  cr_verdict :: verdict
  cr_verified_count :: nat
  cr_first_broken_index :: int
  cr_first_broken_entry_id :: string
  cr_reason :: string

definition is_intact :: "chain_report \<Rightarrow> bool" where
  "is_intact r \<longleftrightarrow> cr_verdict r = VERDICT_INTACT"

definition link_mismatch :: "nat \<Rightarrow> audit_entry \<Rightarrow> chain_report" where
  "link_mismatch index entry =
     \<lparr>cr_verdict = VERDICT_TAMPERED, cr_verified_count = index,
      cr_first_broken_index = int index, cr_first_broken_entry_id = ae_entry_id entry,
      cr_reason = ''previous_hash link mismatch''\<rparr>"

text \<open>The loop over the entries: the report of the first broken link, or the last hash.\<close>

fun verify_links ::
    "(string \<Rightarrow> string) \<Rightarrow> nat \<Rightarrow> string \<Rightarrow> audit_entry list \<Rightarrow> chain_report + string" where
  "verify_links sha index previous_hash [] = Inr previous_hash"
| "verify_links sha index previous_hash (e # es) =
     (if ae_previous_hash e \<noteq> previous_hash then Inl (link_mismatch index e)
      else verify_links sha (Suc index) (compute_hash sha e) es)"

definition verify_chain :: "(string \<Rightarrow> string) \<Rightarrow> audit_entry list \<Rightarrow> string \<Rightarrow> chain_report" where
  "verify_chain sha entries expected_head_hash =
     (case verify_links sha 0 [] entries of
        Inl report \<Rightarrow> report
      | Inr previous_hash \<Rightarrow>
          if expected_head_hash \<noteq> [] \<and> entries \<noteq> [] \<and> previous_hash \<noteq> expected_head_hash
          then \<lparr>cr_verdict = VERDICT_TAMPERED, cr_verified_count = length entries,
                cr_first_broken_index = int (length entries) - 1,
                cr_first_broken_entry_id = ae_entry_id (last entries),
                cr_reason = ''head hash mismatch (terminal entry modified)''\<rparr>
          else \<lparr>cr_verdict = VERDICT_INTACT, cr_verified_count = length entries,
                cr_first_broken_index = -1, cr_first_broken_entry_id = [], cr_reason = []\<rparr>)"

section \<open>The transaction log\<close>

datatype transaction_event_type =
    INTENT_CREATED | INTENT_CONFIRMED | INTENT_FAILED | INTENT_CANCELLED | WEBHOOK_RECEIVED
  | REFUND_INITIATED | REFUND_COMPLETED | DISPUTE_OPENED | DISPUTE_RESOLVED

record transaction_log_entry =
  tl_event_id :: string
  tl_event_type :: transaction_event_type
  tl_payment_intent_id :: string
  tl_order_id :: string
  tl_amount_cents :: int
  tl_currency :: string
  tl_outcome :: string
  tl_actor :: string
  tl_timestamp :: string
  tl_correlation_id :: string
  tl_error_code :: "string option"

type_synonym transaction_logger = "transaction_log_entry list"

definition log_event :: "transaction_log_entry \<Rightarrow> transaction_logger \<Rightarrow> transaction_logger" where
  "log_event e l = l @ [e]"

definition get_by_payment_intent :: "string \<Rightarrow> transaction_logger \<Rightarrow> transaction_log_entry list" where
  "get_by_payment_intent payment_intent_id l =
     filter (\<lambda>e. tl_payment_intent_id e = payment_intent_id) l"

definition transactions_by_order :: "string \<Rightarrow> transaction_logger \<Rightarrow> transaction_log_entry list" where
  "transactions_by_order order_id l = filter (\<lambda>e. tl_order_id e = order_id) l"

definition get_failures :: "transaction_logger \<Rightarrow> transaction_log_entry list" where
  "get_failures l = filter (\<lambda>e. tl_outcome e = ''failure'') l"

interpretation transaction_log: append_log "\<lambda>l. l" log_event
  by unfold_locales (simp add: log_event_def)

section \<open>Chains\<close>

text \<open>The hash a list of entries ends with, from a given start.\<close>

fun chain_head :: "(string \<Rightarrow> string) \<Rightarrow> string \<Rightarrow> audit_entry list \<Rightarrow> string" where
  "chain_head sha h [] = h"
| "chain_head sha h (e # es) = chain_head sha (compute_hash sha e) es"

lemma chain_head_snoc [simp]: "chain_head sha h (es @ [e]) = compute_hash sha e"
  by (induction es arbitrary: h) auto

lemma links_hold_append:
  "links_hold sha h (es @ fs) \<longleftrightarrow> links_hold sha h es \<and> links_hold sha (chain_head sha h es) fs"
  by (induction es arbitrary: h) auto

lemma verify_links_Inr:
  "verify_links sha i h es = Inr h' \<longleftrightarrow> links_hold sha h es \<and> h' = chain_head sha h es"
  by (induction es arbitrary: i h) auto

lemma verify_links_Inl:
  "verify_links sha i h es = Inl r \<longleftrightarrow>
     (\<exists>j < length es. r = link_mismatch (i + j) (es ! j) \<and> links_hold sha h (take j es) \<and>
        ae_previous_hash (es ! j) \<noteq> chain_head sha h (take j es))"
proof (induction es arbitrary: i h)
  case Nil
  then show ?case by simp
next
  case (Cons e es)
  then show ?case by (auto simp: Ex_less_Suc2)
qed

lemma links_hold_nth:
  assumes "links_hold sha h es" "i < length es"
  shows "ae_previous_hash (es ! i) = chain_head sha h (take i es)"
proof -
  have "links_hold sha h (take i es @ es ! i # drop (Suc i) es)"
    using assms by (simp add: id_take_nth_drop [symmetric])
  then show ?thesis by (simp add: links_hold_append split: if_splits)
qed

text \<open>The invariant of the logger: its chain holds and its last hash is the chain's head.\<close>

definition logger_ok :: "(string \<Rightarrow> string) \<Rightarrow> audit_logger \<Rightarrow> bool" where
  "logger_ok sha l \<longleftrightarrow>
     links_hold sha [] (al_entries l) \<and> al_last_hash l = chain_head sha [] (al_entries l)"

lemma logger_ok_init [simp]: "logger_ok sha AuditLogger"
  by (simp add: logger_ok_def AuditLogger_def)

lemma logger_ok_log: "logger_ok sha l \<Longrightarrow> logger_ok sha (audit_log sha c l)"
  by (simp add: logger_ok_def audit_log_def Let_def links_hold_append logged_entry_def)

lemma al_entries_log:
  "al_entries (audit_log sha c l) = al_entries l @ [logged_entry c (al_last_hash l)]"
  by (simp add: audit_log_def Let_def)

definition log_extends :: "audit_logger \<Rightarrow> audit_logger \<Rightarrow> bool" where
  "log_extends l l' \<longleftrightarrow> (\<exists>es. al_entries l' = al_entries l @ es)"

lemma log_extends_refl [simp]: "log_extends l l"
  by (simp add: log_extends_def)

lemma log_extends_trans: "log_extends l m \<Longrightarrow> log_extends m n \<Longrightarrow> log_extends l n"
  by (auto simp: log_extends_def)

lemma log_extends_log [simp]: "log_extends l (audit_log sha c l)"
  by (simp add: log_extends_def al_entries_log)

interpretation audit_machine: inv_machine "audit_log sha" "logger_ok sha" log_extends for sha
  by unfold_locales (auto intro: logger_ok_log log_extends_trans)

section \<open>Properties\<close>

lemma verify_chain_intact_iff:
  "is_intact (verify_chain sha es h) \<longleftrightarrow>
     links_hold sha [] es \<and> (h = [] \<or> es = [] \<or> chain_head sha [] es = h)"
proof (cases "verify_links sha 0 [] es")
  case (Inl r)
  then have "\<not> links_hold sha [] es" using verify_links_Inr by (metis sum.distinct(1))
  moreover from Inl have "cr_verdict r = VERDICT_TAMPERED"
    by (auto simp: verify_links_Inl link_mismatch_def)
  ultimately show ?thesis using Inl by (simp add: verify_chain_def is_intact_def)
next
  case (Inr h')
  then have "links_hold sha [] es" and "h' = chain_head sha [] es" by (simp_all add: verify_links_Inr)
  then show ?thesis by (auto simp: verify_chain_def is_intact_def Inr)
qed

text \<open>Whatever is logged, the log stays verifiable: after any sequence of log calls on a new
  logger its own integrity check passes, the chain verifier reports it intact with all entries
  counted, also against the last hash as checkpoint, and logging more never changes or drops an
  entry already written.\<close>

theorem logging_keeps_chain:
  "verify_chain_integrity sha (fold (audit_log sha) cs AuditLogger) \<and>
   is_intact (verify_chain sha (al_entries (fold (audit_log sha) cs AuditLogger))
     (al_last_hash (fold (audit_log sha) cs AuditLogger))) \<and>
   audit_entry_count (fold (audit_log sha) cs AuditLogger) = length cs \<and>
   log_extends (fold (audit_log sha) cs AuditLogger) (fold (audit_log sha) (cs @ ds) AuditLogger)"
proof -
  let ?l = "fold (audit_log sha) cs AuditLogger"
  have ok: "logger_ok sha ?l" by (rule audit_machine.inv_run) simp
  have "length (al_entries (fold (audit_log sha) cs l)) = length (al_entries l) + length cs" for l
    by (induction cs arbitrary: l) (simp_all add: al_entries_log)
  then have "audit_entry_count ?l = length cs"
    by (simp add: audit_entry_count_def AuditLogger_def)
  with ok audit_machine.leq_run [OF ok] show ?thesis
    by (auto simp: verify_chain_integrity_def verify_chain_intact_iff logger_ok_def)
qed

text \<open>C19: The two verifiers agree, and the chain verifier localises the damage: without a
  checkpoint its verdict is that of the logger's own check, and when a link is broken the
  reported index is the first position whose previous_hash differs from the hash of the entries
  before it, all links before it being sound.\<close>

theorem verifier_localises:
  "(is_intact (verify_chain sha es []) \<longleftrightarrow>
      verify_chain_integrity sha \<lparr>al_entries = es, al_last_hash = h\<rparr>) \<and>
   (\<not> links_hold sha [] es \<longleftrightarrow>
      (\<exists>i < length es. verify_chain sha es k = link_mismatch i (es ! i) \<and>
         links_hold sha [] (take i es) \<and>
         ae_previous_hash (es ! i) \<noteq> chain_head sha [] (take i es)))"
proof
  show "is_intact (verify_chain sha es []) \<longleftrightarrow>
      verify_chain_integrity sha \<lparr>al_entries = es, al_last_hash = h\<rparr>"
    by (simp add: verify_chain_intact_iff verify_chain_integrity_def)
  show "\<not> links_hold sha [] es \<longleftrightarrow>
      (\<exists>i < length es. verify_chain sha es k = link_mismatch i (es ! i) \<and>
         links_hold sha [] (take i es) \<and>
         ae_previous_hash (es ! i) \<noteq> chain_head sha [] (take i es))"
  proof (cases "verify_links sha 0 [] es")
    case (Inl r)
    moreover from Inl have "\<not> links_hold sha [] es"
      using verify_links_Inr by (metis sum.distinct(1))
    ultimately show ?thesis using verify_links_Inl [of sha 0 "[]" es r]
      by (auto simp: verify_chain_def)
  next
    case (Inr h')
    then have "links_hold sha [] es" by (simp add: verify_links_Inr)
    then show ?thesis using links_hold_nth by metis
  qed
qed

text \<open>The hashed text determines every field of an entry; of the details it determines the JSON
  text, in which dict order and the types that print alike are not distinguished.\<close>

definition same_record :: "audit_entry \<Rightarrow> audit_entry \<Rightarrow> bool" where
  "same_record e f \<longleftrightarrow>
     e\<lparr>ae_details := []\<rparr> = f\<lparr>ae_details := []\<rparr> \<and>
     json_dumps (PDict (ae_details e)) = json_dumps (PDict (ae_details f))"

lemma json_dumps_dict: "json_dumps (PDict ms) =
     ''{'' @ str_join '', '' (map (\<lambda>(k, t). json_string k @ '': '' @ t) (sort_members (json_members ms))) @ ''}''"
  by simp

lemma entry_content_text:
  "entry_content e =
     ''{'' @ json_string ''actor'' @ '': '' @ json_string (ae_actor e) @
     '', '' @ json_string ''correlation_id'' @ '': '' @ json_string (ae_correlation_id e) @
     '', '' @ json_string ''details'' @ '': '' @ json_dumps (PDict (ae_details e)) @
     '', '' @ json_string ''entity_id'' @ '': '' @ json_string (ae_entity_id e) @
     '', '' @ json_string ''entity_type'' @ '': '' @ json_string (ae_entity_type e) @
     '', '' @ json_string ''entry_id'' @ '': '' @ json_string (ae_entry_id e) @
     '', '' @ json_string ''event_type'' @ '': '' @ json_string (ae_event_type e) @
     '', '' @ json_string ''ip_address'' @ '': '' @ json_string (ae_ip_address e) @
     '', '' @ json_string ''outcome'' @ '': '' @ json_string (ae_outcome e) @
     '', '' @ json_string ''previous_hash'' @ '': '' @ json_string (ae_previous_hash e) @
     '', '' @ json_string ''timestamp'' @ '': '' @ json_string (ae_timestamp e) @
     '', '' @ json_string ''transaction_ref'' @ '': '' @ json_string (ae_transaction_ref e) @
     '', '' @ json_string ''user_agent'' @ '': '' @ json_string (ae_user_agent e) @ ''}''"
  unfolding entry_content_def entry_asdict_def json_dumps_dict [of "_ # _"]
  by (simp add: sort_members_def del: json_dumps.simps(7))

lemma json_string_eq: "json_string s = json_string t \<longleftrightarrow> s = t"
  using json_string_inject [of s "[]" t "[]"] by simp

lemma entry_content_inject:
  assumes "entry_content e = entry_content f"
  shows "same_record e f"
  using assms unfolding entry_content_text same_record_def
  by (simp add: json_string_inject json_string_eq
      json_prefix_free [of "PDict d" for d, simplified json_dumps_dict [symmetric]]
      audit_entry.equality del: json_dumps.simps(7))

text \<open>Two chains with the same head: going back from the last entry, either the records agree or
  two different contents have the same hash.\<close>

lemma chain_head_determines:
  assumes "\<And>m. sha m \<noteq> []"
    and "links_hold sha [] es" "links_hold sha [] fs"
    and "chain_head sha [] es = chain_head sha [] fs"
  shows "list_all2 same_record es fs \<or>
    (\<exists>e \<in> set es. \<exists>f \<in> set fs. entry_content e \<noteq> entry_content f \<and>
       sha (entry_content e) = sha (entry_content f))"
  using assms(2-4)
proof (induction es arbitrary: fs rule: rev_induct)
  case Nil
  then show ?case
    using assms(1) by (cases fs rule: rev_cases) (auto simp: compute_hash_def dest: sym)
next
  case (snoc e es)
  show ?case
  proof (cases fs rule: rev_cases)
    case Nil
    with snoc.prems assms(1) show ?thesis by (auto simp: compute_hash_def)
  next
    case (snoc fs' f)
    with snoc.prems have h: "sha (entry_content e) = sha (entry_content f)"
      and l: "links_hold sha [] es" "links_hold sha [] fs'"
      and p: "ae_previous_hash e = chain_head sha [] es" "ae_previous_hash f = chain_head sha [] fs'"
      by (auto simp: compute_hash_def links_hold_append split: if_splits)
    show ?thesis
    proof (cases "entry_content e = entry_content f")
      case True
      then have r: "same_record e f" by (rule entry_content_inject)
      then have "ae_previous_hash e = ae_previous_hash f"
        by (auto simp: same_record_def dest: arg_cong [of _ _ ae_previous_hash])
      with p have "chain_head sha [] es = chain_head sha [] fs'" by simp
      from snoc.IH [OF l this] r snoc show ?thesis by (auto intro: list_all2_appendI)
    qed (use h snoc in auto)
  qed
qed

text \<open>C10: Tamper evidence against a checkpoint. When two non-empty logs are both reported intact
  against the same checkpointed head hash, they hold the same records in the same order, in every
  field, the details up to their JSON text with sorted keys, or a collision of the hash function between two of their entries is exhibited. No
  assumption on the hash function beyond never returning the empty string.\<close>

theorem checkpoint_determines_log:
  assumes "\<And>m. sha m \<noteq> []"
    and "is_intact (verify_chain sha es h)" "is_intact (verify_chain sha fs h)"
    and "h \<noteq> []" "es \<noteq> []" "fs \<noteq> []"
  shows "list_all2 same_record es fs \<or>
    (\<exists>e \<in> set es. \<exists>f \<in> set fs. entry_content e \<noteq> entry_content f \<and>
       sha (entry_content e) = sha (entry_content f))"
  using assms by (intro chain_head_determines) (auto simp: verify_chain_intact_iff)

definition sample_call :: "string \<Rightarrow> log_call" where
  "sample_call i =
     \<lparr>lc_entry_id = i, lc_timestamp = ''2026-01-01T00:00:00+00:00'', lc_actor = ''system'',
      lc_event_type = ''order.created'', lc_outcome = ''success'', lc_transaction_ref = [],
      lc_correlation_id = [], lc_details = Some [(''amount'', PInt 5)]\<rparr>"

definition sample_sha :: "string \<Rightarrow> string" where
  "sample_sha m = str_of_nat (length m)"

definition sample_log :: audit_logger where
  "sample_log = fold (audit_log sample_sha) [sample_call ''a'', sample_call ''b''] AuditLogger"

lemma sample_sha_nonempty: "sample_sha m \<noteq> []"
  by (simp add: sample_sha_def)

lemma sample_log_intact: "is_intact (verify_chain sample_sha (al_entries sample_log) (al_last_hash sample_log))"
  by code_simp

theorem checkpoint_determines_log_witness:
  "al_entries sample_log \<noteq> [] \<and>
   (list_all2 same_record (al_entries sample_log) (al_entries sample_log) \<or>
    (\<exists>e \<in> set (al_entries sample_log). \<exists>f \<in> set (al_entries sample_log).
       entry_content e \<noteq> entry_content f \<and>
       sample_sha (entry_content e) = sample_sha (entry_content f)))"
proof -
  have "al_last_hash sample_log \<noteq> []" "al_entries sample_log \<noteq> []" by code_simp+
  with checkpoint_determines_log [OF sample_sha_nonempty sample_log_intact sample_log_intact]
  show ?thesis by blast
qed

text \<open>An edited entry is located exactly. In an intact log replace one entry by one that
  keeps the link backwards but hashes differently. Then the verifier reports a broken link at
  the following entry; when the edited entry is the last one there is no successor, and the edit
  is reported, as a head mismatch, exactly when a checkpoint was supplied that differs from the
  new hash.\<close>

theorem edit_located:
  assumes "links_hold sha [] es" "i < length es"
    and "ae_previous_hash e' = ae_previous_hash (es ! i)"
    and "compute_hash sha e' \<noteq> compute_hash sha (es ! i)"
  shows "if Suc i < length es
    then verify_chain sha (es[i := e']) h = link_mismatch (Suc i) (es ! Suc i)
    else (is_intact (verify_chain sha (es[i := e']) h) \<longleftrightarrow> h = [] \<or> h = compute_hash sha e')"
proof -
  define fs where "fs = es[i := e']"
  have take_i: "take i fs = take i es" and len: "length fs = length es" and nth: "fs ! i = e'"
    using assms(2) by (simp_all add: fs_def)
  have "links_hold sha [] (take i es)"
    using assms(1) links_hold_append [of sha "[]" "take i es" "drop i es"] by simp
  with assms(2,3) links_hold_nth [OF assms(1,2)] take_i nth len
  have pre: "links_hold sha [] (take (Suc i) fs)"
    and head: "chain_head sha [] (take (Suc i) fs) = compute_hash sha e'"
    by (simp_all add: take_Suc_conv_app_nth links_hold_append)
  show ?thesis
  proof (cases "Suc i < length es")
    case True
    have "ae_previous_hash (es ! Suc i) = compute_hash sha (es ! i)"
      using links_hold_nth [OF assms(1) True] assms(2) by (simp add: take_Suc_conv_app_nth)
    moreover have "fs ! Suc i = es ! Suc i" by (simp add: fs_def)
    ultimately have "verify_links sha 0 [] fs = Inl (link_mismatch (Suc i) (es ! Suc i))"
      using True pre head assms(4) len unfolding verify_links_Inl
      by (intro exI [of _ "Suc i"]) auto
    with True show ?thesis by (simp add: verify_chain_def fs_def)
  next
    case False
    with assms(2) len have "take (Suc i) fs = fs" "fs \<noteq> []" by auto
    with pre head False show ?thesis
      by (auto simp: verify_chain_intact_iff fs_def [symmetric])
  qed
qed

theorem edit_located_witness:
  "verify_chain sample_sha
     ((al_entries sample_log)[0 := (al_entries sample_log ! 0)\<lparr>ae_actor := ''mallory''\<rparr>]) [] =
   link_mismatch 1 (al_entries sample_log ! 1)"
proof -
  let ?es = "al_entries sample_log" and ?e = "(al_entries sample_log ! 0)\<lparr>ae_actor := ''mallory''\<rparr>"
  have "links_hold sample_sha [] ?es" "0 < length ?es" "Suc 0 < length ?es"
    "ae_previous_hash ?e = ae_previous_hash (?es ! 0)"
    "compute_hash sample_sha ?e \<noteq> compute_hash sample_sha (?es ! 0)" by code_simp+
  with edit_located [of sample_sha ?es 0 ?e "[]"] show ?thesis by simp
qed

text \<open>What a checkpoint does not protect: a log whose entries were all removed is reported
  intact whatever head hash is expected.\<close>

theorem emptied_log_passes: "is_intact (verify_chain sha [] h)"
  by (simp add: verify_chain_intact_iff)

end
