(* ===== verification/Tenancy.thy ===== *)
theory Tenancy
  imports Py_Json
begin

text \<open>
  Tenants, their registry and the request middleware: \<open>tenancy/tenant.py\<close>,
  \<open>tenancy/registry.py\<close>, \<open>tenancy/middleware.py\<close>. The UUID parser of the Python library, which
  turns a tenant identifier into the name of its database schema, is modelled because the schema
  name is interpolated into SQL. The generated UUIDs are arguments. The context variable of the
  current tenant is a field of the request state.
\<close>

section \<open>UUIDs\<close>

text \<open>\<open>int(s, 16)\<close> for text without a minus sign: surrounding white space, a plus sign, a
  \<open>0x\<close> prefix and single underscores between digits are accepted.\<close>

definition is_hex :: "char \<Rightarrow> bool" where
  "is_hex c \<longleftrightarrow> is_digit c \<or> in_range 65 70 c \<or> in_range 97 102 c"

definition hex_digit_val :: "char \<Rightarrow> nat" where
  "hex_digit_val c =
     (if is_digit c then of_char c - 48 else if in_range 65 70 c then of_char c - 55 else of_char c - 87)"

fun hex_groups :: "string \<Rightarrow> bool" where
  "hex_groups [] = False"
| "hex_groups [c] = is_hex c"
| "hex_groups (c # d # s) =
     (is_hex c \<and> (if d = CHR ''_'' then hex_groups s else hex_groups (d # s)))"

definition hex_number :: "string \<Rightarrow> nat" where
  "hex_number s = foldl (\<lambda>n c. 16 * n + hex_digit_val c) 0 (filter (\<lambda>c. c \<noteq> CHR ''_'') s)"

definition drop_sign :: "string \<Rightarrow> string" where
  "drop_sign s = (if take 1 s = ''+'' then tl s else s)"

definition drop_hex_prefix :: "string \<Rightarrow> string" where
  "drop_hex_prefix s =
     (if take 2 s = ''0x'' \<or> take 2 s = ''0X'' then
        (if take 1 (drop 2 s) = ''_'' then drop 3 s else drop 2 s)
      else s)"

definition int_base16 :: "string \<Rightarrow> nat result" where
  "int_base16 s =
     (let digits = drop_hex_prefix (drop_sign (str_strip s)) in
      if hex_groups digits then Inr (hex_number digits) else Inl ValueError)"

text \<open>\<open>uuid.UUID(s)\<close> as the 128-bit number it denotes.\<close>

definition uuid_text :: "string \<Rightarrow> string" where
  "uuid_text s =
     str_replace ''-'' [] (str_strip_if (\<lambda>c. c = CHR ''{'' \<or> c = CHR ''}'')
       (str_replace ''uuid:'' [] (str_replace ''urn:'' [] s)))"

definition uuid_of_str :: "string \<Rightarrow> nat result" where
  "uuid_of_str s =
     (if length (uuid_text s) \<noteq> 32 then Inl ValueError else int_base16 (uuid_text s))"

fun hex_of :: "nat \<Rightarrow> nat \<Rightarrow> string" where
  "hex_of 0 n = []"
| "hex_of (Suc k) n = hex_of k (n div 16) @ [hex_digit (n mod 16)]"

definition uuid_hex :: "nat \<Rightarrow> string" where
  "uuid_hex n = hex_of 32 n"

text \<open>\<open>str(uuid)\<close>: the grouped form that \<open>str(uuid.uuid4())\<close> stores.\<close>

definition uuid_str :: "nat \<Rightarrow> string" where
  "uuid_str n =
     (let h = uuid_hex n in
      take 8 h @ ''-'' @ take 4 (drop 8 h) @ ''-'' @ take 4 (drop 12 h) @ ''-'' @
      take 4 (drop 16 h) @ ''-'' @ drop 20 h)"

section \<open>Tenants\<close>

definition TENANT_HEADER :: string where
  "TENANT_HEADER = ''X-JOL-Tenant-ID''"

definition DEFAULT_TENANT_RATE :: string where
  "DEFAULT_TENANT_RATE = ''0.10''"

datatype tenant_vertical = FAITH_COMMUNITY | FUNERAL_HOME | CEMETERY_CARE

definition TenantVertical :: "string \<Rightarrow> tenant_vertical result" where
  "TenantVertical s =
     (if s = ''faith_community'' then Inr FAITH_COMMUNITY
      else if s = ''funeral_home'' then Inr FUNERAL_HOME
      else if s = ''cemetery_care'' then Inr CEMETERY_CARE
      else Inl ValueError)"

record tenant =
  tn_tenant_id :: string
  tn_slug :: string
  tn_name :: string
  tn_vertical :: tenant_vertical
  tn_commission_rate :: string
  tn_branch_id :: string
  tn_is_active :: bool

definition schema_name :: "tenant \<Rightarrow> string result" where
  "schema_name t = res_bind (uuid_of_str (tn_tenant_id t)) (\<lambda>n. Inr (''tenant_'' @ uuid_hex n))"

datatype resolved_from = Subdomain | Header

record tenant_context =
  tc_tenant :: tenant
  tc_resolved_from :: resolved_from

section \<open>The registry\<close>

record tenant_registry =
  tr_by_id :: "(string, tenant) dict"
  tr_by_slug :: "(string, tenant) dict"

definition TenantRegistry :: tenant_registry where
  "TenantRegistry = \<lparr>tr_by_id = [], tr_by_slug = []\<rparr>"

definition register_tenant :: "tenant \<Rightarrow> (tenant_registry, tenant) op" where
  "register_tenant t r =
     (if dict_has (tr_by_id r) (tn_tenant_id t) then (Inl ValueError, r)
      else if dict_has (tr_by_slug r) (tn_slug t) then (Inl ValueError, r)
      else (Inr t, r\<lparr>tr_by_id := dict_set (tn_tenant_id t) t (tr_by_id r),
                     tr_by_slug := dict_set (tn_slug t) t (tr_by_slug r)\<rparr>))"

definition get_by_id :: "tenant_registry \<Rightarrow> string \<Rightarrow> tenant result" where
  "get_by_id r tenant_id =
     (case dict_get (tr_by_id r) tenant_id of None \<Rightarrow> Inl TenantNotFoundError | Some t \<Rightarrow> Inr t)"

definition get_by_slug :: "tenant_registry \<Rightarrow> string \<Rightarrow> tenant result" where
  "get_by_slug r slug =
     (case dict_get (tr_by_slug r) slug of None \<Rightarrow> Inl TenantNotFoundError | Some t \<Rightarrow> Inr t)"

definition new_tenant ::
    "nat \<Rightarrow> string \<Rightarrow> string \<Rightarrow> string \<Rightarrow> string option \<Rightarrow> string \<Rightarrow> (tenant_registry, tenant) op" where
  "new_tenant uuid4 slug name vertical commission_rate branch_id r =
     (case TenantVertical vertical of
        Inl e \<Rightarrow> (Inl e, r)
      | Inr v \<Rightarrow>
          register_tenant
            \<lparr>tn_tenant_id = uuid_str uuid4, tn_slug = slug, tn_name = name, tn_vertical = v,
             tn_commission_rate = (case commission_rate of None \<Rightarrow> DEFAULT_TENANT_RATE | Some c \<Rightarrow> c),
             tn_branch_id = branch_id, tn_is_active = True\<rparr> r)"

definition tenants :: "tenant_registry \<Rightarrow> tenant list" where
  "tenants r = dict_values (tr_by_id r)"

section \<open>The middleware\<close>

definition APEX_DOMAIN :: string where
  "APEX_DOMAIN = ''journeyoflife.org''"

definition EXEMPT_PATH_PREFIXES :: "string list" where
  "EXEMPT_PATH_PREFIXES = [''/health'', ''/metrics'', ''/api/v1/payments/webhooks'']"

text \<open>What the middleware reads of a request; \<open>rq_header\<close> is the case-insensitive header lookup
  of the web framework.\<close>

record request =
  rq_path :: string
  rq_hostname :: "string option"
  rq_header :: "string \<Rightarrow> string option"

definition subdomain_slug :: "request \<Rightarrow> string" where
  "subdomain_slug rq =
     (let host = (case rq_hostname rq of None \<Rightarrow> [] | Some h \<Rightarrow> h) in
      if str_endswith host (''.'' @ APEX_DOMAIN)
      then last (str_split CHR ''.'' (str_removesuffix host (''.'' @ APEX_DOMAIN)))
      else [])"

definition resolve :: "tenant_registry \<Rightarrow> request \<Rightarrow> tenant_context result" where
  "resolve reg rq =
     (let slug = subdomain_slug rq in
      res_bind
        (if slug \<noteq> [] then
           res_bind (get_by_slug reg slug) (\<lambda>t. Inr (t, Subdomain))
         else
           (let tenant_id = (case rq_header rq TENANT_HEADER of None \<Rightarrow> [] | Some h \<Rightarrow> h) in
            if tenant_id = [] then Inl TenantNotFoundError
            else res_bind (get_by_id reg tenant_id) (\<lambda>t. Inr (t, Header))))
        (\<lambda>(t, resolved_from).
           if \<not> tn_is_active t then Inl TenantNotFoundError
           else Inr \<lparr>tc_tenant = t, tc_resolved_from = resolved_from\<rparr>))"

text \<open>The state of a request: the bound tenant context and the rest of the application.\<close>

record 'a scope =
  sc_current_tenant :: "tenant_context option"
  sc_app :: 'a

definition current_tenant :: "'a scope \<Rightarrow> tenant_context result" where
  "current_tenant s =
     (case sc_current_tenant s of None \<Rightarrow> Inl TenantNotFoundError | Some c \<Rightarrow> Inr c)"

definition set_current_tenant :: "tenant_context option \<Rightarrow> 'a scope \<Rightarrow> 'a scope" where
  "set_current_tenant c s = s\<lparr>sc_current_tenant := c\<rparr>"

text \<open>A response, of which the middleware makes one kind itself.\<close>

datatype 'r response = TenantRejected nat | Downstream 'r

definition exempt :: "request \<Rightarrow> bool" where
  "exempt rq \<longleftrightarrow> list_ex (str_startswith (rq_path rq)) EXEMPT_PATH_PREFIXES"

definition call_downstream ::
    "(request \<Rightarrow> ('a scope, 'r) op) \<Rightarrow> request \<Rightarrow> ('a scope, 'r response) op" where
  "call_downstream call_next rq = op_bind (call_next rq) (\<lambda>r. op_return (Downstream r))"

definition dispatch ::
    "tenant_registry \<Rightarrow> (request \<Rightarrow> ('a scope, 'r) op) \<Rightarrow> request \<Rightarrow> ('a scope, 'r response) op" where
  "dispatch reg call_next rq s =
     (if exempt rq then call_downstream call_next rq s
      else
        (case resolve reg rq of
           Inl e \<Rightarrow> if e = TenantNotFoundError then (Inr (TenantRejected 400), s) else (Inl e, s)
         | Inr context \<Rightarrow>
             (case call_downstream call_next rq (set_current_tenant (Some context) s) of
                (r, s') \<Rightarrow> (r, set_current_tenant None s'))))"

section \<open>UUID lemmas\<close>

lemma length_hex_of [simp]: "length (hex_of k n) = k"
  by (induction k arbitrary: n) auto

lemma hex_digit_val: "n < 16 \<Longrightarrow> hex_digit_val (hex_digit n) = n"
  by (auto simp: hex_digit_val_def hex_digit_def char_class_defs of_char_of)

lemma hex_digit_range: "n < 16 \<Longrightarrow> is_digit (hex_digit n) \<or> in_range 97 102 (hex_digit n)"
  by (auto simp: hex_digit_def char_class_defs of_char_of)

lemma hex_of_lower: "c \<in> set (hex_of k n) \<Longrightarrow> is_digit c \<or> in_range 97 102 c"
proof (induction k arbitrary: n)
  case (Suc k)
  then show ?case using hex_digit_range [of "n mod 16"] by auto
qed simp

lemma hex_of_plain:
  assumes "c \<in> set (hex_of k n)"
  shows "is_hex c" "\<not> is_space c"
    "c \<notin> {CHR ''_'', CHR ''-'', CHR ''+'', CHR ''x'', CHR ''X'', CHR ''u'', CHR ''{'', CHR ''}''}"
  using hex_of_lower [OF assms] by (auto simp: is_hex_def char_class_defs)

lemma foldl_hex_of:
  "foldl (\<lambda>n c. 16 * n + hex_digit_val c) 0 (hex_of k n) = n mod 16 ^ k"
proof (induction k arbitrary: n)
  case (Suc k)
  have "16 * (n div 16 mod 16 ^ k) + n mod 16 = n mod (16 * 16 ^ k)"
    by (simp add: mod_mult2_eq)
  then show ?case by (simp add: Suc hex_digit_val)
qed simp

lemma str_replace_absent: "hd old \<notin> set s \<Longrightarrow> old \<noteq> [] \<Longrightarrow> str_replace old new s = s"
proof (induction s)
  case Nil
  then show ?case by (simp add: str_replace.simps)
next
  case (Cons c s)
  then have "\<not> str_startswith (c # s) old" by (cases old) (auto simp: str_startswith_def)
  with Cons show ?case by (subst str_replace.simps) simp
qed

lemma str_strip_if_absent:
  assumes "\<And>c. c \<in> set s \<Longrightarrow> \<not> P c"
  shows "str_strip_if P s = s"
proof -
  have "dropWhile P t = t" if "set t \<subseteq> set s" for t using that assms by (cases t) auto
  then show ?thesis by (simp add: str_strip_if_def)
qed

lemma hex_groups_plain: "s \<noteq> [] \<Longrightarrow> (\<And>c. c \<in> set s \<Longrightarrow> is_hex c \<and> c \<noteq> CHR ''_'') \<Longrightarrow> hex_groups s"
  by (induction s rule: hex_groups.induct) auto

lemma uuid_str_set: "set (uuid_str n) \<subseteq> insert CHR ''-'' (set (uuid_hex n))"
  by (auto simp: uuid_str_def Let_def dest: in_set_takeD in_set_dropD)

lemma uuid_text_str: "uuid_text (uuid_str n) = uuid_hex n"
proof -
  let ?h = "uuid_hex n"
  have no: "c \<notin> set (uuid_str n)" if "c \<in> {CHR ''u'', CHR ''{'', CHR ''}''}" for c
    using uuid_str_set [of n] hex_of_plain(3) [of c 32 n] that by (auto simp: uuid_hex_def)
  have "CHR ''-'' \<notin> set ?h"
    using hex_of_plain(3) [of "CHR ''-''" 32 n] by (auto simp: uuid_hex_def)
  then have part: "filter (\<lambda>c. c \<noteq> CHR ''-'') t = t" if "set t \<subseteq> set ?h" for t
    using that by (auto simp: filter_id_conv)
  have "filter (\<lambda>c. c \<noteq> CHR ''-'') (uuid_str n) =
      take 8 ?h @ take 4 (drop 8 ?h) @ take 4 (drop 12 ?h) @ take 4 (drop 16 ?h) @ drop 20 ?h"
    by (simp add: uuid_str_def Let_def part set_take_subset set_drop_subset
        subset_trans [OF set_take_subset set_drop_subset])
  also have "\<dots> = ?h"
    using append_take_drop_id [of 8 ?h] append_take_drop_id [of 4 "drop 8 ?h"]
      append_take_drop_id [of 4 "drop 12 ?h"] append_take_drop_id [of 4 "drop 16 ?h"] by simp
  finally have "filter (\<lambda>c. c \<noteq> CHR ''-'') (uuid_str n) = ?h" .
  moreover have "str_strip_if (\<lambda>c. c = CHR ''{'' \<or> c = CHR ''}'') (uuid_str n) = uuid_str n"
    using no by (intro str_strip_if_absent) auto
  ultimately show ?thesis
    using no by (simp add: uuid_text_def str_replace_absent str_replace_delete)
qed

lemma uuid_roundtrip: "uuid_of_str (uuid_str n) = Inr (n mod 16 ^ 32)"
proof -
  let ?h = "hex_of 32 n"
  note plain = hex_of_plain [of _ 32 n]
  have ne: "?h \<noteq> []" using length_hex_of [of 32 n] by force
  have "str_strip ?h = ?h" using plain(2) by (auto simp: str_strip_def intro: str_strip_if_absent)
  moreover have "drop_sign ?h = ?h"
    using plain(3) ne by (cases ?h) (auto simp: drop_sign_def)
  moreover have "drop_hex_prefix ?h = ?h"
    using plain(3) by (cases ?h; cases "tl ?h") (auto simp: drop_hex_prefix_def)
  moreover have "hex_groups ?h" using ne plain by (intro hex_groups_plain) auto
  moreover have "hex_number ?h = n mod 16 ^ 32"
    using plain(3) foldl_hex_of [of 32 n] by (simp add: hex_number_def filter_id_conv)
  ultimately show ?thesis
    by (simp add: uuid_of_str_def uuid_text_str uuid_hex_def int_base16_def Let_def)
qed

lemma hex_of_inject: "hex_of k m = hex_of k n \<longleftrightarrow> m mod 16 ^ k = n mod 16 ^ k"
proof
  show "hex_of k m = hex_of k n \<Longrightarrow> m mod 16 ^ k = n mod 16 ^ k" by (metis foldl_hex_of)
  have "hex_of k n = hex_of k (n mod 16 ^ k)" for n
  proof (induction k arbitrary: n)
    case (Suc k)
    have "n mod (16 * 16 ^ k) div 16 = n div 16 mod 16 ^ k" by (simp add: mod_mult2_eq)
    moreover have "n mod (16 * 16 ^ k) mod 16 = n mod 16" by (simp add: mod_mult2_eq)
    ultimately show ?case using Suc [of "n div 16"] by simp
  qed simp
  then show "m mod 16 ^ k = n mod 16 ^ k \<Longrightarrow> hex_of k m = hex_of k n" by metis
qed

section \<open>Registry lemmas\<close>

definition registry_ok :: "tenant_registry \<Rightarrow> bool" where
  "registry_ok r \<longleftrightarrow>
     dict_ok (tr_by_id r) \<and> dict_ok (tr_by_slug r) \<and>
     (\<forall>i t. dict_get (tr_by_id r) i = Some t \<longrightarrow>
        tn_tenant_id t = i \<and> dict_get (tr_by_slug r) (tn_slug t) = Some t) \<and>
     (\<forall>s t. dict_get (tr_by_slug r) s = Some t \<longrightarrow>
        tn_slug t = s \<and> dict_get (tr_by_id r) (tn_tenant_id t) = Some t)"

definition registry_grows :: "tenant_registry \<Rightarrow> tenant_registry \<Rightarrow> bool" where
  "registry_grows r r' \<longleftrightarrow> (\<exists>ts us. tr_by_id r' = tr_by_id r @ ts \<and> tr_by_slug r' = tr_by_slug r @ us)"

lemma registry_ok_init [simp]: "registry_ok TenantRegistry"
  by (simp add: registry_ok_def TenantRegistry_def)

lemma registry_ok_register:
  assumes "registry_ok r"
  shows "registry_ok (snd (register_tenant t r))"
proof (cases "dict_has (tr_by_id r) (tn_tenant_id t) \<or> dict_has (tr_by_slug r) (tn_slug t)")
  case True
  with assms show ?thesis by (auto simp: register_tenant_def)
next
  case False
  then have "dict_get (tr_by_id r) (tn_tenant_id t) = None" "dict_get (tr_by_slug r) (tn_slug t) = None"
    by (simp_all add: map_of_eq_None_iff)
  with False assms show ?thesis
    unfolding registry_ok_def register_tenant_def
    by (auto simp: dict_get_set distinct_update split: if_splits) fastforce+
qed

lemma registry_grows_register: "registry_grows r (snd (register_tenant t r))"
  by (auto simp: register_tenant_def registry_grows_def dict_set_new)

interpretation registry_machine:
  inv_machine "\<lambda>t r. snd (register_tenant t r)" registry_ok registry_grows
proof
  show "registry_grows r r" for r by (simp add: registry_grows_def)
  show "registry_grows q r \<Longrightarrow> registry_grows r s \<Longrightarrow> registry_grows q s" for q r s
    by (auto simp: registry_grows_def)
qed (auto intro: registry_ok_register registry_grows_register)

lemma registry_grows_get:
  "registry_grows r r' \<Longrightarrow> get_by_id r i = Inr t \<Longrightarrow> get_by_id r' i = Inr t"
  by (auto simp: registry_grows_def get_by_id_def map_add_Some_iff split: option.splits)

lemma get_by_id_Inr: "get_by_id r i = Inr t \<longleftrightarrow> dict_get (tr_by_id r) i = Some t"
  by (simp add: get_by_id_def split: option.split)

lemma get_by_slug_Inr: "get_by_slug r s = Inr t \<longleftrightarrow> dict_get (tr_by_slug r) s = Some t"
  by (simp add: get_by_slug_def split: option.split)

section \<open>Properties\<close>

text \<open>The registry is a directory with two consistent indexes. After any sequence of
  registrations, accepted or refused, a tenant found under an identifier carries that identifier
  and is the tenant found under its slug, and the other way round; a registered tenant is never
  displaced by later registrations.\<close>

theorem registry_directory:
  fixes ts us :: "tenant list"
  assumes "r = fold (\<lambda>t r. snd (register_tenant t r)) ts TenantRegistry"
    and "r' = fold (\<lambda>t r. snd (register_tenant t r)) us r"
  shows "(get_by_id r i = Inr t \<longleftrightarrow> tn_tenant_id t = i \<and> t \<in> set (tenants r)) \<and>
    (get_by_slug r s = Inr t \<longleftrightarrow> tn_slug t = s \<and> t \<in> set (tenants r)) \<and>
    (get_by_id r i = Inr t \<longrightarrow> get_by_id r' i = Inr t)"
proof -
  have ok: "registry_ok r" unfolding assms(1) by (rule registry_machine.inv_run) simp
  then have "registry_grows r r'" unfolding assms(2) by (rule registry_machine.leq_run)
  moreover from ok have "t \<in> set (tenants r) \<longleftrightarrow> dict_get (tr_by_id r) (tn_tenant_id t) = Some t" for t
    by (auto simp: registry_ok_def tenants_def dict_get_values)
  ultimately show ?thesis
    using ok registry_grows_get unfolding registry_ok_def get_by_id_Inr get_by_slug_Inr by blast
qed

definition sample_tenant :: "nat \<Rightarrow> string \<Rightarrow> tenant" where
  "sample_tenant n slug =
     \<lparr>tn_tenant_id = uuid_str n, tn_slug = slug, tn_name = ''Parish'', tn_vertical = FAITH_COMMUNITY,
      tn_commission_rate = DEFAULT_TENANT_RATE, tn_branch_id = ''b1'', tn_is_active = True\<rparr>"

definition sample_registry :: tenant_registry where
  "sample_registry =
     fold (\<lambda>t r. snd (register_tenant t r)) [sample_tenant 7 ''st-anna'', sample_tenant 9 ''st-anna'']
       TenantRegistry"

theorem registry_directory_witness:
  "get_by_slug sample_registry ''st-anna'' = Inr (sample_tenant 7 ''st-anna'') \<and>
   get_by_id sample_registry (uuid_str 9) = Inl TenantNotFoundError"
proof -
  have "sample_tenant 7 ''st-anna'' \<in> set (tenants sample_registry)"
    "tn_slug (sample_tenant 7 ''st-anna'') = ''st-anna''" by code_simp+
  with registry_directory [OF sample_registry_def refl,
      of "uuid_str 7" "sample_tenant 7 ''st-anna''" "''st-anna''" "[]"]
  have "get_by_slug sample_registry ''st-anna'' = Inr (sample_tenant 7 ''st-anna'')" by simp
  moreover have "get_by_id sample_registry (uuid_str 9) = Inl TenantNotFoundError" by code_simp
  ultimately show ?thesis ..
qed

text \<open>A schema name is always safe to interpolate into SQL: whatever string the tenant
  identifier is, when a schema name is produced it is the word tenant_ followed by exactly 32
  lower-case hexadecimal digits; any other identifier raises ValueError.\<close>

theorem schema_name_safe:
  "case schema_name t of
     Inl e \<Rightarrow> e = ValueError
   | Inr s \<Rightarrow> \<exists>h. s = ''tenant_'' @ h \<and> length h = 32 \<and>
       list_all (\<lambda>c. is_digit c \<or> in_range 97 102 c) h"
proof (cases "uuid_of_str (tn_tenant_id t)")
  case (Inl e)
  then show ?thesis
    by (auto simp: schema_name_def uuid_of_str_def int_base16_def Let_def split: if_splits)
next
  case (Inr n)
  then show ?thesis using hex_of_lower [of _ 32 n]
    by (auto simp: schema_name_def uuid_hex_def list_all_iff)
qed

text \<open>Schema per tenant. A tenant created with a generated UUID has a schema name, its UUID
  is read back from its identifier, and two such tenants share a schema only when their UUIDs are
  equal.\<close>

theorem schema_separates_tenants:
  assumes "m < 2 ^ 128" "n < 2 ^ 128"
    and "new_tenant m slug name vertical rate branch r = (Inr t, r')"
    and "new_tenant n slug' name' vertical' rate' branch' r' = (Inr u, r'')"
  shows "uuid_of_str (tn_tenant_id t) = Inr m \<and> schema_name t = Inr (''tenant_'' @ uuid_hex m) \<and>
    (schema_name t = schema_name u \<longleftrightarrow> m = n)"
proof -
  have id: "tn_tenant_id v = uuid_str k"
    if "new_tenant k a b c d e q = (Inr v, q')" for k a b c d e q v q'
    using that by (auto simp: new_tenant_def register_tenant_def split: sum.splits if_splits)
  have "(16::nat) ^ 32 = 2 ^ 128" by simp
  with assms(1,2) have "m mod 16 ^ 32 = m" "n mod 16 ^ 32 = n" by simp_all
  then show ?thesis
    using id [OF assms(3)] id [OF assms(4)] hex_of_inject [of 32 m n]
    by (simp add: schema_name_def uuid_roundtrip uuid_hex_def)
qed

theorem schema_separates_tenants_witness:
  "uuid_of_str ''00000000-0000-0000-0000-000000000007'' = Inr 7"
proof -
  let ?r = "snd (new_tenant 7 ''a'' ''A'' ''funeral_home'' None '''' TenantRegistry)"
  let ?t = "sample_tenant 7 ''a''\<lparr>tn_name := ''A'', tn_vertical := FUNERAL_HOME, tn_branch_id := ''''\<rparr>"
  let ?u = "sample_tenant 8 ''b''\<lparr>tn_name := ''B'', tn_vertical := FUNERAL_HOME, tn_branch_id := ''''\<rparr>"
  have 1: "new_tenant 7 ''a'' ''A'' ''funeral_home'' None '''' TenantRegistry = (Inr ?t, ?r)"
    by code_simp
  have 2: "new_tenant 8 ''b'' ''B'' ''funeral_home'' None '''' ?r =
      (Inr ?u, snd (new_tenant 8 ''b'' ''B'' ''funeral_home'' None '''' ?r))"
    by code_simp
  have "tn_tenant_id ?t = ''00000000-0000-0000-0000-000000000007''" by code_simp
  with schema_separates_tenants [OF _ _ 1 2] show ?thesis by simp
qed

text \<open>The last label of a host name.\<close>

lemma str_split_absent: "c \<notin> set x \<Longrightarrow> str_split c x = [x]"
  by (induction x) auto

lemma last_str_split: "last (str_split c x) = rev (takeWhile (\<lambda>y. y \<noteq> c) (rev x))"
proof (induction x)
  case (Cons a x)
  show ?case
  proof (cases "c \<in> set x")
    case True
    have "tl (str_split c x) \<noteq> []" using True
      by (induction x) (auto split: list.splits)
    then obtain w v vs where "str_split c x = w # v # vs" by (metis list.collapse list.sel(2))
    with True Cons show ?thesis by (auto simp: takeWhile_append1)
  next
    case False
    then have "takeWhile (\<lambda>y. y \<noteq> c) (rev x @ zs) = rev x @ takeWhile (\<lambda>y. y \<noteq> c) zs" for zs
      by (intro takeWhile_append2) auto
    with False show ?thesis by (simp add: str_split_absent)
  qed
qed simp

text \<open>A host below the platform domain, and its label right before that domain.\<close>

definition last_label :: "string \<Rightarrow> string \<Rightarrow> bool" where
  "last_label host l \<longleftrightarrow>
     l \<noteq> [] \<and> CHR ''.'' \<notin> set l \<and>
     (\<exists>pre. host = pre @ l @ ''.journeyoflife.org'' \<and> (pre = [] \<or> last pre = CHR ''.''))"

lemma last_part:
  assumes "c \<notin> set l" "pre = [] \<or> last pre = c"
  shows "last (str_split c (pre @ l)) = l"
proof -
  have "takeWhile (\<lambda>y. y \<noteq> c) (rev l @ rev pre) = rev l @ takeWhile (\<lambda>y. y \<noteq> c) (rev pre)"
    using assms(1) by (intro takeWhile_append2) auto
  moreover have "takeWhile (\<lambda>y. y \<noteq> c) (rev pre) = []" using assms(2) by (cases pre rule: rev_cases) auto
  ultimately show ?thesis by (simp add: last_str_split)
qed

lemma before_last_part:
  "\<exists>pre. x = pre @ last (str_split c x) \<and> (pre = [] \<or> last pre = c)"
proof -
  have "x = rev (dropWhile (\<lambda>y. y \<noteq> c) (rev x)) @ last (str_split c x)"
    by (metis last_str_split rev_append rev_rev_ident takeWhile_dropWhile_id)
  moreover have "rev (dropWhile (\<lambda>y. y \<noteq> c) (rev x)) = [] \<or> last (rev (dropWhile (\<lambda>y. y \<noteq> c) (rev x))) = c"
    using hd_dropWhile [of "\<lambda>y. y \<noteq> c" "rev x"] by (auto simp: last_rev)
  ultimately show ?thesis by blast
qed

lemma last_label_split: "last_label (x @ ''.journeyoflife.org'') l \<longleftrightarrow> l \<noteq> [] \<and> l = last (str_split CHR ''.'' x)"
proof
  assume "last_label (x @ ''.journeyoflife.org'') l"
  then obtain pre where "l \<noteq> []" "CHR ''.'' \<notin> set l" "x = pre @ l" "pre = [] \<or> last pre = CHR ''.''"
    unfolding last_label_def append_assoc [symmetric] append_same_eq by blast
  with last_part show "l \<noteq> [] \<and> l = last (str_split CHR ''.'' x)" by auto
next
  assume l: "l \<noteq> [] \<and> l = last (str_split CHR ''.'' x)"
  then have "CHR ''.'' \<notin> set l" using str_split_no_sep by (metis last_in_set str_split_nonempty)
  moreover obtain pre where "x = pre @ l" "pre = [] \<or> last pre = CHR ''.''" using before_last_part l by blast
  ultimately show "last_label (x @ ''.journeyoflife.org'') l"
    using l unfolding last_label_def by (metis append_assoc)
qed

lemma subdomain_slug_iff: "subdomain_slug rq = l \<and> l \<noteq> [] \<longleftrightarrow> (\<exists>h. rq_hostname rq = Some h \<and> last_label h l)"
proof -
  have apex: "''.'' @ APEX_DOMAIN = ''.journeyoflife.org''" by (simp add: APEX_DOMAIN_def)
  show ?thesis
  proof (cases "\<exists>x. rq_hostname rq = Some (x @ ''.journeyoflife.org'')")
    case True
    then obtain x where x: "rq_hostname rq = Some (x @ ''.journeyoflife.org'')" by blast
    then have "subdomain_slug rq = last (str_split CHR ''.'' x)"
      using str_removesuffix_append [of "''.journeyoflife.org''" x] str_endswith_append [of x "''.journeyoflife.org''"]
      unfolding subdomain_slug_def apex by simp
    with x last_label_split show ?thesis by auto
  next
    case False
    then have "subdomain_slug rq = []"
      unfolding subdomain_slug_def apex by (auto simp: str_endswith_iff split: option.split)
    moreover have "\<not> last_label h l" if "rq_hostname rq = Some h" for h
      using False that unfolding last_label_def by (metis append_assoc)
    ultimately show ?thesis by auto
  qed
qed

text \<open>The tenant a request names: by the last label of its host, or by the header when the host has no
  such label.\<close>

fun names_tenant :: "request \<Rightarrow> tenant \<Rightarrow> resolved_from \<Rightarrow> bool" where
  "names_tenant rq t Subdomain \<longleftrightarrow> (\<exists>h. rq_hostname rq = Some h \<and> last_label h (tn_slug t))"
| "names_tenant rq t Header \<longleftrightarrow>
     (\<nexists>h l. rq_hostname rq = Some h \<and> last_label h l) \<and>
     tn_tenant_id t \<noteq> [] \<and> rq_header rq ''X-JOL-Tenant-ID'' = Some (tn_tenant_id t)"

lemma resolve_iff:
  assumes "registry_ok reg"
  shows "resolve reg rq = Inr \<lparr>tc_tenant = t, tc_resolved_from = how\<rparr> \<longleftrightarrow>
    t \<in> set (tenants reg) \<and> tn_is_active t \<and> names_tenant rq t how"
proof -
  have mem: "t \<in> set (tenants reg) \<longleftrightarrow> (\<exists>k. dict_get (tr_by_id reg) k = Some t)"
    using assms unfolding registry_ok_def tenants_def by (simp add: dict_get_values)
  have slug: "dict_get (tr_by_slug reg) l = Some t \<longleftrightarrow> t \<in> set (tenants reg) \<and> tn_slug t = l" for l
    using assms unfolding mem registry_ok_def by blast
  have ident: "dict_get (tr_by_id reg) i = Some t \<longleftrightarrow> t \<in> set (tenants reg) \<and> tn_tenant_id t = i" for i
    using assms unfolding mem registry_ok_def by blast
  have none: "subdomain_slug rq = [] \<longleftrightarrow> (\<nexists>h l. rq_hostname rq = Some h \<and> last_label h l)"
    using subdomain_slug_iff [of rq] by metis
  show ?thesis
  proof (cases how)
    case Subdomain
    have "resolve reg rq = Inr \<lparr>tc_tenant = t, tc_resolved_from = how\<rparr> \<longleftrightarrow>
        subdomain_slug rq \<noteq> [] \<and> dict_get (tr_by_slug reg) (subdomain_slug rq) = Some t \<and> tn_is_active t"
      by (auto simp: resolve_def Let_def res_bind_eq_Inr Subdomain get_by_slug_Inr split: if_splits)
    with slug [of "subdomain_slug rq"] subdomain_slug_iff [of rq "tn_slug t"] show ?thesis
      unfolding Subdomain names_tenant.simps by metis
  next
    case Header
    have "resolve reg rq = Inr \<lparr>tc_tenant = t, tc_resolved_from = how\<rparr> \<longleftrightarrow>
        subdomain_slug rq = [] \<and> (\<exists>i. i \<noteq> [] \<and> rq_header rq TENANT_HEADER = Some i \<and> dict_get (tr_by_id reg) i = Some t) \<and>
        tn_is_active t"
      by (auto simp: resolve_def Let_def res_bind_eq_Inr Header get_by_id_Inr split: if_splits option.splits)
    with ident none show ?thesis unfolding Header names_tenant.simps TENANT_HEADER_def by metis
  qed
qed

text \<open>C18: A request runs inside the tenant it names, or not at all. The host names a tenant by its label
  right before journeyoflife.org, which is not empty and has no dot; only when the host has no such
  label, the header X-JOL-Tenant-ID names one by its identifier. For a request that is not exempt
  and a registry whose indexes by slug and by identifier agree, as registration keeps them: if it names a registered and active tenant, the handler runs once with that tenant bound, its
  result is the answer, and afterwards no tenant is bound, also when the handler raised; if it
  names none, the answer is 400, the handler is not called and nothing changes.\<close>

theorem dispatch_scopes_tenant:
  assumes "registry_ok reg" "\<not> exempt rq"
  shows "(\<forall>t how. t \<in> set (tenants reg) \<and> tn_is_active t \<and> names_tenant rq t how \<longrightarrow>
       (let (r, s') = call_next rq (s\<lparr>sc_current_tenant := Some \<lparr>tc_tenant = t, tc_resolved_from = how\<rparr>\<rparr>)
        in dispatch reg call_next rq s = (map_sum id Downstream r, s'\<lparr>sc_current_tenant := None\<rparr>))) \<and>
    ((\<nexists>t how. t \<in> set (tenants reg) \<and> tn_is_active t \<and> names_tenant rq t how) \<longrightarrow>
       dispatch reg call_next rq s = (Inr (TenantRejected 400), s))"
proof (intro conjI allI impI)
  fix t how
  assume "t \<in> set (tenants reg) \<and> tn_is_active t \<and> names_tenant rq t how"
  with resolve_iff [OF assms(1)] have "resolve reg rq = Inr \<lparr>tc_tenant = t, tc_resolved_from = how\<rparr>" by blast
  with assms(2) show "let (r, s') = call_next rq (s\<lparr>sc_current_tenant := Some \<lparr>tc_tenant = t, tc_resolved_from = how\<rparr>\<rparr>)
      in dispatch reg call_next rq s = (map_sum id Downstream r, s'\<lparr>sc_current_tenant := None\<rparr>)"
    by (auto simp: dispatch_def call_downstream_def op_bind_def op_return_def set_current_tenant_def
        split: prod.split sum.split)
next
  assume none: "\<nexists>t how. t \<in> set (tenants reg) \<and> tn_is_active t \<and> names_tenant rq t how"
  have "resolve reg rq \<noteq> Inr c" for c
    using none resolve_iff [OF assms(1), of rq "tc_tenant c" "tc_resolved_from c"] by auto
  then obtain e where "resolve reg rq = Inl e" by (cases "resolve reg rq") auto
  moreover from this have "e = TenantNotFoundError"
    by (auto simp: resolve_def Let_def get_by_slug_def get_by_id_def split: if_splits option.splits sum.splits)
  ultimately show "dispatch reg call_next rq s = (Inr (TenantRejected 400), s)"
    using assms(2) by (simp add: dispatch_def)
qed

definition sample_request :: request where
  "sample_request =
     \<lparr>rq_path = ''/api/v1/orders'', rq_hostname = Some ''st-anna.journeyoflife.org'',
      rq_header = (\<lambda>_. None)\<rparr>"

theorem dispatch_scopes_tenant_witness:
  "registry_ok sample_registry \<and> \<not> exempt sample_request \<and>
   dispatch sample_registry (\<lambda>_ s. (current_tenant s, s)) sample_request
     \<lparr>sc_current_tenant = None, sc_app = ()\<rparr> =
   (Inr (Downstream \<lparr>tc_tenant = sample_tenant 7 ''st-anna'', tc_resolved_from = Subdomain\<rparr>),
    \<lparr>sc_current_tenant = None, sc_app = ()\<rparr>)"
proof -
  let ?h = "\<lambda>(_ :: request) (s :: unit scope). (current_tenant s, s)"
  have ok: "registry_ok sample_registry"
    unfolding sample_registry_def by (rule registry_machine.inv_run) simp
  have ex: "\<not> exempt sample_request" by code_simp
  have "tenants sample_registry = [sample_tenant 7 ''st-anna'']" by code_simp
  moreover have "last_label ''st-anna.journeyoflife.org'' ''st-anna''"
    by (simp add: last_label_def)
  ultimately have "sample_tenant 7 ''st-anna'' \<in> set (tenants sample_registry)"
    "tn_is_active (sample_tenant 7 ''st-anna'')" "names_tenant sample_request (sample_tenant 7 ''st-anna'') Subdomain"
    by (simp_all add: sample_tenant_def sample_request_def)
  with dispatch_scopes_tenant [OF ok ex, of ?h "\<lparr>sc_current_tenant = None, sc_app = ()\<rparr>"] ok ex show ?thesis
    by (fastforce simp: current_tenant_def)
qed

end
