(* ===== verification/Orders.thy ===== *)
theory Orders
  imports Commissions Audit_Log Tenancy
begin

text \<open>
  Orders: \<open>orders/order_lifecycle.py\<close>, \<open>orders/order_repository.py\<close>,
  \<open>orders/order_service.py\<close>, \<open>orders/fulfillment.py\<close>. Order objects are mutable and shared, so
  they live on a heap and the repository holds references: an order that was changed before a
  call raised stays changed. The bound tenant is an argument \<open>cur\<close>, since only the middleware
  sets it. Clock readings and generated UUIDs come from \<open>externals\<close>, indexed by a counter of the
  state, and SHA-256 is one of them.
\<close>

section \<open>Lifecycle\<close>

datatype order_status =
  DRAFT | RESERVED | CONFIRMED | IN_PROGRESS | PAYMENT_PENDING | COMPLETED | CANCELLED

fun status_value :: "order_status \<Rightarrow> string" where
  "status_value DRAFT = ''draft''"
| "status_value RESERVED = ''reserved''"
| "status_value CONFIRMED = ''confirmed''"
| "status_value IN_PROGRESS = ''in_progress''"
| "status_value PAYMENT_PENDING = ''payment_pending''"
| "status_value COMPLETED = ''completed''"
| "status_value CANCELLED = ''cancelled''"

definition all_statuses :: "order_status list" where
  "all_statuses = [DRAFT, RESERVED, CONFIRMED, IN_PROGRESS, PAYMENT_PENDING, COMPLETED, CANCELLED]"

definition OrderStatus :: "string \<Rightarrow> order_status result" where
  "OrderStatus v =
     (case find (\<lambda>s. status_value s = v) all_statuses of None \<Rightarrow> Inl ValueError | Some s \<Rightarrow> Inr s)"

datatype payment_mode = ONLINE_PREPAY | POST_SERVICE | IN_PERSON | MIXED

fun mode_value :: "payment_mode \<Rightarrow> string" where
  "mode_value ONLINE_PREPAY = ''online_prepay''"
| "mode_value POST_SERVICE = ''post_service''"
| "mode_value IN_PERSON = ''in_person''"
| "mode_value MIXED = ''mixed''"

definition PaymentMode :: "string \<Rightarrow> payment_mode result" where
  "PaymentMode v =
     (case find (\<lambda>m. mode_value m = v) [ONLINE_PREPAY, POST_SERVICE, IN_PERSON, MIXED] of
        None \<Rightarrow> Inl ValueError | Some m \<Rightarrow> Inr m)"

fun VALID_TRANSITIONS :: "order_status \<Rightarrow> order_status list" where
  "VALID_TRANSITIONS DRAFT = [RESERVED, CANCELLED]"
| "VALID_TRANSITIONS RESERVED = [CONFIRMED, CANCELLED]"
| "VALID_TRANSITIONS CONFIRMED = [IN_PROGRESS, CANCELLED]"
| "VALID_TRANSITIONS IN_PROGRESS = [COMPLETED, PAYMENT_PENDING, CANCELLED]"
| "VALID_TRANSITIONS PAYMENT_PENDING = [COMPLETED, CANCELLED]"
| "VALID_TRANSITIONS COMPLETED = []"
| "VALID_TRANSITIONS CANCELLED = []"

definition CANCELLABLE_STATES :: "order_status list" where
  "CANCELLABLE_STATES = [DRAFT, RESERVED, CONFIRMED, IN_PROGRESS, PAYMENT_PENDING]"

record commission_snapshot =
  sn_rate :: string
  sn_platform_fee_cents :: int
  sn_tenant_settlement_cents :: int

record state_change =
  sg_order_id :: string
  sg_from_status :: order_status
  sg_to_status :: order_status
  sg_changed_at :: string
  sg_changed_by :: string
  sg_reason :: string

record order =
  or_order_id :: string
  or_tenant_id :: string
  or_status :: order_status
  or_payment_mode :: payment_mode
  or_customer_id :: string
  or_items :: "(string, pyval) dict list"
  or_total_amount_cents :: int
  or_currency :: string
  or_country_code :: string
  or_branch_id :: string
  or_service_type :: string
  or_external_id :: string
  or_commission_snapshot :: "commission_snapshot option"
  or_created_at :: string
  or_updated_at :: string
  or_history :: "state_change list"

definition is_cancellable :: "order \<Rightarrow> bool" where
  "is_cancellable ord \<longleftrightarrow> or_status ord \<in> set CANCELLABLE_STATES"

section \<open>State\<close>

type_synonym ref = nat

record fulfillment_event =
  fe_order_id :: string
  fe_event_type :: string
  fe_details :: string
  fe_timestamp :: string

record externals =
  now_at :: "nat \<Rightarrow> string"
  uuid_at :: "nat \<Rightarrow> nat"
  sha256 :: "string \<Rightarrow> string"

text \<open>The shared objects of \<open>api/state.py\<close>: the repository's dict, the audit chain and the
  commission ledger, with the heap of order objects; and the events of a fulfillment service.\<close>

record order_app =
  oa_ticks :: nat
  oa_heap :: "order list"
  oa_orders :: "(string, ref) dict"
  oa_audit :: audit_logger
  oa_ledger :: commission_ledger
  oa_events :: "fulfillment_event list"

definition initial_app :: order_app where
  "initial_app =
     \<lparr>oa_ticks = 0, oa_heap = [], oa_orders = [], oa_audit = AuditLogger, oa_ledger = empty_ledger,
      oa_events = []\<rparr>"

type_synonym 'a app_op = "(order_app, 'a) op"

definition clock_now :: "externals \<Rightarrow> string app_op" where
  "clock_now ext s = (Inr (now_at ext (oa_ticks s)), s\<lparr>oa_ticks := Suc (oa_ticks s)\<rparr>)"

definition uuid4 :: "externals \<Rightarrow> nat app_op" where
  "uuid4 ext s = (Inr (uuid_at ext (oa_ticks s)), s\<lparr>oa_ticks := Suc (oa_ticks s)\<rparr>)"

text \<open>Reading and changing an order object through its reference.\<close>

definition deref :: "ref \<Rightarrow> order app_op" where
  "deref p s = (Inr (oa_heap s ! p), s)"

definition mutate :: "ref \<Rightarrow> (order \<Rightarrow> order) \<Rightarrow> unit app_op" where
  "mutate p f s = (Inr (), s\<lparr>oa_heap := (oa_heap s)[p := f (oa_heap s ! p)]\<rparr>)"

definition new_order :: "order \<Rightarrow> ref app_op" where
  "new_order ord s = (Inr (length (oa_heap s)), s\<lparr>oa_heap := oa_heap s @ [ord]\<rparr>)"

text \<open>One call of the audit logger: the identifier and the time are drawn by the entry's field
  defaults, in this order.\<close>

definition app_log ::
    "externals \<Rightarrow> string \<Rightarrow> string \<Rightarrow> string \<Rightarrow> string \<Rightarrow> (string, pyval) dict \<Rightarrow> unit app_op" where
  "app_log ext actor event_type outcome transaction_ref details =
     op_bind (uuid4 ext) (\<lambda>u.
     op_bind (clock_now ext) (\<lambda>t.
     op_modify (\<lambda>s. s\<lparr>oa_audit := audit_log (sha256 ext)
        \<lparr>lc_entry_id = uuid_str u, lc_timestamp = t, lc_actor = actor, lc_event_type = event_type,
         lc_outcome = outcome, lc_transaction_ref = transaction_ref, lc_correlation_id = [],
         lc_details = Some details\<rparr> (oa_audit s)\<rparr>)))"

section \<open>Transitions of an order object\<close>

definition transition_to ::
    "externals \<Rightarrow> ref \<Rightarrow> order_status \<Rightarrow> string \<Rightarrow> string \<Rightarrow> state_change app_op" where
  "transition_to ext p new_status changed_by reason =
     op_bind (deref p) (\<lambda>ord.
     if new_status \<notin> set (VALID_TRANSITIONS (or_status ord)) then op_raise ValueError
     else
       op_bind (clock_now ext) (\<lambda>t.
       let change = \<lparr>sg_order_id = or_order_id ord, sg_from_status = or_status ord,
         sg_to_status = new_status, sg_changed_at = t, sg_changed_by = changed_by,
         sg_reason = reason\<rparr> in
       op_bind (mutate p (\<lambda>ord. ord\<lparr>or_status := new_status, or_updated_at := t,
           or_history := or_history ord @ [change]\<rparr>)) (\<lambda>_.
       op_return change)))"

section \<open>The repository\<close>

definition check_tenant :: "tenant_context option \<Rightarrow> string \<Rightarrow> unit app_op" where
  "check_tenant cur tenant_id =
     (case cur of
        None \<Rightarrow> op_return ()
      | Some c \<Rightarrow>
          if tenant_id \<noteq> [] \<and> tenant_id \<noteq> tn_tenant_id (tc_tenant c)
          then op_raise CrossTenantAccessError else op_return ())"

definition require_tenant_id :: "tenant_context option \<Rightarrow> string app_op" where
  "require_tenant_id cur =
     (case cur of
        None \<Rightarrow> op_raise TenantNotFoundError
      | Some c \<Rightarrow> op_return (tn_tenant_id (tc_tenant c)))"

definition repo_save :: "tenant_context option \<Rightarrow> ref \<Rightarrow> unit app_op" where
  "repo_save cur p =
     op_bind (deref p) (\<lambda>ord.
     op_bind (check_tenant cur (or_tenant_id ord)) (\<lambda>_.
     op_modify (\<lambda>s. s\<lparr>oa_orders := dict_set (or_order_id ord) p (oa_orders s)\<rparr>)))"

definition find_by_id :: "tenant_context option \<Rightarrow> string \<Rightarrow> ref option app_op" where
  "find_by_id cur order_id s =
     (case dict_get (oa_orders s) order_id of
        None \<Rightarrow> (Inr None, s)
      | Some p \<Rightarrow>
          op_bind (deref p) (\<lambda>ord.
          op_bind (check_tenant cur (or_tenant_id ord)) (\<lambda>_.
          op_return (Some p))) s)"

definition stored_where :: "(order \<Rightarrow> bool) \<Rightarrow> ref list app_op" where
  "stored_where P s = (Inr (filter (\<lambda>p. P (oa_heap s ! p)) (dict_values (oa_orders s))), s)"

definition find_by_customer :: "tenant_context option \<Rightarrow> string \<Rightarrow> ref list app_op" where
  "find_by_customer cur customer_id =
     op_bind (require_tenant_id cur) (\<lambda>tenant_id.
     stored_where (\<lambda>ord. or_tenant_id ord = tenant_id \<and> or_customer_id ord = customer_id))"

definition find_by_status :: "tenant_context option \<Rightarrow> order_status \<Rightarrow> ref list app_op" where
  "find_by_status cur status =
     op_bind (require_tenant_id cur) (\<lambda>tenant_id.
     stored_where (\<lambda>ord. or_tenant_id ord = tenant_id \<and> or_status ord = status))"

definition changes_since :: "tenant_context option \<Rightarrow> string \<Rightarrow> ref list app_op" where
  "changes_since cur timestamp =
     op_bind (require_tenant_id cur) (\<lambda>tenant_id.
     stored_where (\<lambda>ord. or_tenant_id ord = tenant_id \<and> or_updated_at ord \<noteq> [] \<and>
       timestamp < or_updated_at ord))"

section \<open>The order service\<close>

record order_service =
  os_engine :: commission_engine
  os_refund_callback :: "(ref \<Rightarrow> string app_op) option"

definition default_engine :: commission_engine where
  "default_engine = \<lparr>ce_default_rate = DEFAULT_COMMISSION_RATE\<rparr>"

definition OrderService ::
    "commission_engine option \<Rightarrow> (ref \<Rightarrow> string app_op) option \<Rightarrow> order_service" where
  "OrderService engine refund_callback =
     \<lparr>os_engine = (case engine of None \<Rightarrow> default_engine | Some e \<Rightarrow> e),
      os_refund_callback = refund_callback\<rparr>"

definition bind_tenant :: "tenant_context option \<Rightarrow> ref \<Rightarrow> unit app_op" where
  "bind_tenant cur p =
     op_bind (deref p) (\<lambda>ord.
     if or_tenant_id ord \<noteq> [] then op_return ()
     else
       (case cur of
          None \<Rightarrow> op_return ()
        | Some c \<Rightarrow>
            op_bind (mutate p (\<lambda>ord. ord\<lparr>or_tenant_id := tn_tenant_id (tc_tenant c)\<rparr>)) (\<lambda>_.
            if or_branch_id ord = []
            then mutate p (\<lambda>ord. ord\<lparr>or_branch_id := tn_branch_id (tc_tenant c)\<rparr>)
            else op_return ())))"

definition register_order ::
    "externals \<Rightarrow> tenant_context option \<Rightarrow> ref \<Rightarrow> string \<Rightarrow> ref app_op" where
  "register_order ext cur p actor =
     op_bind (bind_tenant cur p) (\<lambda>_.
     op_bind (repo_save cur p) (\<lambda>_.
     op_bind (deref p) (\<lambda>ord.
     op_bind (app_log ext actor ''order.created'' ''success'' (or_order_id ord)
       [(''tenant_id'', PStr (or_tenant_id ord)),
        (''payment_mode'', PStr (mode_value (or_payment_mode ord))),
        (''amount_cents'', PInt (or_total_amount_cents ord))]) (\<lambda>_.
     op_return p))))"

text \<open>Constructing a ledger entry (its identifier and time are field defaults), which checks the
  balance, and appending it.\<close>

definition append_ledger_entry ::
    "externals \<Rightarrow> order \<Rightarrow> commission_split \<Rightarrow> string \<Rightarrow> ledger_entry app_op" where
  "append_ledger_entry ext ord sp rate =
     op_bind (uuid4 ext) (\<lambda>u.
     op_bind (clock_now ext) (\<lambda>t.
     op_bind (op_lift (LedgerEntry
       \<lparr>le_tenant_id = or_tenant_id ord, le_order_id = or_order_id ord, le_currency = or_currency ord,
        le_gross_amount_cents = cs_gross_amount_cents sp,
        le_platform_fee_cents = cs_platform_fee_cents sp,
        le_tenant_settlement_cents = cs_tenant_settlement_cents sp, le_rate = rate,
        le_entry_id = uuid_str u, le_settled_at = t\<rparr>)) (\<lambda>e.
     op_bind (op_modify (\<lambda>s. s\<lparr>oa_ledger := ledger_append e (oa_ledger s)\<rparr>)) (\<lambda>_.
     op_return e))))"

definition settle_commission ::
    "externals \<Rightarrow> order_service \<Rightarrow> tenant_context option \<Rightarrow> ref \<Rightarrow> string \<Rightarrow> unit app_op" where
  "settle_commission ext srv cur p actor =
     op_bind (deref p) (\<lambda>ord.
     op_bind (op_lift (calculate (os_engine srv) (or_total_amount_cents ord)
       (map_option (\<lambda>c. tn_commission_rate (tc_tenant c)) cur))) (\<lambda>sp.
     op_bind (mutate p (\<lambda>ord. ord\<lparr>or_commission_snapshot := Some
       \<lparr>sn_rate = rate_str sp, sn_platform_fee_cents = cs_platform_fee_cents sp,
        sn_tenant_settlement_cents = cs_tenant_settlement_cents sp\<rparr>\<rparr>)) (\<lambda>_.
     op_bind (append_ledger_entry ext ord sp (rate_str sp)) (\<lambda>_.
     app_log ext actor ''commission.settled'' ''success'' (or_order_id ord)
       [(''tenant_id'', PStr (or_tenant_id ord)),
        (''rate'', PStr (rate_str sp)),
        (''platform_fee_cents'', PInt (cs_platform_fee_cents sp)),
        (''tenant_settlement_cents'', PInt (cs_tenant_settlement_cents sp))]))))"

definition order_transition ::
    "externals \<Rightarrow> order_service \<Rightarrow> tenant_context option \<Rightarrow> ref \<Rightarrow> order_status \<Rightarrow> string \<Rightarrow> string \<Rightarrow>
     state_change app_op" where
  "order_transition ext srv cur p new_status actor reason =
     op_bind (transition_to ext p new_status actor reason) (\<lambda>change.
     op_bind (repo_save cur p) (\<lambda>_.
     op_bind (deref p) (\<lambda>ord.
     op_bind (app_log ext actor ''order.status_changed'' ''success'' (or_order_id ord)
       [(''tenant_id'', PStr (or_tenant_id ord)),
        (''from_status'', PStr (status_value (sg_from_status change))),
        (''to_status'', PStr (status_value (sg_to_status change)))]) (\<lambda>_.
     op_bind (if new_status = COMPLETED then settle_commission ext srv cur p actor
              else op_return ()) (\<lambda>_.
     op_return change)))))"

definition complete ::
    "externals \<Rightarrow> order_service \<Rightarrow> tenant_context option \<Rightarrow> ref \<Rightarrow> string \<Rightarrow> string \<Rightarrow>
     state_change app_op" where
  "complete ext srv cur p actor reason = order_transition ext srv cur p COMPLETED actor reason"

definition run_refund_callback :: "order_service \<Rightarrow> ref \<Rightarrow> string app_op" where
  "run_refund_callback srv p =
     (case os_refund_callback srv of None \<Rightarrow> op_return [] | Some f \<Rightarrow> f p)"

definition cancel ::
    "externals \<Rightarrow> order_service \<Rightarrow> tenant_context option \<Rightarrow> ref \<Rightarrow> string \<Rightarrow> string \<Rightarrow>
     state_change app_op" where
  "cancel ext srv cur p actor reason =
     op_bind (order_transition ext srv cur p CANCELLED actor reason) (\<lambda>change.
     op_bind (run_refund_callback srv p) (\<lambda>refund_ref.
     op_bind (deref p) (\<lambda>ord.
     op_bind (app_log ext actor ''order.cancelled'' ''success'' (or_order_id ord)
       [(''tenant_id'', PStr (or_tenant_id ord)),
        (''refund_triggered'', PBool (refund_ref \<noteq> [])),
        (''refund_ref'', PStr refund_ref),
        (''reason_present'', PBool (reason \<noteq> []))]) (\<lambda>_.
     op_return change))))"

definition negate_split :: "commission_split \<Rightarrow> commission_split" where
  "negate_split sp =
     sp\<lparr>cs_gross_amount_cents := - cs_gross_amount_cents sp,
        cs_platform_fee_cents := - cs_platform_fee_cents sp,
        cs_tenant_settlement_cents := - cs_tenant_settlement_cents sp\<rparr>"

definition record_commission_reversal ::
    "externals \<Rightarrow> ref \<Rightarrow> string \<Rightarrow> string \<Rightarrow> string \<Rightarrow> ledger_entry app_op" where
  "record_commission_reversal ext p actor fraction reason =
     op_bind (deref p) (\<lambda>ord.
     case or_commission_snapshot ord of
       None \<Rightarrow> op_raise ValueError
     | Some sn \<Rightarrow>
         op_bind (op_lift (dec_of_str (sn_rate sn))) (\<lambda>rate.
         op_bind (op_lift (reverse_split
           \<lparr>cs_rate = rate,
            cs_gross_amount_cents = sn_platform_fee_cents sn + sn_tenant_settlement_cents sn,
            cs_platform_fee_cents = sn_platform_fee_cents sn,
            cs_tenant_settlement_cents = sn_tenant_settlement_cents sn\<rparr> fraction)) (\<lambda>reversal.
         op_bind (append_ledger_entry ext ord (negate_split reversal) (sn_rate sn)) (\<lambda>e.
         op_bind (app_log ext actor ''commission.reversed'' ''success'' (or_order_id ord)
           [(''tenant_id'', PStr (or_tenant_id ord)),
            (''fraction'', PStr fraction),
            (''reversed_fee_cents'', PInt (cs_platform_fee_cents reversal)),
            (''reason_present'', PBool (reason \<noteq> []))]) (\<lambda>_.
         op_return e)))))"

section \<open>Fulfillment\<close>

definition fulfill ::
    "externals \<Rightarrow> ref \<Rightarrow> order_status \<Rightarrow> string \<Rightarrow> string \<Rightarrow> string \<Rightarrow> string \<Rightarrow>
     fulfillment_event app_op" where
  "fulfill ext p status changed_by reason event_type details =
     op_bind (transition_to ext p status changed_by reason) (\<lambda>change.
     op_bind (deref p) (\<lambda>ord.
     let event = \<lparr>fe_order_id = or_order_id ord, fe_event_type = event_type, fe_details = details,
       fe_timestamp = sg_changed_at change\<rparr> in
     op_bind (op_modify (\<lambda>s. s\<lparr>oa_events := oa_events s @ [event]\<rparr>)) (\<lambda>_.
     op_return event)))"

definition confirm_payment :: "externals \<Rightarrow> ref \<Rightarrow> string \<Rightarrow> fulfillment_event app_op" where
  "confirm_payment ext p payment_intent_id =
     fulfill ext p CONFIRMED ''stripe_webhook'' (''Payment confirmed: '' @ payment_intent_id)
       ''payment_confirmed'' (''Payment intent '' @ payment_intent_id @ '' confirmed'')"

definition start_service :: "externals \<Rightarrow> ref \<Rightarrow> string \<Rightarrow> fulfillment_event app_op" where
  "start_service ext p assigned_to =
     fulfill ext p IN_PROGRESS ''dispatch'' (''Service assigned: '' @ assigned_to)
       ''service_started'' (''Assigned: '' @ assigned_to)"

definition get_events :: "string \<Rightarrow> order_app \<Rightarrow> fulfillment_event list" where
  "get_events order_id s = filter (\<lambda>e. fe_order_id e = order_id) (oa_events s)"

section \<open>What the operations do to the state\<close>

lemma deref_apply [op_simps]: "deref p s = (Inr (oa_heap s ! p), s)"
  by (simp add: deref_def)

lemma mutate_apply [op_simps]:
  "mutate p f s = (Inr (), s\<lparr>oa_heap := (oa_heap s)[p := f (oa_heap s ! p)]\<rparr>)"
  by (simp add: mutate_def)

text \<open>The state after one audit entry.\<close>

definition logged ::
    "externals \<Rightarrow> string \<Rightarrow> string \<Rightarrow> string \<Rightarrow> (string, pyval) dict \<Rightarrow> order_app \<Rightarrow> order_app" where
  "logged ext actor event_type transaction_ref details s =
     snd (app_log ext actor event_type ''success'' transaction_ref details s)"

lemma app_log_apply [op_simps]:
  "app_log ext actor event_type ''success'' transaction_ref details s =
     (Inr (), logged ext actor event_type transaction_ref details s)"
  by (simp add: logged_def app_log_def uuid4_def clock_now_def op_simps)

lemma logged_fields [simp]:
  "oa_heap (logged ext a e t d s) = oa_heap s"
  "oa_orders (logged ext a e t d s) = oa_orders s"
  "oa_ledger (logged ext a e t d s) = oa_ledger s"
  "oa_events (logged ext a e t d s) = oa_events s"
  by (simp_all add: logged_def app_log_def uuid4_def clock_now_def op_simps)

definition logged_call ::
    "externals \<Rightarrow> string \<Rightarrow> string \<Rightarrow> string \<Rightarrow> (string, pyval) dict \<Rightarrow> order_app \<Rightarrow> log_call" where
  "logged_call ext actor event_type transaction_ref details s =
     \<lparr>lc_entry_id = uuid_str (uuid_at ext (oa_ticks s)), lc_timestamp = now_at ext (Suc (oa_ticks s)),
      lc_actor = actor, lc_event_type = event_type, lc_outcome = ''success'',
      lc_transaction_ref = transaction_ref, lc_correlation_id = [], lc_details = Some details\<rparr>"

lemma logged_audit [simp]:
  "oa_audit (logged ext a e t d s) = audit_log (sha256 ext) (logged_call ext a e t d s) (oa_audit s)"
  by (simp add: logged_def app_log_def uuid4_def clock_now_def op_simps logged_call_def)

lemma logged_call_fields [simp]:
  "lc_event_type (logged_call ext a e t d s) = e"
  "lc_transaction_ref (logged_call ext a e t d s) = t"
  "lc_actor (logged_call ext a e t d s) = a"
  by (simp_all add: logged_call_def)

text \<open>The order after a transition, and the state with it.\<close>

definition moved_order :: "string \<Rightarrow> order_status \<Rightarrow> string \<Rightarrow> string \<Rightarrow> order \<Rightarrow> order" where
  "moved_order t new_status changed_by reason ord =
     ord\<lparr>or_status := new_status, or_updated_at := t,
         or_history := or_history ord @
           [\<lparr>sg_order_id = or_order_id ord, sg_from_status = or_status ord,
             sg_to_status = new_status, sg_changed_at = t, sg_changed_by = changed_by,
             sg_reason = reason\<rparr>]\<rparr>"

lemma moved_order_fields [simp]:
  "or_order_id (moved_order t st by r ord) = or_order_id ord"
  "or_tenant_id (moved_order t st by r ord) = or_tenant_id ord"
  "or_status (moved_order t st by r ord) = st"
  "or_total_amount_cents (moved_order t st by r ord) = or_total_amount_cents ord"
  "or_currency (moved_order t st by r ord) = or_currency ord"
  "or_commission_snapshot (moved_order t st by r ord) = or_commission_snapshot ord"
  by (simp_all add: moved_order_def)

definition moved :: "externals \<Rightarrow> ref \<Rightarrow> order_status \<Rightarrow> string \<Rightarrow> string \<Rightarrow> order_app \<Rightarrow> order_app" where
  "moved ext p new_status changed_by reason s =
     s\<lparr>oa_ticks := Suc (oa_ticks s),
       oa_heap := (oa_heap s)[p := moved_order (now_at ext (oa_ticks s)) new_status changed_by reason
         (oa_heap s ! p)]\<rparr>"

lemma transition_to_apply:
  "transition_to ext p st by r s =
     (if st \<notin> set (VALID_TRANSITIONS (or_status (oa_heap s ! p))) then (Inl ValueError, s)
      else (Inr \<lparr>sg_order_id = or_order_id (oa_heap s ! p), sg_from_status = or_status (oa_heap s ! p),
              sg_to_status = st, sg_changed_at = now_at ext (oa_ticks s), sg_changed_by = by,
              sg_reason = r\<rparr>, moved ext p st by r s))"
  by (simp add: transition_to_def op_simps clock_now_def moved_def moved_order_def Let_def)

definition may_access :: "tenant_context option \<Rightarrow> order \<Rightarrow> bool" where
  "may_access cur ord \<longleftrightarrow>
     (case cur of None \<Rightarrow> True
      | Some c \<Rightarrow> or_tenant_id ord = [] \<or> or_tenant_id ord = tn_tenant_id (tc_tenant c))"

lemma check_tenant_apply [op_simps]:
  "check_tenant cur (or_tenant_id ord) s =
     (if may_access cur ord then Inr () else Inl CrossTenantAccessError, s)"
  by (auto simp: check_tenant_def may_access_def op_simps split: option.split)

lemma repo_save_apply:
  "repo_save cur p s =
     (if may_access cur (oa_heap s ! p)
      then (Inr (), s\<lparr>oa_orders := dict_set (or_order_id (oa_heap s ! p)) p (oa_orders s)\<rparr>)
      else (Inl CrossTenantAccessError, s))"
  by (simp add: repo_save_def op_bind_apply op_simps)

lemma find_by_id_apply:
  "find_by_id cur oid s =
     (case dict_get (oa_orders s) oid of
        None \<Rightarrow> (Inr None, s)
      | Some p \<Rightarrow> (if may_access cur (oa_heap s ! p) then Inr (Some p) else Inl CrossTenantAccessError, s))"
  by (simp add: find_by_id_def op_bind_apply op_simps split: option.split)

text \<open>The effect of settling a split: snapshot, ledger entry, audit entry.\<close>

definition ledgered :: "externals \<Rightarrow> order \<Rightarrow> commission_split \<Rightarrow> string \<Rightarrow> order_app \<Rightarrow> order_app" where
  "ledgered ext ord sp rate s =
     s\<lparr>oa_ticks := Suc (Suc (oa_ticks s)),
       oa_ledger := ledger_append
         \<lparr>le_tenant_id = or_tenant_id ord, le_order_id = or_order_id ord, le_currency = or_currency ord,
          le_gross_amount_cents = cs_gross_amount_cents sp,
          le_platform_fee_cents = cs_platform_fee_cents sp,
          le_tenant_settlement_cents = cs_tenant_settlement_cents sp, le_rate = rate,
          le_entry_id = uuid_str (uuid_at ext (oa_ticks s)),
          le_settled_at = now_at ext (Suc (oa_ticks s))\<rparr> (oa_ledger s)\<rparr>"

lemma append_ledger_entry_apply:
  assumes "cs_platform_fee_cents sp + cs_tenant_settlement_cents sp = cs_gross_amount_cents sp"
  shows "append_ledger_entry ext ord sp rate s =
    (Inr (last (cl_entries (oa_ledger (ledgered ext ord sp rate s)))), ledgered ext ord sp rate s)"
  using assms
  by (simp add: append_ledger_entry_def ledgered_def uuid4_def clock_now_def op_simps LedgerEntry_def
      ledger_append_def)

definition snapshot_of :: "commission_split \<Rightarrow> commission_snapshot" where
  "snapshot_of sp =
     \<lparr>sn_rate = rate_str sp, sn_platform_fee_cents = cs_platform_fee_cents sp,
      sn_tenant_settlement_cents = cs_tenant_settlement_cents sp\<rparr>"

definition settled :: "externals \<Rightarrow> ref \<Rightarrow> string \<Rightarrow> commission_split \<Rightarrow> order_app \<Rightarrow> order_app" where
  "settled ext p actor sp s =
     (let ord = oa_heap s ! p in
      logged ext actor ''commission.settled'' (or_order_id ord)
       [(''tenant_id'', PStr (or_tenant_id ord)),
        (''rate'', PStr (rate_str sp)),
        (''platform_fee_cents'', PInt (cs_platform_fee_cents sp)),
        (''tenant_settlement_cents'', PInt (cs_tenant_settlement_cents sp))]
       (ledgered ext ord sp (rate_str sp)
         (s\<lparr>oa_heap := (oa_heap s)[p := ord\<lparr>or_commission_snapshot := Some (snapshot_of sp)\<rparr>]\<rparr>)))"

definition tenant_rate :: "tenant_context option \<Rightarrow> string option" where
  "tenant_rate cur = map_option (\<lambda>c. tn_commission_rate (tc_tenant c)) cur"

lemma calculate_sums:
  "calculate eng g tr = Inr sp \<Longrightarrow>
     cs_platform_fee_cents sp + cs_tenant_settlement_cents sp = cs_gross_amount_cents sp \<and>
     cs_gross_amount_cents sp = g \<and> 0 \<le> g"
  by (auto simp: calculate_def res_bind_eq_Inr split: if_splits)

lemma settle_commission_apply:
  "settle_commission ext srv cur p actor s =
     (case calculate (os_engine srv) (or_total_amount_cents (oa_heap s ! p)) (tenant_rate cur) of
        Inl e \<Rightarrow> (Inl e, s)
      | Inr sp \<Rightarrow> (Inr (), settled ext p actor sp s))"
proof (cases "calculate (os_engine srv) (or_total_amount_cents (oa_heap s ! p)) (tenant_rate cur)")
  case (Inl e)
  then show ?thesis
    by (simp add: settle_commission_def op_bind_apply op_simps tenant_rate_def)
next
  case (Inr sp)
  from calculate_sums [OF this] Inr show ?thesis
    by (simp add: settle_commission_def op_bind_apply op_simps tenant_rate_def Let_def
        append_ledger_entry_apply settled_def snapshot_of_def)
qed

text \<open>A transition saved and audited, before the side effects of completion.\<close>

definition recorded ::
    "externals \<Rightarrow> ref \<Rightarrow> order_status \<Rightarrow> string \<Rightarrow> string \<Rightarrow> order_app \<Rightarrow> order_app" where
  "recorded ext p st actor reason s =
     (let ord = oa_heap s ! p; s1 = moved ext p st actor reason s in
      logged ext actor ''order.status_changed'' (or_order_id (oa_heap s1 ! p))
       [(''tenant_id'', PStr (or_tenant_id (oa_heap s1 ! p))),
        (''from_status'', PStr (status_value (or_status ord))),
        (''to_status'', PStr (status_value st))]
       (s1\<lparr>oa_orders := dict_set (or_order_id (oa_heap s1 ! p)) p (oa_orders s1)\<rparr>))"

definition change_of :: "externals \<Rightarrow> ref \<Rightarrow> order_status \<Rightarrow> string \<Rightarrow> string \<Rightarrow> order_app \<Rightarrow> state_change" where
  "change_of ext p st actor reason s =
     \<lparr>sg_order_id = or_order_id (oa_heap s ! p), sg_from_status = or_status (oa_heap s ! p),
      sg_to_status = st, sg_changed_at = now_at ext (oa_ticks s), sg_changed_by = actor,
      sg_reason = reason\<rparr>"

lemma order_transition_apply:
  assumes "p < length (oa_heap s)"
  shows "order_transition ext srv cur p st actor reason s =
    (if st \<notin> set (VALID_TRANSITIONS (or_status (oa_heap s ! p))) then (Inl ValueError, s)
     else if \<not> may_access cur (oa_heap s ! p)
       then (Inl CrossTenantAccessError, moved ext p st actor reason s)
     else if st \<noteq> COMPLETED
       then (Inr (change_of ext p st actor reason s), recorded ext p st actor reason s)
     else
       (case calculate (os_engine srv) (or_total_amount_cents (oa_heap s ! p)) (tenant_rate cur) of
          Inl e \<Rightarrow> (Inl e, recorded ext p st actor reason s)
        | Inr sp \<Rightarrow> (Inr (change_of ext p st actor reason s),
            settled ext p actor sp (recorded ext p st actor reason s))))"
proof -
  have "may_access cur (oa_heap (moved ext p st actor reason s) ! p) = may_access cur (oa_heap s ! p)"
    using assms by (simp add: moved_def may_access_def split: option.split)
  moreover have "or_total_amount_cents (oa_heap (moved ext p st actor reason s) ! p) =
      or_total_amount_cents (oa_heap s ! p)"
    using assms by (simp add: moved_def)
  ultimately show ?thesis
    by (auto simp: order_transition_def op_bind_apply transition_to_apply repo_save_apply op_simps
        settle_commission_apply recorded_def change_of_def Let_def split: sum.split)
qed

section \<open>Invariants\<close>

text \<open>A history is a path of valid transitions; the order is where it ends.\<close>

fun history_path :: "order_status \<Rightarrow> state_change list \<Rightarrow> order_status option" where
  "history_path st [] = Some st"
| "history_path st (c # cs) =
     (if sg_from_status c = st \<and> sg_to_status c \<in> set (VALID_TRANSITIONS st)
      then history_path (sg_to_status c) cs else None)"

lemma history_path_append:
  "history_path st (cs @ ds) = (case history_path st cs of None \<Rightarrow> None | Some st' \<Rightarrow> history_path st' ds)"
  by (induction cs arbitrary: st) auto

definition order_ok :: "order \<Rightarrow> bool" where
  "order_ok ord \<longleftrightarrow>
     history_path DRAFT (or_history ord) = Some (or_status ord) \<and>
     list_all (\<lambda>c. sg_order_id c = or_order_id ord) (or_history ord) \<and>
     (\<forall>sn. or_commission_snapshot ord = Some sn \<longrightarrow> or_status ord = COMPLETED \<and>
        0 \<le> or_total_amount_cents ord \<and>
        sn_platform_fee_cents sn + sn_tenant_settlement_cents sn = or_total_amount_cents ord)"

definition app_ok :: "externals \<Rightarrow> order_app \<Rightarrow> bool" where
  "app_ok ext s \<longleftrightarrow>
     logger_ok (sha256 ext) (oa_audit s) \<and> ledger_balanced (oa_ledger s) \<and>
     list_all order_ok (oa_heap s) \<and> dict_ok (oa_orders s) \<and>
     (\<forall>k p. dict_get (oa_orders s) k = Some p \<longrightarrow>
        p < length (oa_heap s) \<and> or_order_id (oa_heap s ! p) = k)"

text \<open>What never changes of an order: identity and amount; its history is only extended, and a
  snapshot once taken stays.\<close>

definition order_le :: "order \<Rightarrow> order \<Rightarrow> bool" where
  "order_le ord ord' \<longleftrightarrow>
     or_order_id ord' = or_order_id ord \<and> or_currency ord' = or_currency ord \<and>
     or_total_amount_cents ord' = or_total_amount_cents ord \<and>
     (\<exists>cs. or_history ord' = or_history ord @ cs) \<and>
     (or_commission_snapshot ord \<noteq> None \<longrightarrow>
        or_commission_snapshot ord' = or_commission_snapshot ord)"

definition app_le :: "order_app \<Rightarrow> order_app \<Rightarrow> bool" where
  "app_le s s' \<longleftrightarrow>
     log_extends (oa_audit s) (oa_audit s') \<and>
     (\<exists>es. cl_entries (oa_ledger s') = cl_entries (oa_ledger s) @ es) \<and>
     length (oa_heap s) \<le> length (oa_heap s') \<and>
     (\<forall>i < length (oa_heap s). order_le (oa_heap s ! i) (oa_heap s' ! i))"

lemma order_le_refl [simp]: "order_le ord ord"
  by (simp add: order_le_def)

lemma order_le_trans: "order_le a b \<Longrightarrow> order_le b c \<Longrightarrow> order_le a c"
  by (auto simp: order_le_def)

lemma app_le_refl [simp]: "app_le s s"
  by (simp add: app_le_def)

lemma app_le_trans: "app_le s t \<Longrightarrow> app_le t u \<Longrightarrow> app_le s u"
  unfolding app_le_def by (auto intro: log_extends_trans order_le_trans dest: less_le_trans)

text \<open>Both together, as one relation between the states before and after.\<close>

definition app_moves :: "externals \<Rightarrow> order_app \<Rightarrow> order_app \<Rightarrow> bool" where
  "app_moves ext s s' \<longleftrightarrow> (app_ok ext s \<longrightarrow> app_ok ext s' \<and> app_le s s')"

named_theorems moves_intros \<open>steps that keep the invariant of the application\<close>

lemma app_moves_refl [moves_intros, simp]: "app_moves ext s s"
  by (simp add: app_moves_def)

lemma app_moves_trans: "app_moves ext s t \<Longrightarrow> app_moves ext t u \<Longrightarrow> app_moves ext s u"
  by (auto simp: app_moves_def intro: app_le_trans)

lemma app_moves_logged [moves_intros]: "app_moves ext s (logged ext a e t d s)"
  by (auto simp: app_moves_def app_ok_def app_le_def intro: logger_ok_log)

lemma app_moves_ledgered:
  "cs_platform_fee_cents sp + cs_tenant_settlement_cents sp = cs_gross_amount_cents sp \<Longrightarrow>
     app_moves ext s (ledgered ext ord sp rate s)"
  by (auto simp: app_moves_def app_ok_def app_le_def ledgered_def ledger_balanced_append
      balanced_entry_def ledger_log.items_push)

lemma app_moves_update:
  assumes "p < length (oa_heap s)"
    and "order_ok (oa_heap s ! p) \<Longrightarrow> order_ok ord' \<and> order_le (oa_heap s ! p) ord'"
  shows "app_moves ext s (s\<lparr>oa_ticks := n, oa_heap := (oa_heap s)[p := ord']\<rparr>)"
proof -
  have "order_ok (oa_heap s ! p)" if "app_ok ext s"
    using that assms(1) by (simp add: app_ok_def list_all_length)
  with assms show ?thesis
    unfolding app_moves_def app_ok_def app_le_def
    by (auto simp: list_all_length nth_list_update order_le_def)
qed

lemma app_moves_stored:
  "p < length (oa_heap s) \<Longrightarrow>
     app_moves ext s (s\<lparr>oa_orders := dict_set (or_order_id (oa_heap s ! p)) p (oa_orders s)\<rparr>)"
  by (auto simp: app_moves_def app_ok_def app_le_def dict_get_set distinct_update split: if_splits)

lemma terminal_no_transition: "st \<in> set (VALID_TRANSITIONS st') \<Longrightarrow> st' \<noteq> COMPLETED \<and> st' \<noteq> CANCELLED"
  by (cases st') auto

lemma order_ok_moved:
  assumes "st \<in> set (VALID_TRANSITIONS (or_status ord))" "order_ok ord"
  shows "order_ok (moved_order t st by r ord) \<and> order_le ord (moved_order t st by r ord)"
proof -
  have "or_commission_snapshot ord = None"
    using terminal_no_transition [OF assms(1)] assms(2) by (auto simp: order_ok_def)
  with assms show ?thesis
    by (simp add: order_ok_def order_le_def moved_order_def history_path_append)
qed

lemma app_moves_moved:
  "p < length (oa_heap s) \<Longrightarrow> st \<in> set (VALID_TRANSITIONS (or_status (oa_heap s ! p))) \<Longrightarrow>
     app_moves ext s (moved ext p st by r s)"
  unfolding moved_def by (intro app_moves_update order_ok_moved)

lemma app_moves_recorded:
  assumes "p < length (oa_heap s)" "st \<in> set (VALID_TRANSITIONS (or_status (oa_heap s ! p)))"
  shows "app_moves ext s (recorded ext p st actor r s)"
proof -
  have "p < length (oa_heap (moved ext p st actor r s))" using assms(1) by (simp add: moved_def)
  from app_moves_stored [OF this] app_moves_moved [OF assms] show ?thesis
    unfolding recorded_def Let_def by (blast intro: app_moves_trans app_moves_logged)
qed

lemma recorded_heap [simp]:
  "oa_heap (recorded ext p st actor r s) = oa_heap (moved ext p st actor r s)"
  by (simp add: recorded_def Let_def)

lemma app_moves_settled:
  assumes p: "p < length (oa_heap s)"
    and st: "or_status (oa_heap s ! p) = COMPLETED" and none: "or_commission_snapshot (oa_heap s ! p) = None"
    and calc: "calculate eng (or_total_amount_cents (oa_heap s ! p)) tr = Inr sp"
  shows "app_moves ext s (settled ext p actor sp s)"
proof -
  note sums = calculate_sums [OF calc]
  let ?o = "(oa_heap s ! p)\<lparr>or_commission_snapshot := Some (snapshot_of sp)\<rparr>"
  have "app_moves ext s (s\<lparr>oa_ticks := oa_ticks s, oa_heap := (oa_heap s)[p := ?o]\<rparr>)"
    using p st none sums
    by (intro app_moves_update) (auto simp: order_ok_def order_le_def snapshot_of_def)
  then have "app_moves ext s (s\<lparr>oa_heap := (oa_heap s)[p := ?o]\<rparr>)" by simp
  with sums show ?thesis
    unfolding settled_def Let_def
    by (blast intro: app_moves_trans app_moves_logged app_moves_ledgered)
qed

lemma order_transition_moves:
  assumes p: "p < length (oa_heap s)"
  shows "app_moves ext s (snd (order_transition ext srv cur p st actor r s))"
proof (cases "st \<in> set (VALID_TRANSITIONS (or_status (oa_heap s ! p)))")
  case valid: True
  note rec = app_moves_recorded [OF p valid, of ext actor r]
  let ?t = "recorded ext p st actor r s"
  have settle: "app_moves ext s (settled ext p actor sp ?t)"
    if "st = COMPLETED" "calculate eng (or_total_amount_cents (oa_heap s ! p)) tr = Inr sp" for eng tr sp
  proof (cases "app_ok ext s")
    case True
    then have "order_ok (oa_heap s ! p)" using p by (simp add: app_ok_def list_all_length)
    with terminal_no_transition [OF valid] have "or_commission_snapshot (oa_heap s ! p) = None"
      by (auto simp: order_ok_def)
    with that p have "app_moves ext ?t (settled ext p actor sp ?t)"
      by (intro app_moves_settled [where eng = eng and tr = tr]) (auto simp: moved_def)
    with rec show ?thesis by (rule app_moves_trans)
  qed (simp add: app_moves_def)
  show ?thesis
    using valid rec settle app_moves_moved [OF p valid, of ext actor r]
    by (auto simp: order_transition_apply [OF p] split: sum.split)
next
  case False
  then show ?thesis by (simp add: order_transition_apply [OF p])
qed

lemma reverse_sums:
  "reverse_split sp f = Inr sp' \<Longrightarrow>
     cs_platform_fee_cents sp' + cs_tenant_settlement_cents sp' = cs_gross_amount_cents sp'"
  by (auto simp: reverse_split_def res_bind_eq_Inr split: if_splits)

definition snapshot_split :: "decimal \<Rightarrow> commission_snapshot \<Rightarrow> commission_split" where
  "snapshot_split rate sn =
     \<lparr>cs_rate = rate,
      cs_gross_amount_cents = sn_platform_fee_cents sn + sn_tenant_settlement_cents sn,
      cs_platform_fee_cents = sn_platform_fee_cents sn,
      cs_tenant_settlement_cents = sn_tenant_settlement_cents sn\<rparr>"

definition reversed ::
    "externals \<Rightarrow> order \<Rightarrow> string \<Rightarrow> string \<Rightarrow> string \<Rightarrow> string \<Rightarrow> commission_split \<Rightarrow> order_app \<Rightarrow>
     order_app" where
  "reversed ext ord rate actor fraction reason sp s =
     logged ext actor ''commission.reversed'' (or_order_id ord)
       [(''tenant_id'', PStr (or_tenant_id ord)),
        (''fraction'', PStr fraction),
        (''reversed_fee_cents'', PInt (cs_platform_fee_cents sp)),
        (''reason_present'', PBool (reason \<noteq> []))]
       (ledgered ext ord (negate_split sp) rate s)"

lemma reversal_apply:
  "record_commission_reversal ext p actor fraction reason s =
     (case or_commission_snapshot (oa_heap s ! p) of
        None \<Rightarrow> (Inl ValueError, s)
      | Some sn \<Rightarrow>
          (case res_bind (dec_of_str (sn_rate sn)) (\<lambda>rate. reverse_split (snapshot_split rate sn) fraction) of
             Inl e \<Rightarrow> (Inl e, s)
           | Inr sp \<Rightarrow>
               (Inr (last (cl_entries (oa_ledger (ledgered ext (oa_heap s ! p) (negate_split sp) (sn_rate sn) s)))),
                reversed ext (oa_heap s ! p) (sn_rate sn) actor fraction reason sp s)))"
proof -
  have app: "append_ledger_entry ext ord (negate_split sp) rate s =
      (Inr (last (cl_entries (oa_ledger (ledgered ext ord (negate_split sp) rate s)))),
       ledgered ext ord (negate_split sp) rate s)"
    if "reverse_split x fraction = Inr sp" for x sp ord rate
    using reverse_sums [OF that] by (intro append_ledger_entry_apply) (simp add: negate_split_def)
  show ?thesis
    by (auto simp: record_commission_reversal_def op_bind_apply op_simps snapshot_split_def [symmetric]
        reversed_def app split: option.split sum.split)
qed

lemma reversal_moves: "app_moves ext s (snd (record_commission_reversal ext p actor f r s))"
proof -
  have "app_moves ext s (reversed ext ord rate actor f r sp s)"
    if "reverse_split x f = Inr sp" for x sp ord rate
    unfolding reversed_def using reverse_sums [OF that]
    by (intro app_moves_trans [OF app_moves_ledgered app_moves_logged]) (simp add: negate_split_def)
  then show ?thesis
    by (auto simp: reversal_apply res_bind_eq_Inr split: option.split sum.split)
qed

text \<open>The order after the tenant was stamped on it.\<close>

definition bound_order :: "tenant_context option \<Rightarrow> order \<Rightarrow> order" where
  "bound_order cur ord =
     (if or_tenant_id ord \<noteq> [] then ord
      else (case cur of None \<Rightarrow> ord
        | Some c \<Rightarrow> ord\<lparr>or_tenant_id := tn_tenant_id (tc_tenant c),
            or_branch_id := (if or_branch_id ord = [] then tn_branch_id (tc_tenant c)
              else or_branch_id ord)\<rparr>))"

lemma bind_tenant_apply:
  "p < length (oa_heap s) \<Longrightarrow>
     bind_tenant cur p s =
       (Inr (), s\<lparr>oa_heap := (oa_heap s)[p := bound_order cur (oa_heap s ! p)]\<rparr>)"
  by (cases cur) (simp_all add: bind_tenant_def op_bind_apply op_simps bound_order_def)

lemma bound_order_ok: "order_ok ord \<Longrightarrow> order_ok (bound_order cur ord) \<and> order_le ord (bound_order cur ord)"
  by (cases cur) (simp_all add: bound_order_def order_ok_def order_le_def)

lemma register_moves:
  assumes "p < length (oa_heap s)"
  shows "app_moves ext s (snd (register_order ext cur p actor s))"
proof -
  define u where "u = s\<lparr>oa_heap := (oa_heap s)[p := bound_order cur (oa_heap s ! p)]\<rparr>"
  have su: "app_moves ext s u" and p: "p < length (oa_heap u)"
    using app_moves_update [OF assms bound_order_ok, where n = "oa_ticks s" and ext = ext] assms
    by (simp_all add: u_def)
  have "app_moves ext s (logged ext a e t d
      (u\<lparr>oa_orders := dict_set (or_order_id (oa_heap u ! p)) p (oa_orders u)\<rparr>))" for a e t d
    using su app_moves_stored [OF p] by (blast intro: app_moves_trans app_moves_logged)
  with su show ?thesis
    by (simp add: register_order_def op_bind_apply op_simps repo_save_apply
        bind_tenant_apply [OF assms] u_def [symmetric])
qed

lemma cancel_moves:
  assumes "os_refund_callback srv = None" "p < length (oa_heap s)"
  shows "app_moves ext s (snd (cancel ext srv cur p actor r s))"
proof -
  note tr = order_transition_moves [OF assms(2), of ext srv cur CANCELLED actor r]
  from app_moves_trans [OF tr app_moves_logged] tr assms(1) show ?thesis
    by (simp add: cancel_def run_refund_callback_def op_bind_apply op_simps split: sum.split)
qed

lemma fulfill_moves:
  assumes "p < length (oa_heap s)"
  shows "app_moves ext s (snd (fulfill ext p st who r ev d s))"
proof (cases "st \<in> set (VALID_TRANSITIONS (or_status (oa_heap s ! p)))")
  case True
  have "app_moves ext t (t\<lparr>oa_events := es\<rparr>)" for t es
    by (simp add: app_moves_def app_ok_def app_le_def)
  with app_moves_moved [OF assms True, of ext who r] True show ?thesis
    by (auto simp: fulfill_def op_bind_apply op_simps transition_to_apply Let_def
        intro: app_moves_trans)
qed (simp add: fulfill_def op_bind_apply op_simps transition_to_apply)

section \<open>Sequences of calls\<close>

text \<open>The calls clients make on shared order objects, in any order and for any bound tenant. The
  constructor takes every field as an argument, so an order may start in any status.\<close>

datatype service_call =
    NewOrder order
  | Register "tenant_context option" ref string
  | Transition "tenant_context option" ref order_status string string
  | Complete "tenant_context option" ref string string
  | Cancel "tenant_context option" ref string string
  | Reverse ref string string string
  | ConfirmPayment ref string
  | StartService ref string

fun call_ref :: "service_call \<Rightarrow> ref option" where
  "call_ref (NewOrder _) = None"
| "call_ref (Register _ p _) = Some p"
| "call_ref (Transition _ p _ _ _) = Some p"
| "call_ref (Complete _ p _ _) = Some p"
| "call_ref (Cancel _ p _ _) = Some p"
| "call_ref (Reverse p _ _ _) = Some p"
| "call_ref (ConfirmPayment p _) = Some p"
| "call_ref (StartService p _) = Some p"

fun run_call :: "externals \<Rightarrow> order_service \<Rightarrow> service_call \<Rightarrow> order_app \<Rightarrow> order_app" where
  "run_call ext srv (NewOrder ord) s = snd (new_order ord s)"
| "run_call ext srv (Register cur p actor) s = snd (register_order ext cur p actor s)"
| "run_call ext srv (Transition cur p st actor r) s = snd (order_transition ext srv cur p st actor r s)"
| "run_call ext srv (Complete cur p actor r) s = snd (complete ext srv cur p actor r s)"
| "run_call ext srv (Cancel cur p actor r) s = snd (cancel ext srv cur p actor r s)"
| "run_call ext srv (Reverse p actor f r) s = snd (record_commission_reversal ext p actor f r s)"
| "run_call ext srv (ConfirmPayment p i) s = snd (confirm_payment ext p i s)"
| "run_call ext srv (StartService p a) s = snd (start_service ext p a s)"

text \<open>A call on a reference that is no object cannot be made.\<close>

definition service_step :: "externals \<Rightarrow> order_service \<Rightarrow> service_call \<Rightarrow> order_app \<Rightarrow> order_app" where
  "service_step ext srv c s =
     (case call_ref c of
        Some p \<Rightarrow> if p < length (oa_heap s) then run_call ext srv c s else s
      | None \<Rightarrow> run_call ext srv c s)"

text \<open>The invariant of the books is kept when new orders start consistent, drafts for instance.\<close>

fun call_ok :: "service_call \<Rightarrow> bool" where
  "call_ok (NewOrder ord) = order_ok ord"
| "call_ok _ = True"

lemma new_order_moves: "order_ok ord \<Longrightarrow> app_moves ext s (snd (new_order ord s))"
  by (auto simp: app_moves_def app_ok_def app_le_def new_order_def nth_append less_Suc_eq)

lemma service_step_moves:
  assumes "os_refund_callback srv = None" "call_ok c"
  shows "app_moves ext s (service_step ext srv c s)"
  using assms
  by (cases c) (auto simp: service_step_def complete_def confirm_payment_def start_service_def
      intro: new_order_moves register_moves order_transition_moves cancel_moves reversal_moves
        fulfill_moves)

definition book_step :: "externals \<Rightarrow> order_service \<Rightarrow> service_call \<Rightarrow> order_app \<Rightarrow> order_app" where
  "book_step ext srv c s = (if call_ok c then service_step ext srv c s else s)"

interpretation books: inv_machine "book_step ext (OrderService eng None)" "app_ok ext" app_le for ext eng
  using service_step_moves [of "OrderService eng None"]
  by unfold_locales (auto simp: book_step_def OrderService_def app_moves_def intro: app_le_trans)

lemma app_ok_initial [simp]: "app_ok ext initial_app"
  by (simp add: app_ok_def initial_app_def ledger_balanced_def empty_ledger_def)

lemma book_steps: "list_all call_ok cs \<Longrightarrow> fold (book_step ext srv) cs s = fold (service_step ext srv) cs s"
  by (induction cs arbitrary: s) (simp_all add: book_step_def)

section \<open>The specification of the lifecycle\<close>

text \<open>The state machine as the diagram of the module draws it: the way of an order forward, the
  detour over a failed deferred charge, and cancellation from every state that is not final.\<close>

inductive lifecycle :: "order_status \<Rightarrow> order_status \<Rightarrow> bool" where
  reserve: "lifecycle DRAFT RESERVED"
| confirm: "lifecycle RESERVED CONFIRMED"
| start: "lifecycle CONFIRMED IN_PROGRESS"
| finish: "lifecycle IN_PROGRESS COMPLETED"
| charge_failed: "lifecycle IN_PROGRESS PAYMENT_PENDING"
| charge_retried: "lifecycle PAYMENT_PENDING COMPLETED"
| cancelled: "st \<noteq> COMPLETED \<Longrightarrow> st \<noteq> CANCELLED \<Longrightarrow> lifecycle st CANCELLED"

inductive_simps lifecycle_simps:
  "lifecycle DRAFT st" "lifecycle RESERVED st" "lifecycle CONFIRMED st" "lifecycle IN_PROGRESS st"
  "lifecycle PAYMENT_PENDING st" "lifecycle COMPLETED st" "lifecycle CANCELLED st"

lemma lifecycle_iff: "lifecycle a b \<longleftrightarrow> b \<in> set (VALID_TRANSITIONS a)"
  by (cases a) (auto simp: lifecycle_simps)

text \<open>How many transitions are left at most.\<close>

fun transitions_left :: "order_status \<Rightarrow> nat" where
  "transitions_left DRAFT = 5"
| "transitions_left RESERVED = 4"
| "transitions_left CONFIRMED = 3"
| "transitions_left IN_PROGRESS = 2"
| "transitions_left PAYMENT_PENDING = 1"
| "transitions_left COMPLETED = 0"
| "transitions_left CANCELLED = 0"

lemma transitions_decrease: "lifecycle a b \<Longrightarrow> transitions_left b < transitions_left a"
proof (induction rule: lifecycle.induct)
  case (cancelled st)
  then show ?case by (cases st) auto
qed auto

section \<open>Orders along the lifecycle\<close>

text \<open>Changes that lead from one status to another, each along an edge of the diagram.\<close>

fun lifecycle_path :: "order_status \<Rightarrow> state_change list \<Rightarrow> order_status \<Rightarrow> bool" where
  "lifecycle_path a [] b \<longleftrightarrow> a = b"
| "lifecycle_path a (c # cs) b \<longleftrightarrow> sg_from_status c = a \<and> lifecycle a (sg_to_status c) \<and> lifecycle_path (sg_to_status c) cs b"

lemma lifecycle_path_append: "lifecycle_path a (cs @ ds) b \<longleftrightarrow> (\<exists>m. lifecycle_path a cs m \<and> lifecycle_path m ds b)"
  by (induction cs arbitrary: a) auto

lemma lifecycle_path_steps: "lifecycle_path a cs b \<Longrightarrow> length cs + transitions_left b \<le> transitions_left a"
  using transitions_decrease by (induction cs arbitrary: a) (auto, fastforce)

text \<open>What the life of an order keeps: identity, currency and amount; the history grows by such changes.\<close>

definition order_walks :: "order \<Rightarrow> order \<Rightarrow> bool" where
  "order_walks ord ord' \<longleftrightarrow>
     or_order_id ord' = or_order_id ord \<and> or_currency ord' = or_currency ord \<and>
     or_total_amount_cents ord' = or_total_amount_cents ord \<and>
     (\<exists>cs. or_history ord' = or_history ord @ cs \<and> lifecycle_path (or_status ord) cs (or_status ord') \<and>
       list_all (\<lambda>c. sg_order_id c = or_order_id ord) cs)"

definition heap_walks :: "order_app \<Rightarrow> order_app \<Rightarrow> bool" where
  "heap_walks s s' \<longleftrightarrow>
     length (oa_heap s) \<le> length (oa_heap s') \<and> (\<forall>i < length (oa_heap s). order_walks (oa_heap s ! i) (oa_heap s' ! i))"

lemma order_walks_refl [simp]: "order_walks ord ord"
  by (simp add: order_walks_def)

lemma order_walks_trans: "order_walks a b \<Longrightarrow> order_walks b c \<Longrightarrow> order_walks a c"
  by (auto simp: order_walks_def lifecycle_path_append)

lemma heap_walks_same: "oa_heap s' = oa_heap s \<Longrightarrow> heap_walks s s'"
  by (simp add: heap_walks_def)

lemma heap_walks_trans: "heap_walks s t \<Longrightarrow> heap_walks t u \<Longrightarrow> heap_walks s u"
  unfolding heap_walks_def by (meson order_walks_trans less_le_trans le_trans)

lemma heap_walks_update:
  "oa_heap s' = (oa_heap s)[p := ord] \<Longrightarrow> order_walks (oa_heap s ! p) ord \<Longrightarrow> heap_walks s s'"
  unfolding heap_walks_def by (metis length_list_update nth_list_update_eq nth_list_update_neq order_walks_refl order_refl)

lemma order_walks_moved:
  "st \<in> set (VALID_TRANSITIONS (or_status ord)) \<Longrightarrow> order_walks ord (moved_order t st by r ord)"
  by (simp add: order_walks_def moved_order_def lifecycle_iff)

lemma heap_walks_moved:
  "st \<in> set (VALID_TRANSITIONS (or_status (oa_heap s ! p))) \<Longrightarrow> heap_walks s (moved ext p st by r s)"
  by (rule heap_walks_update) (simp add: moved_def, simp add: order_walks_moved)

lemma heap_walks_settled: "heap_walks s (settled ext p actor sp s)"
  by (rule heap_walks_update) (simp add: settled_def Let_def ledgered_def, simp add: order_walks_def)

lemma transition_walks:
  assumes "p < length (oa_heap s)"
  shows "heap_walks s (snd (order_transition ext srv cur p st actor r s))"
proof (cases "st \<in> set (VALID_TRANSITIONS (or_status (oa_heap s ! p)))")
  case True
  from heap_walks_moved [OF True, of ext actor r] have rec: "heap_walks s (recorded ext p st actor r s)"
    by (simp add: heap_walks_def)
  with True heap_walks_moved [OF True, of ext actor r] heap_walks_trans [OF rec heap_walks_settled] show ?thesis
    by (auto simp: order_transition_apply [OF assms] split: sum.split)
qed (simp add: order_transition_apply [OF assms] heap_walks_same)

lemma register_walks:
  assumes "p < length (oa_heap s)"
  shows "heap_walks s (snd (register_order ext cur p actor s))"
proof (rule heap_walks_update)
  show "oa_heap (snd (register_order ext cur p actor s)) = (oa_heap s)[p := bound_order cur (oa_heap s ! p)]"
    by (simp add: register_order_def op_bind_apply op_simps repo_save_apply bind_tenant_apply [OF assms])
  show "order_walks (oa_heap s ! p) (bound_order cur (oa_heap s ! p))"
    by (simp add: bound_order_def order_walks_def split: option.split)
qed

lemma fulfill_walks: "heap_walks s (snd (fulfill ext p st who r ev d s))"
proof (cases "st \<in> set (VALID_TRANSITIONS (or_status (oa_heap s ! p)))")
  case True
  then show ?thesis
    using heap_walks_trans [OF heap_walks_moved [OF True, of ext who r] heap_walks_same]
    by (simp add: fulfill_def op_bind_apply op_simps transition_to_apply Let_def)
qed (simp add: fulfill_def op_bind_apply op_simps transition_to_apply heap_walks_same)

lemma reversal_walks: "heap_walks s (snd (record_commission_reversal ext p actor f r s))"
  by (rule heap_walks_same) (auto simp: reversal_apply reversed_def ledgered_def split: option.split sum.split)

lemma cancel_walks:
  assumes "p < length (oa_heap s)" "\<And>t. heap_walks t (snd (run_refund_callback srv p t))"
  shows "heap_walks s (snd (cancel ext srv cur p actor r s))"
proof -
  let ?t = "snd (order_transition ext srv cur p CANCELLED actor r s)"
  have t: "heap_walks s ?t" by (rule transition_walks [OF assms(1)])
  from heap_walks_trans [OF t assms(2)] have cb: "heap_walks s (snd (run_refund_callback srv p ?t))" .
  have "heap_walks s (logged ext a e i d (snd (run_refund_callback srv p ?t)))" for a e i d
    using heap_walks_trans [OF cb heap_walks_same] by simp
  with t cb show ?thesis by (simp add: cancel_def op_bind_apply op_simps split: sum.split)
qed

lemma service_walks:
  assumes "\<And>p t. heap_walks t (snd (run_refund_callback srv p t))"
  shows "heap_walks s (service_step ext srv c s)"
proof -
  have "heap_walks s (snd (new_order ord s))" for ord by (simp add: heap_walks_def new_order_def nth_append)
  with assms show ?thesis
    by (cases c) (auto simp: service_step_def complete_def confirm_payment_def start_service_def heap_walks_same
        intro: register_walks transition_walks cancel_walks reversal_walks fulfill_walks)
qed

text \<open>The refund callback is foreign code that is handed the order object and answers with a refund
  reference. The contract: what it does to orders it does through the operations above, in any
  number, on a service without callback; it may read the clock, and it may raise.\<close>

definition callback_through_service :: "externals \<Rightarrow> order_service \<Rightarrow> bool" where
  "callback_through_service ext srv \<longleftrightarrow>
     (\<forall>p s. \<exists>calls n. snd (run_refund_callback srv p s) =
        (fold (service_step ext (srv\<lparr>os_refund_callback := None\<rparr>)) calls s)\<lparr>oa_ticks := n\<rparr>)"

interpretation plain_service: inv_machine "service_step ext (srv\<lparr>os_refund_callback := None\<rparr>)" "\<lambda>_. True" heap_walks
  for ext srv
proof
  have "heap_walks t (snd (run_refund_callback (srv\<lparr>os_refund_callback := None\<rparr>) p t))" for p t
    by (simp add: run_refund_callback_def op_return_def heap_walks_same)
  then show "heap_walks s (service_step ext (srv\<lparr>os_refund_callback := None\<rparr>) e s)" for s e by (rule service_walks)
  show "heap_walks s t \<Longrightarrow> heap_walks t u \<Longrightarrow> heap_walks s u" for s t u by (rule heap_walks_trans)
qed (simp_all add: heap_walks_same)

locale order_clients =
  fixes ext :: externals
    and srv :: order_service
  assumes callback: "callback_through_service ext srv"
begin

lemma callback_walks: "heap_walks s (snd (run_refund_callback srv p s))"
proof -
  from callback obtain calls n where "snd (run_refund_callback srv p s) =
      (fold (service_step ext (srv\<lparr>os_refund_callback := None\<rparr>)) calls s)\<lparr>oa_ticks := n\<rparr>"
    unfolding callback_through_service_def by blast
  with heap_walks_trans [OF plain_service.leq_run heap_walks_same] show ?thesis by simp
qed

end

sublocale order_clients \<subseteq> machine: inv_machine "service_step ext srv" "\<lambda>_. True" heap_walks
  by unfold_locales (auto intro: service_walks callback_walks heap_walks_same elim: heap_walks_trans)

context order_clients
begin

lemma run_walks: "heap_walks s (fold (service_step ext srv) cs s)"
  by (rule machine.leq_run) simp

end

lemma no_callback: "os_refund_callback srv = None \<Longrightarrow> callback_through_service ext srv"
  unfolding callback_through_service_def
proof (intro allI)
  fix p s
  assume "os_refund_callback srv = None"
  then have "snd (run_refund_callback srv p s) = (fold (service_step ext (srv\<lparr>os_refund_callback := None\<rparr>)) [] s)\<lparr>oa_ticks := oa_ticks s\<rparr>"
    by (simp add: run_refund_callback_def op_return_def)
  then show "\<exists>calls n. snd (run_refund_callback srv p s) =
      (fold (service_step ext (srv\<lparr>os_refund_callback := None\<rparr>)) calls s)\<lparr>oa_ticks := n\<rparr>" by blast
qed

interpretation default_clients: order_clients ext "OrderService eng None" for ext eng
  by unfold_locales (simp add: no_callback OrderService_def)

section \<open>Properties\<close>

text \<open>C20: The order object implements the lifecycle diagram. A transition succeeds exactly when
  the diagram has that edge; it then records the change it returns at the end of the history,
  sets the status and touches no other order; otherwise it raises ValueError and nothing changes.
  An order is cancellable exactly when the diagram lets it be cancelled.\<close>

theorem transition_refines_lifecycle:
  assumes "p < length (oa_heap s)"
  shows "(case transition_to ext p st who reason s of
      (Inl e, s') \<Rightarrow> e = ValueError \<and> s' = s \<and> \<not> lifecycle (or_status (oa_heap s ! p)) st
    | (Inr c, s') \<Rightarrow> lifecycle (or_status (oa_heap s ! p)) st \<and>
        sg_from_status c = or_status (oa_heap s ! p) \<and> sg_to_status c = st \<and>
        or_status (oa_heap s' ! p) = st \<and>
        or_history (oa_heap s' ! p) = or_history (oa_heap s ! p) @ [c] \<and>
        (\<forall>i. i \<noteq> p \<longrightarrow> oa_heap s' ! i = oa_heap s ! i) \<and>
        oa_audit s' = oa_audit s \<and> oa_ledger s' = oa_ledger s) \<and>
    (is_cancellable (oa_heap s ! p) \<longleftrightarrow> lifecycle (or_status (oa_heap s ! p)) CANCELLED)"
  using assms
  by (cases "or_status (oa_heap s ! p)")
    (auto simp: transition_to_apply lifecycle_iff moved_def moved_order_def is_cancellable_def
      CANCELLABLE_STATES_def)

definition sample_externals :: externals where
  "sample_externals = \<lparr>now_at = str_of_nat, uuid_at = (\<lambda>n. n), sha256 = (\<lambda>_. ''h'')\<rparr>"

definition sample_order :: order where
  "sample_order =
     \<lparr>or_order_id = ''ORD-1'', or_tenant_id = uuid_str 7, or_status = DRAFT,
      or_payment_mode = ONLINE_PREPAY, or_customer_id = ''c1'', or_items = [],
      or_total_amount_cents = 1999, or_currency = ''EUR'', or_country_code = ''EE'',
      or_branch_id = ''b1'', or_service_type = '''', or_external_id = uuid_str 1,
      or_commission_snapshot = None, or_created_at = ''0'', or_updated_at = '''', or_history = []\<rparr>"

definition sample_context :: tenant_context where
  "sample_context = \<lparr>tc_tenant = sample_tenant 7 ''st-anna'', tc_resolved_from = Subdomain\<rparr>"

definition sample_service :: order_service where
  "sample_service = OrderService None None"

text \<open>A state with one stored order in a given status.\<close>

definition sample_app :: "order_status \<Rightarrow> order_app" where
  "sample_app st =
     initial_app\<lparr>oa_heap := [sample_order\<lparr>or_status := st\<rparr>], oa_orders := [(''ORD-1'', 0)]\<rparr>"

lemma sample_app_simps [simp]:
  "oa_heap (sample_app st) = [sample_order\<lparr>or_status := st\<rparr>]"
  "oa_orders (sample_app st) = [(''ORD-1'', 0)]"
  by (simp_all add: sample_app_def)

theorem transition_refines_lifecycle_witness:
  "fst (transition_to sample_externals 0 COMPLETED ''x'' [] (sample_app DRAFT)) = Inl ValueError \<and>
   \<not> lifecycle DRAFT COMPLETED"
proof -
  have "0 < length (oa_heap (sample_app DRAFT))" by simp
  from transition_refines_lifecycle [OF this, of COMPLETED sample_externals "''x''" "[]"]
  show ?thesis by (auto simp: transition_to_apply lifecycle_iff)
qed

text \<open>C7: Orders stay on the lifecycle under every interleaving of clients. Take an order object at any
  moment, for instance when it was just constructed, in whatever status. After any sequence of
  constructions, registrations, transitions, completions, cancellations, reversals and fulfillment
  steps, for any tenants, successful or not: its history has grown by changes that lead along edges
  of the diagram from the status it had to the status it has, at most five of them, each recorded
  under its own identifier; earlier history is not rewritten; identifier, currency and amount are
  the same; and an order that was completed or cancelled has not changed status. The refund
  callback, foreign code that gets hold of the order, is assumed to change orders only through
  these operations, if at all (without a callback, as the application is wired, nothing is
  assumed).\<close>

theorem orders_stay_on_lifecycle:
  assumes "callback_through_service ext srv"
    and "s' = fold (service_step ext srv) calls s"
    and "i < length (oa_heap s)" "ord = oa_heap s ! i" "ord' = oa_heap s' ! i"
  shows "\<exists>cs. or_history ord' = or_history ord @ cs \<and>
    lifecycle_path (or_status ord) cs (or_status ord') \<and> length cs \<le> 5 \<and>
    list_all (\<lambda>c. sg_order_id c = or_order_id ord) cs \<and>
    or_order_id ord' = or_order_id ord \<and> or_total_amount_cents ord' = or_total_amount_cents ord \<and>
    or_currency ord' = or_currency ord \<and>
    (or_status ord \<in> {COMPLETED, CANCELLED} \<longrightarrow> cs = [] \<and> or_status ord' = or_status ord)"
proof -
  have "heap_walks s s'"
    unfolding assms(2)
    by (rule order_clients.run_walks [OF order_clients.intro [OF assms(1)]])
  then have "order_walks ord ord'" using assms(3-5) by (simp add: heap_walks_def)
  then obtain cs where cs: "or_history ord' = or_history ord @ cs" "lifecycle_path (or_status ord) cs (or_status ord')"
    "list_all (\<lambda>c. sg_order_id c = or_order_id ord) cs" "or_order_id ord' = or_order_id ord"
    "or_total_amount_cents ord' = or_total_amount_cents ord" "or_currency ord' = or_currency ord"
    by (auto simp: order_walks_def)
  from lifecycle_path_steps [OF cs(2)] have len: "length cs \<le> transitions_left (or_status ord)" by simp
  have "transitions_left st \<le> 5" for st by (cases st) simp_all
  with len have "length cs \<le> 5" by (meson le_trans)
  moreover have "cs = [] \<and> or_status ord' = or_status ord" if "or_status ord \<in> {COMPLETED, CANCELLED}"
    using that len cs(2) by auto
  ultimately show ?thesis using cs by blast
qed

text \<open>A callback that refunds at the gateway, takes the commission back and answers a reference.\<close>

definition sample_callback :: "ref \<Rightarrow> string app_op" where
  "sample_callback p =
     (\<lambda>s. (Inr ''re_1'', if p < length (oa_heap s)
        then snd (record_commission_reversal sample_externals p ''refund'' ''1'' [] s) else s))"

theorem orders_stay_on_lifecycle_witness:
  "let srv = OrderService None (Some sample_callback); s = initial_app\<lparr>oa_heap := [sample_order]\<rparr>;
       s' = fold (service_step sample_externals srv) [Cancel None 0 ''x'' [], Transition None 0 RESERVED ''x'' []] s
   in or_status (oa_heap s' ! 0) = CANCELLED \<and> (\<exists>c. or_history (oa_heap s' ! 0) = [c] \<and> sg_order_id c = ''ORD-1'')"
proof -
  let ?srv = "OrderService None (Some sample_callback)" and ?s = "initial_app\<lparr>oa_heap := [sample_order]\<rparr>"
  let ?calls = "[Cancel None 0 ''x'' [], Transition None 0 RESERVED ''x'' []]"
  let ?s' = "fold (service_step sample_externals ?srv) ?calls ?s"
  have "snd (run_refund_callback ?srv p s) =
      (fold (service_step sample_externals (?srv\<lparr>os_refund_callback := None\<rparr>)) [Reverse p ''refund'' ''1'' []] s)
        \<lparr>oa_ticks := oa_ticks (snd (run_refund_callback ?srv p s))\<rparr>" for p s
    by (simp add: run_refund_callback_def OrderService_def sample_callback_def service_step_def)
  then have cb: "callback_through_service sample_externals ?srv" unfolding callback_through_service_def by blast
  have st: "or_status (oa_heap ?s' ! 0) = CANCELLED"
    by (simp add: service_step_def cancel_def op_bind_apply op_simps order_transition_apply may_access_def moved_def
        run_refund_callback_def OrderService_def sample_callback_def reversal_apply sample_order_def)
  have "0 < length (oa_heap ?s)" by simp
  from orders_stay_on_lifecycle [OF cb refl this refl refl, of ?calls] obtain cs where
    cs: "or_history (oa_heap ?s' ! 0) = cs" "lifecycle_path DRAFT cs CANCELLED" "list_all (\<lambda>c. sg_order_id c = ''ORD-1'') cs"
    unfolding st by (auto simp: sample_order_def)
  from cs(1) have "length cs = 1"
    by (simp add: service_step_def cancel_def op_bind_apply op_simps order_transition_apply may_access_def moved_def
        run_refund_callback_def OrderService_def sample_callback_def reversal_apply sample_order_def moved_order_def) force
  with cs st show ?thesis unfolding Let_def by (auto simp: length_Suc_conv)
qed

text \<open>Books and audit trail under every interleaving. With a service without refund callback and orders
  constructed consistent, as drafts for instance, after any sequence of client calls the audit chain verifies and only grew, the commission ledger only grew and every entry of it
  balances, so gross equals fee plus settlement in every tenant's reconciliation; a commission
  snapshot exists only on completed orders, adds up to the order's amount and never changes.\<close>

theorem books_stay_balanced:
  assumes "list_all call_ok (calls @ later)"
    and "s = fold (service_step ext (OrderService eng None)) calls initial_app"
    and "s' = fold (service_step ext (OrderService eng None)) later s"
  shows "verify_chain_integrity (sha256 ext) (oa_audit s') \<and> log_extends (oa_audit s) (oa_audit s') \<and>
    (\<exists>es. cl_entries (oa_ledger s') = cl_entries (oa_ledger s) @ es) \<and>
    (\<forall>e \<in> set (cl_entries (oa_ledger s')).
       le_platform_fee_cents e + le_tenant_settlement_cents e = le_gross_amount_cents e) \<and>
    (\<forall>i sn. i < length (oa_heap s) \<longrightarrow> or_commission_snapshot (oa_heap s ! i) = Some sn \<longrightarrow>
       or_status (oa_heap s ! i) = COMPLETED \<and>
       sn_platform_fee_cents sn + sn_tenant_settlement_cents sn = or_total_amount_cents (oa_heap s ! i) \<and>
       or_commission_snapshot (oa_heap s' ! i) = Some sn)"
proof -
  have run: "s = fold (book_step ext (OrderService eng None)) calls initial_app"
    "s' = fold (book_step ext (OrderService eng None)) later s"
    using assms by (simp_all add: book_steps)
  have ok: "app_ok ext s" unfolding run(1) by (rule books.inv_run) simp
  then have ok': "app_ok ext s'" and le: "app_le s s'"
    unfolding run(2) by (rule books.inv_run, rule books.leq_run)
  have snap: "or_status (oa_heap s ! i) = COMPLETED \<and>
      sn_platform_fee_cents sn + sn_tenant_settlement_cents sn = or_total_amount_cents (oa_heap s ! i) \<and>
      or_commission_snapshot (oa_heap s' ! i) = Some sn"
    if i: "i < length (oa_heap s)" and sn: "or_commission_snapshot (oa_heap s ! i) = Some sn" for i sn
  proof -
    have "order_ok (oa_heap s ! i)" using ok i by (simp add: app_ok_def list_all_length)
    moreover have "order_le (oa_heap s ! i) (oa_heap s' ! i)" using le i by (simp add: app_le_def)
    ultimately show ?thesis using sn by (simp add: order_ok_def order_le_def)
  qed
  from ok' have "list_all balanced_entry (cl_entries (oa_ledger s'))" "logger_ok (sha256 ext) (oa_audit s')"
    by (simp_all add: app_ok_def ledger_balanced_def)
  with le snap show ?thesis
    by (simp add: app_le_def verify_chain_integrity_def logger_ok_def list_all_iff balanced_entry_def)
qed

theorem books_stay_balanced_witness:
  "verify_chain_integrity (sha256 sample_externals)
     (oa_audit (fold (service_step sample_externals sample_service)
        [NewOrder sample_order, Register (Some sample_context) 0 ''c1'',
         Transition (Some sample_context) 0 RESERVED ''x'' []] initial_app))"
proof -
  let ?calls = "[NewOrder sample_order, Register (Some sample_context) 0 ''c1'',
    Transition (Some sample_context) 0 RESERVED ''x'' []]"
  have "list_all call_ok (?calls @ [])" by (simp add: order_ok_def sample_order_def)
  from books_stay_balanced [OF this refl refl, of sample_externals None] show ?thesis by (simp add: sample_service_def)
qed

text \<open>C8: Completion settles exactly once. Completing an order in progress, or one whose deferred
  charge was retried, inside its tenant, with an amount of at least zero and below 10^28 cents and
  a contract rate between zero and one: it returns the change from the old status to completed,
  stamped with the time of the call, its actor and its reason, which is also appended to the
  history; the order is completed and has the snapshot of the calculated split; the ledger has one
  new entry for tenant, order and currency with amounts and rate of that split; the audit log has
  two new entries, for the status change and the settlement; no other order changes. A second
  completion raises ValueError and changes nothing.\<close>

theorem complete_settles:
  assumes "p < length (oa_heap s)" "or_status (oa_heap s ! p) \<in> {IN_PROGRESS, PAYMENT_PENDING}"
    and "may_access cur (oa_heap s ! p)"
    and "0 \<le> or_total_amount_cents (oa_heap s ! p)" "or_total_amount_cents (oa_heap s ! p) < 10 ^ 28"
    and "chosen_rate (os_engine srv) (tenant_rate cur) = Inr d" "unit_rate d"
  shows "\<exists>sp c s' e a b.
    calculate (os_engine srv) (or_total_amount_cents (oa_heap s ! p)) (tenant_rate cur) = Inr sp \<and>
    complete ext srv cur p actor reason s = (Inr c, s') \<and>
    c = \<lparr>sg_order_id = or_order_id (oa_heap s ! p), sg_from_status = or_status (oa_heap s ! p),
         sg_to_status = COMPLETED, sg_changed_at = now_at ext (oa_ticks s), sg_changed_by = actor, sg_reason = reason\<rparr> \<and>
    or_history (oa_heap s' ! p) = or_history (oa_heap s ! p) @ [c] \<and>
    or_status (oa_heap s' ! p) = COMPLETED \<and>
    or_commission_snapshot (oa_heap s' ! p) = Some
      \<lparr>sn_rate = rate_str sp, sn_platform_fee_cents = cs_platform_fee_cents sp,
       sn_tenant_settlement_cents = cs_tenant_settlement_cents sp\<rparr> \<and>
    (\<forall>i. i \<noteq> p \<longrightarrow> oa_heap s' ! i = oa_heap s ! i) \<and>
    cl_entries (oa_ledger s') = cl_entries (oa_ledger s) @ [e] \<and>
    le_tenant_id e = or_tenant_id (oa_heap s ! p) \<and> le_order_id e = or_order_id (oa_heap s ! p) \<and>
    le_currency e = or_currency (oa_heap s ! p) \<and>
    le_gross_amount_cents e = or_total_amount_cents (oa_heap s ! p) \<and>
    le_platform_fee_cents e = cs_platform_fee_cents sp \<and>
    le_tenant_settlement_cents e = cs_tenant_settlement_cents sp \<and> le_rate e = rate_str sp \<and>
    al_entries (oa_audit s') = al_entries (oa_audit s) @ [a, b] \<and>
    ae_event_type a = ''order.status_changed'' \<and> ae_event_type b = ''commission.settled'' \<and>
    ae_transaction_ref a = or_order_id (oa_heap s ! p) \<and>
    ae_transaction_ref b = or_order_id (oa_heap s ! p) \<and>
    complete ext srv cur p actor' reason' s' = (Inl ValueError, s')"
proof -
  let ?o = "oa_heap s ! p"
  obtain sp where calc: "calculate (os_engine srv) (or_total_amount_cents ?o) (tenant_rate cur) = Inr sp"
    using calculate_total [OF assms(4-7)] by blast
  have valid: "COMPLETED \<in> set (VALID_TRANSITIONS (or_status ?o))" using assms(2) by auto
  define s' where "s' = settled ext p actor sp (recorded ext p COMPLETED actor reason s)"
  have run: "complete ext srv cur p actor reason s = (Inr (change_of ext p COMPLETED actor reason s), s')"
    using valid assms(3) calc by (simp add: complete_def order_transition_apply [OF assms(1)] s'_def)
  have len: "p < length (oa_heap s')"
    using assms(1) by (simp add: s'_def settled_def Let_def ledgered_def moved_def)
  have st: "or_status (oa_heap s' ! p) = COMPLETED"
    "or_commission_snapshot (oa_heap s' ! p) = Some
      \<lparr>sn_rate = rate_str sp, sn_platform_fee_cents = cs_platform_fee_cents sp,
       sn_tenant_settlement_cents = cs_tenant_settlement_cents sp\<rparr>"
    "or_history (oa_heap s' ! p) = or_history ?o @ [change_of ext p COMPLETED actor reason s]"
    "\<forall>i. i \<noteq> p \<longrightarrow> oa_heap s' ! i = oa_heap s ! i"
    using assms(1)
    by (simp_all add: s'_def settled_def Let_def ledgered_def moved_def snapshot_of_def moved_order_def change_of_def)
  have ledger: "\<exists>e. cl_entries (oa_ledger s') = cl_entries (oa_ledger s) @ [e] \<and>
      le_tenant_id e = or_tenant_id ?o \<and> le_order_id e = or_order_id ?o \<and>
      le_currency e = or_currency ?o \<and> le_gross_amount_cents e = or_total_amount_cents ?o \<and>
      le_platform_fee_cents e = cs_platform_fee_cents sp \<and>
      le_tenant_settlement_cents e = cs_tenant_settlement_cents sp \<and> le_rate e = rate_str sp"
    using assms(1) calculate_sums [OF calc]
    by (simp add: s'_def settled_def Let_def ledgered_def ledger_log.items_push recorded_def moved_def)
  have audit: "\<exists>a b. al_entries (oa_audit s') = al_entries (oa_audit s) @ [a, b] \<and>
      ae_event_type a = ''order.status_changed'' \<and> ae_event_type b = ''commission.settled'' \<and>
      ae_transaction_ref a = or_order_id ?o \<and> ae_transaction_ref b = or_order_id ?o"
    using assms(1)
    by (simp add: s'_def settled_def Let_def ledgered_def recorded_def moved_def al_entries_log
        logged_entry_def)
  have again: "complete ext srv cur p actor' reason' s' = (Inl ValueError, s')"
    using st(1) by (simp add: complete_def order_transition_apply [OF len])
  from calc run st ledger audit again show ?thesis unfolding change_of_def by metis
qed

theorem complete_settles_witness:
  "\<exists>sp c s'. calculate default_engine 1999 (Some ''0.10'') = Inr sp \<and>
     complete sample_externals sample_service (Some sample_context) 0 ''x'' [] (sample_app IN_PROGRESS) =
       (Inr c, s') \<and> length (cl_entries (oa_ledger s')) = 1"
proof -
  let ?s = "sample_app IN_PROGRESS" and ?cur = "Some sample_context"
  have r: "tenant_rate ?cur = Some ''0.10''" "os_engine sample_service = default_engine"
    by (simp_all add: tenant_rate_def sample_context_def sample_tenant_def DEFAULT_TENANT_RATE_def
        sample_service_def OrderService_def)
  have "dec_of_str ''0.10'' = Inr (Dec False 10 (- 2))" by code_simp
  then have rate: "chosen_rate (os_engine sample_service) (tenant_rate ?cur) = Inr (Dec False 10 (-2))"
    by (simp add: r chosen_rate_def)
  have u: "unit_rate (Dec False 10 (- 2))" by (simp add: unit_rate_def signed_def)
  have acc: "may_access ?cur (oa_heap ?s ! 0)"
    by (simp add: may_access_def sample_context_def sample_tenant_def sample_order_def)
  have l: "cl_entries (oa_ledger ?s) = []"
    by (simp add: sample_app_def initial_app_def empty_ledger_def)
  have o: "0 < length (oa_heap ?s)" "or_status (oa_heap ?s ! 0) \<in> {IN_PROGRESS, PAYMENT_PENDING}"
    and t: "or_total_amount_cents (oa_heap ?s ! 0) = 1999" by (simp_all add: sample_order_def)
  from t have "0 \<le> or_total_amount_cents (oa_heap ?s ! 0)" "or_total_amount_cents (oa_heap ?s ! 0) < 10 ^ 28"
    by simp_all
  from complete_settles [OF o acc this rate u, of sample_externals "''x''" "[]" "[]" "[]"]
  obtain sp c s' e where "calculate default_engine 1999 (Some ''0.10'') = Inr sp"
    "complete sample_externals sample_service ?cur 0 ''x'' [] ?s = (Inr c, s')"
    "cl_entries (oa_ledger s') = cl_entries (oa_ledger ?s) @ [e]"
    unfolding r t by blast
  with l show ?thesis by auto
qed

text \<open>C21: Completion is not atomic. When the commission cannot be calculated (a negative amount, an
  unreadable contract rate), completing raises that error, yet the order is already completed,
  stored and audited, without snapshot and without ledger entry; and since completed is final, no
  later transition can settle it.\<close>

theorem complete_not_atomic:
  assumes "p < length (oa_heap s)" "or_status (oa_heap s ! p) \<in> {IN_PROGRESS, PAYMENT_PENDING}"
    and "may_access cur (oa_heap s ! p)" "or_commission_snapshot (oa_heap s ! p) = None"
    and "calculate (os_engine srv) (or_total_amount_cents (oa_heap s ! p)) (tenant_rate cur) = Inl err"
  shows "\<exists>s'. complete ext srv cur p actor reason s = (Inl err, s') \<and>
    or_status (oa_heap s' ! p) = COMPLETED \<and> or_commission_snapshot (oa_heap s' ! p) = None \<and>
    oa_ledger s' = oa_ledger s \<and> dict_get (oa_orders s') (or_order_id (oa_heap s ! p)) = Some p \<and>
    (\<exists>a. al_entries (oa_audit s') = al_entries (oa_audit s) @ [a] \<and> ae_event_type a = ''order.status_changed'' \<and>
       ae_transaction_ref a = or_order_id (oa_heap s ! p)) \<and>
    order_transition ext srv' cur' p st actor' reason' s' = (Inl ValueError, s')"
proof -
  let ?s = "recorded ext p COMPLETED actor reason s"
  have valid: "COMPLETED \<in> set (VALID_TRANSITIONS (or_status (oa_heap s ! p)))" using assms(2) by auto
  then have "complete ext srv cur p actor reason s = (Inl err, ?s)"
    using assms(3,5) by (simp add: complete_def order_transition_apply [OF assms(1)])
  moreover have "or_status (oa_heap ?s ! p) = COMPLETED" "or_commission_snapshot (oa_heap ?s ! p) = None"
    using assms(1,4) by (simp_all add: moved_def)
  moreover have "oa_ledger ?s = oa_ledger s"
    "dict_get (oa_orders ?s) (or_order_id (oa_heap s ! p)) = Some p"
    "\<exists>a. al_entries (oa_audit ?s) = al_entries (oa_audit s) @ [a] \<and> ae_event_type a = ''order.status_changed'' \<and>
       ae_transaction_ref a = or_order_id (oa_heap s ! p)"
    using assms(1) by (simp_all add: recorded_def Let_def moved_def al_entries_log logged_entry_def dict_get_set)
  moreover have "order_transition ext srv' cur' p st actor' reason' ?s = (Inl ValueError, ?s)"
    using assms(1) by (subst order_transition_apply) (simp_all add: moved_def)
  ultimately show ?thesis by blast
qed

theorem complete_not_atomic_witness:
  "\<exists>s'. complete sample_externals sample_service None 0 ''x'' []
       (initial_app\<lparr>oa_heap := [sample_order\<lparr>or_status := IN_PROGRESS, or_total_amount_cents := -5\<rparr>]\<rparr>) =
     (Inl ValueError, s') \<and> or_status (oa_heap s' ! 0) = COMPLETED \<and> cl_entries (oa_ledger s') = []"
proof -
  let ?s = "initial_app\<lparr>oa_heap := [sample_order\<lparr>or_status := IN_PROGRESS, or_total_amount_cents := -5\<rparr>]\<rparr>"
  have "calculate (os_engine sample_service) (or_total_amount_cents (oa_heap ?s ! 0)) (tenant_rate None) =
      Inl ValueError" by (simp add: calculate_def)
  moreover have "may_access None (oa_heap ?s ! 0)" by (simp add: may_access_def)
  moreover have "cl_entries (oa_ledger ?s) = []" by (simp add: initial_app_def empty_ledger_def)
  moreover have "or_commission_snapshot (oa_heap ?s ! 0) = None" by (simp add: sample_order_def)
  ultimately show ?thesis
    using complete_not_atomic [of 0 ?s None sample_service ValueError sample_externals "''x''" "[]"
        sample_service None DRAFT "[]" "[]"] by auto
qed

text \<open>Cancellation. Cancelling succeeds from exactly the states the diagram allows, inside the
  tenant. The order is already cancelled, stored and audited when the refund callback runs, once,
  and the callback's reference is what the closing audit entry reports; when the callback raises,
  the error surfaces and the order stays cancelled without the closing entry.\<close>

theorem cancel_outcome:
  assumes "p < length (oa_heap s)"
  shows "(\<not> is_cancellable (oa_heap s ! p) \<longrightarrow> cancel ext srv cur p actor reason s = (Inl ValueError, s)) \<and>
    (is_cancellable (oa_heap s ! p) \<longrightarrow> may_access cur (oa_heap s ! p) \<longrightarrow>
       (\<exists>t. or_status (oa_heap t ! p) = CANCELLED \<and> oa_ledger t = oa_ledger s \<and>
          length (al_entries (oa_audit t)) = Suc (length (al_entries (oa_audit s))) \<and>
          ae_event_type (last (al_entries (oa_audit t))) = ''order.status_changed'' \<and>
          (case run_refund_callback srv p t of
             (Inl e, u) \<Rightarrow> cancel ext srv cur p actor reason s = (Inl e, u)
           | (Inr refund_ref, u) \<Rightarrow> \<exists>c v b. cancel ext srv cur p actor reason s = (Inr c, v) \<and>
               sg_to_status c = CANCELLED \<and> oa_heap v = oa_heap u \<and>
               al_entries (oa_audit v) = al_entries (oa_audit u) @ [b] \<and>
               ae_event_type b = ''order.cancelled'' \<and>
               dict_get (ae_details b) ''refund_triggered'' = Some (PBool (refund_ref \<noteq> [])) \<and>
               dict_get (ae_details b) ''refund_ref'' = Some (PStr refund_ref))))"
proof (intro conjI impI)
  assume no: "\<not> is_cancellable (oa_heap s ! p)"
  then have "CANCELLED \<notin> set (VALID_TRANSITIONS (or_status (oa_heap s ! p)))"
    by (cases "or_status (oa_heap s ! p)") (auto simp: is_cancellable_def CANCELLABLE_STATES_def)
  then show "cancel ext srv cur p actor reason s = (Inl ValueError, s)"
    by (simp add: cancel_def op_bind_apply order_transition_apply [OF assms])
next
  assume can: "is_cancellable (oa_heap s ! p)" and acc: "may_access cur (oa_heap s ! p)"
  let ?t = "recorded ext p CANCELLED actor reason s"
  from can have "CANCELLED \<in> set (VALID_TRANSITIONS (or_status (oa_heap s ! p)))"
    by (cases "or_status (oa_heap s ! p)") (auto simp: is_cancellable_def CANCELLABLE_STATES_def)
  with acc have tr: "order_transition ext srv cur p CANCELLED actor reason s =
      (Inr (change_of ext p CANCELLED actor reason s), ?t)"
    by (simp add: order_transition_apply [OF assms])
  have "or_status (oa_heap ?t ! p) = CANCELLED \<and> oa_ledger ?t = oa_ledger s \<and>
      length (al_entries (oa_audit ?t)) = Suc (length (al_entries (oa_audit s))) \<and>
      ae_event_type (last (al_entries (oa_audit ?t))) = ''order.status_changed''"
    using assms by (simp add: recorded_def Let_def moved_def al_entries_log logged_entry_def)
  moreover have "case run_refund_callback srv p ?t of
      (Inl e, u) \<Rightarrow> cancel ext srv cur p actor reason s = (Inl e, u)
    | (Inr refund_ref, u) \<Rightarrow> \<exists>c v b. cancel ext srv cur p actor reason s = (Inr c, v) \<and>
        sg_to_status c = CANCELLED \<and> oa_heap v = oa_heap u \<and>
        al_entries (oa_audit v) = al_entries (oa_audit u) @ [b] \<and>
        ae_event_type b = ''order.cancelled'' \<and>
        dict_get (ae_details b) ''refund_triggered'' = Some (PBool (refund_ref \<noteq> [])) \<and>
        dict_get (ae_details b) ''refund_ref'' = Some (PStr refund_ref)"
    using tr by (auto simp: cancel_def op_bind_apply op_simps al_entries_log logged_entry_def
        logged_call_def change_of_def split: prod.split sum.split)
  ultimately show "\<exists>t. or_status (oa_heap t ! p) = CANCELLED \<and> oa_ledger t = oa_ledger s \<and>
      length (al_entries (oa_audit t)) = Suc (length (al_entries (oa_audit s))) \<and>
      ae_event_type (last (al_entries (oa_audit t))) = ''order.status_changed'' \<and>
      (case run_refund_callback srv p t of
         (Inl e, u) \<Rightarrow> cancel ext srv cur p actor reason s = (Inl e, u)
       | (Inr refund_ref, u) \<Rightarrow> \<exists>c v b. cancel ext srv cur p actor reason s = (Inr c, v) \<and>
           sg_to_status c = CANCELLED \<and> oa_heap v = oa_heap u \<and>
           al_entries (oa_audit v) = al_entries (oa_audit u) @ [b] \<and>
           ae_event_type b = ''order.cancelled'' \<and>
           dict_get (ae_details b) ''refund_triggered'' = Some (PBool (refund_ref \<noteq> [])) \<and>
           dict_get (ae_details b) ''refund_ref'' = Some (PStr refund_ref))"
    by (intro exI [of _ ?t]) (simp only: simp_thms)
qed

theorem cancel_outcome_witness:
  "is_cancellable (oa_heap (sample_app RESERVED) ! 0) \<and>
   (\<exists>c v. cancel sample_externals sample_service None 0 ''x'' [] (sample_app RESERVED) = (Inr c, v))"
proof -
  have c: "is_cancellable (oa_heap (sample_app RESERVED) ! 0)"
    by (simp add: is_cancellable_def CANCELLABLE_STATES_def)
  have "run_refund_callback sample_service 0 t = (Inr [], t)" for t
    by (simp add: run_refund_callback_def sample_service_def OrderService_def op_simps)
  with c cancel_outcome [of 0 "sample_app RESERVED" sample_externals sample_service None "''x''" "[]"]
  show ?thesis by (auto simp: may_access_def)
qed

lemma full_reversal:
  assumes "p < length (oa_heap s)"
    and "calculate eng (or_total_amount_cents (oa_heap s ! p)) tr = Inr sp"
    and "or_commission_snapshot (oa_heap s ! p) = Some (snapshot_of sp)"
    and "or_total_amount_cents (oa_heap s ! p) < 10 ^ 28"
  shows "\<exists>e s'. record_commission_reversal ext p actor ''1'' reason s = (Inr e, s') \<and>
    cl_entries (oa_ledger s') = cl_entries (oa_ledger s) @ [e] \<and> le_tenant_id e = or_tenant_id (oa_heap s ! p) \<and>
    le_order_id e = or_order_id (oa_heap s ! p) \<and> le_currency e = or_currency (oa_heap s ! p) \<and>
    le_platform_fee_cents e = - cs_platform_fee_cents sp \<and>
    le_tenant_settlement_cents e = - cs_tenant_settlement_cents sp \<and>
    le_gross_amount_cents e = - or_total_amount_cents (oa_heap s ! p) \<and>
    oa_heap s' = oa_heap s"
proof -
  note bounds = calculate_bounds [OF assms(2,4)]
  have rate: "dec_of_str (rate_str sp) = Inr (cs_rate sp)" using assms(2) by (rule rate_str_roundtrip)
  have sp: "snapshot_split (cs_rate sp) (snapshot_of sp) = sp"
    using bounds by (simp add: snapshot_split_def snapshot_of_def)
  have "reverse_split sp ''1'' = Inr sp"
    using bounds assms(4) by (intro reverse_one) (auto simp: balanced_split_def)
  with rate sp have "res_bind (dec_of_str (rate_str sp))
      (\<lambda>rate. reverse_split (snapshot_split rate (snapshot_of sp)) ''1'') = Inr sp" by simp
  then show ?thesis
    using bounds assms(3)
    by (simp add: reversal_apply reversed_def ledgered_def ledger_log.items_push negate_split_def)
       (simp add: snapshot_of_def reversed_def ledgered_def ledger_log.items_push negate_split_def)
qed

text \<open>What the ledger holds of one order, by amount.\<close>

definition ledger_total :: "(ledger_entry \<Rightarrow> int) \<Rightarrow> string \<Rightarrow> order_app \<Rightarrow> int" where
  "ledger_total amount oid s = sum_list (map amount (filter (\<lambda>e. le_order_id e = oid) (cl_entries (oa_ledger s))))"

lemma ledger_total_push:
  "cl_entries (oa_ledger s') = cl_entries (oa_ledger s) @ [e] \<Longrightarrow>
     ledger_total f oid s' = ledger_total f oid s + (if le_order_id e = oid then f e else 0)"
  by (simp add: ledger_total_def)

text \<open>C22: A chargeback takes back exactly what was settled, and a second one takes it back again. Let an
  order without ledger entries be completed, with an amount of at least zero and below 10^28 cents
  and a contract rate between zero and one. Reversing its whole commission appends one entry for
  its tenant, order and currency that is the negative of the settlement in fee, settlement and
  gross amount; the earlier entries stay, the orders do not change, and the entries of the order
  then sum to zero in all three amounts. Nothing prevents a second reversal: it succeeds as well,
  and the sums are the negative of the settlement.\<close>

theorem chargeback_reverses_settlement:
  assumes "p < length (oa_heap s)" "ord = oa_heap s ! p" "or_status ord \<in> {IN_PROGRESS, PAYMENT_PENDING}"
    and "may_access cur ord" "0 \<le> or_total_amount_cents ord" "or_total_amount_cents ord < 10 ^ 28"
    and "chosen_rate (os_engine srv) (tenant_rate cur) = Inr d" "unit_rate d"
    and "list_all (\<lambda>e. le_order_id e \<noteq> or_order_id ord) (cl_entries (oa_ledger s))"
  shows "\<exists>sp c s1 e s2 e' s3. calculate (os_engine srv) (or_total_amount_cents ord) (tenant_rate cur) = Inr sp \<and>
    complete ext srv cur p actor reason s = (Inr c, s1) \<and>
    record_commission_reversal ext p actor' ''1'' reason' s1 = (Inr e, s2) \<and>
    cl_entries (oa_ledger s2) = cl_entries (oa_ledger s1) @ [e] \<and> oa_heap s2 = oa_heap s1 \<and>
    le_tenant_id e = or_tenant_id ord \<and> le_order_id e = or_order_id ord \<and> le_currency e = or_currency ord \<and>
    le_platform_fee_cents e = - cs_platform_fee_cents sp \<and>
    le_tenant_settlement_cents e = - cs_tenant_settlement_cents sp \<and>
    le_gross_amount_cents e = - or_total_amount_cents ord \<and>
    ledger_total le_platform_fee_cents (or_order_id ord) s2 = 0 \<and>
    ledger_total le_tenant_settlement_cents (or_order_id ord) s2 = 0 \<and>
    ledger_total le_gross_amount_cents (or_order_id ord) s2 = 0 \<and>
    record_commission_reversal ext p actor' ''1'' reason' s2 = (Inr e', s3) \<and>
    ledger_total le_platform_fee_cents (or_order_id ord) s3 = - cs_platform_fee_cents sp \<and>
    ledger_total le_tenant_settlement_cents (or_order_id ord) s3 = - cs_tenant_settlement_cents sp \<and>
    ledger_total le_gross_amount_cents (or_order_id ord) s3 = - or_total_amount_cents ord"
proof -
  obtain sp where calc: "calculate (os_engine srv) (or_total_amount_cents ord) (tenant_rate cur) = Inr sp"
    using calculate_total [OF assms(5-8)] by blast
  define s1 where "s1 = settled ext p actor sp (recorded ext p COMPLETED actor reason s)"
  have run: "complete ext srv cur p actor reason s = (Inr (change_of ext p COMPLETED actor reason s), s1)"
    using assms(2-4) calc by (auto simp: complete_def order_transition_apply [OF assms(1)] s1_def)
  have o1: "p < length (oa_heap s1)" "or_total_amount_cents (oa_heap s1 ! p) = or_total_amount_cents ord"
    "or_commission_snapshot (oa_heap s1 ! p) = Some (snapshot_of sp)" "or_tenant_id (oa_heap s1 ! p) = or_tenant_id ord"
    "or_order_id (oa_heap s1 ! p) = or_order_id ord" "or_currency (oa_heap s1 ! p) = or_currency ord"
    using assms(1,2) by (simp_all add: s1_def settled_def Let_def ledgered_def moved_def)
  have total: "ledger_total f (or_order_id ord) s = 0" for f
    using assms(9) by (auto simp: ledger_total_def list_all_iff filter_empty_conv)
  obtain x where x: "cl_entries (oa_ledger s1) = cl_entries (oa_ledger s) @ [x]" "le_order_id x = or_order_id ord"
    "le_platform_fee_cents x = cs_platform_fee_cents sp" "le_tenant_settlement_cents x = cs_tenant_settlement_cents sp"
    "le_gross_amount_cents x = or_total_amount_cents ord"
    using assms(1,2) calculate_sums [OF calc]
    by (simp add: s1_def settled_def Let_def ledgered_def ledger_log.items_push recorded_def moved_def)
  have rev: "\<exists>e s'. record_commission_reversal ext p actor' ''1'' reason' t = (Inr e, s') \<and>
      cl_entries (oa_ledger s') = cl_entries (oa_ledger t) @ [e] \<and> oa_heap s' = oa_heap s1 \<and>
      le_tenant_id e = or_tenant_id ord \<and> le_order_id e = or_order_id ord \<and> le_currency e = or_currency ord \<and>
      le_platform_fee_cents e = - cs_platform_fee_cents sp \<and>
      le_tenant_settlement_cents e = - cs_tenant_settlement_cents sp \<and>
      le_gross_amount_cents e = - or_total_amount_cents ord" if "oa_heap t = oa_heap s1" for t
    using full_reversal [of p t, unfolded that, OF o1(1) _ o1(3), of "os_engine srv" "tenant_rate cur" ext actor' reason']
      o1 calc assms(6) that by simp blast
  from rev [OF refl] obtain e s2 where e: "record_commission_reversal ext p actor' ''1'' reason' s1 = (Inr e, s2)"
    "cl_entries (oa_ledger s2) = cl_entries (oa_ledger s1) @ [e]" "oa_heap s2 = oa_heap s1"
    "le_tenant_id e = or_tenant_id ord" "le_order_id e = or_order_id ord" "le_currency e = or_currency ord"
    "le_platform_fee_cents e = - cs_platform_fee_cents sp"
    "le_tenant_settlement_cents e = - cs_tenant_settlement_cents sp"
    "le_gross_amount_cents e = - or_total_amount_cents ord" by blast
  from rev [OF e(3)] obtain e' s3 where e': "record_commission_reversal ext p actor' ''1'' reason' s2 = (Inr e', s3)"
    "cl_entries (oa_ledger s3) = cl_entries (oa_ledger s2) @ [e']" "le_order_id e' = or_order_id ord"
    "le_platform_fee_cents e' = - cs_platform_fee_cents sp"
    "le_tenant_settlement_cents e' = - cs_tenant_settlement_cents sp"
    "le_gross_amount_cents e' = - or_total_amount_cents ord" by blast
  have sums: "ledger_total f (or_order_id ord) s2 = f x + f e" "ledger_total f (or_order_id ord) s3 = f x + f e + f e'" for f
    using x(2) e(5) e'(3) total [of f]
    by (simp_all add: ledger_total_push [OF x(1)] ledger_total_push [OF e(2)] ledger_total_push [OF e'(2)])
  show ?thesis
    by (intro exI [of _ sp] exI [of _ "change_of ext p COMPLETED actor reason s"] exI [of _ s1] exI [of _ e]
        exI [of _ s2] exI [of _ e'] exI [of _ s3])
      (simp add: calc run e e' x sums)
qed

theorem chargeback_reverses_settlement_witness:
  "\<exists>c s1 e s2. complete sample_externals sample_service (Some sample_context) 0 ''x'' [] (sample_app IN_PROGRESS) = (Inr c, s1) \<and>
     record_commission_reversal sample_externals 0 ''x'' ''1'' [] s1 = (Inr e, s2) \<and>
     le_gross_amount_cents e = -1999 \<and> ledger_total le_gross_amount_cents ''ORD-1'' s2 = 0"
proof -
  let ?s = "sample_app IN_PROGRESS" and ?cur = "Some sample_context"
  have r: "tenant_rate ?cur = Some ''0.10''" "os_engine sample_service = default_engine"
    by (simp_all add: tenant_rate_def sample_context_def sample_tenant_def DEFAULT_TENANT_RATE_def
        sample_service_def OrderService_def)
  have "dec_of_str ''0.10'' = Inr (Dec False 10 (- 2))" by code_simp
  then have rate: "chosen_rate (os_engine sample_service) (tenant_rate ?cur) = Inr (Dec False 10 (-2))"
    by (simp add: r chosen_rate_def)
  have u: "unit_rate (Dec False 10 (- 2))" by (simp add: unit_rate_def signed_def)
  have o: "0 < length (oa_heap ?s)" "or_status (oa_heap ?s ! 0) \<in> {IN_PROGRESS, PAYMENT_PENDING}"
    "may_access ?cur (oa_heap ?s ! 0)" "0 \<le> or_total_amount_cents (oa_heap ?s ! 0)"
    "or_total_amount_cents (oa_heap ?s ! 0) < 10 ^ 28"
    by (simp_all add: sample_order_def may_access_def sample_context_def sample_tenant_def)
  have l: "list_all (\<lambda>e. le_order_id e \<noteq> or_order_id (oa_heap ?s ! 0)) (cl_entries (oa_ledger ?s))"
    by (simp add: sample_app_def initial_app_def empty_ledger_def)
  have i: "or_order_id (oa_heap ?s ! 0) = ''ORD-1''" "or_total_amount_cents (oa_heap ?s ! 0) = 1999"
    by (simp_all add: sample_order_def)
  from chargeback_reverses_settlement [OF o(1) refl o(2-5) rate u l, of sample_externals "''x''" "[]" "''x''" "[]"]
  show ?thesis unfolding i by blast
qed

end
