(* ===== verification/Order_API.thy ===== *)
theory Order_API
  imports Orders
begin

text \<open>
  The order endpoints: \<open>api/routes_order.py\<close> with the request checks of \<open>api/schemas.py\<close> and the
  wiring of \<open>api/state.py\<close>, run under the tenant middleware as \<open>api/app.py\<close> stacks them. A
  handler answers with a value or an HTTP error; an exception that no handler catches is an
  answer with code 500, made by the framework.
\<close>

section \<open>Requests and responses\<close>

record order_item =
  oi_description :: string
  oi_quantity :: int
  oi_unit_price_cents :: int

record create_order_request =
  cq_customer_id :: string
  cq_items :: "order_item list"
  cq_total_amount_cents :: int
  cq_currency :: string
  cq_country_code :: string
  cq_payment_mode :: string
  cq_service_type :: string

record transition_request =
  tq_status :: string
  tq_actor :: string
  tq_reason :: string

record order_response =
  rs_order_id :: string
  rs_tenant_id :: string
  rs_status :: string
  rs_payment_mode :: string
  rs_total_amount_cents :: int
  rs_currency :: string
  rs_external_id :: string
  rs_commission_rate :: "string option"
  rs_platform_fee_cents :: "int option"

text \<open>The constraints of the request models; a request that violates one is answered with 422.\<close>

definition item_valid :: "order_item \<Rightarrow> bool" where
  "item_valid i \<longleftrightarrow> 0 < oi_quantity i \<and> 0 < oi_unit_price_cents i"

definition create_request_valid :: "create_order_request \<Rightarrow> bool" where
  "create_request_valid q \<longleftrightarrow>
     list_all item_valid (cq_items q) \<and> length (cq_country_code q) = 2 \<and>
     cq_payment_mode q \<in> {''online_prepay'', ''post_service'', ''in_person'', ''mixed''}"

definition transition_request_valid :: "transition_request \<Rightarrow> bool" where
  "transition_request_valid q \<longleftrightarrow> tq_actor q \<noteq> []"

datatype 'a http = Answer 'a | HttpError nat

section \<open>Handlers\<close>

text \<open>The service of \<open>api/state.py\<close> has the default engine and no refund callback.\<close>

definition state_service :: order_service where
  "state_service = OrderService None None"

definition to_response :: "order \<Rightarrow> order_response" where
  "to_response ord =
     \<lparr>rs_order_id = or_order_id ord, rs_tenant_id = or_tenant_id ord,
      rs_status = status_value (or_status ord), rs_payment_mode = mode_value (or_payment_mode ord),
      rs_total_amount_cents = or_total_amount_cents ord, rs_currency = or_currency ord,
      rs_external_id = or_external_id ord,
      rs_commission_rate = map_option sn_rate (or_commission_snapshot ord),
      rs_platform_fee_cents = map_option sn_platform_fee_cents (or_commission_snapshot ord)\<rparr>"

definition item_dict :: "order_item \<Rightarrow> (string, pyval) dict" where
  "item_dict i =
     [(''description'', PStr (oi_description i)), (''quantity'', PInt (oi_quantity i)),
      (''unit_price_cents'', PInt (oi_unit_price_cents i))]"

text \<open>The constructor call of \<open>create_order\<close>: the identifier first, then the payment mode, then
  the field defaults that draw an external identifier and the creation time.\<close>

definition construct_order ::
    "externals \<Rightarrow> tenant_context \<Rightarrow> create_order_request \<Rightarrow> ref app_op" where
  "construct_order ext c q =
     op_bind (uuid4 ext) (\<lambda>u.
     op_bind (op_lift (PaymentMode (cq_payment_mode q))) (\<lambda>mode.
     op_bind (uuid4 ext) (\<lambda>x.
     op_bind (clock_now ext) (\<lambda>t.
     new_order
       \<lparr>or_order_id = ''ORD-'' @ take 12 (uuid_hex u), or_tenant_id = tn_tenant_id (tc_tenant c),
        or_status = DRAFT, or_payment_mode = mode, or_customer_id = cq_customer_id q,
        or_items = map item_dict (cq_items q), or_total_amount_cents = cq_total_amount_cents q,
        or_currency = cq_currency q, or_country_code = cq_country_code q,
        or_branch_id = tn_branch_id (tc_tenant c), or_service_type = cq_service_type q,
        or_external_id = uuid_str x, or_commission_snapshot = None, or_created_at = t,
        or_updated_at = [], or_history = []\<rparr>))))"

text \<open>\<open>_require_tenant\<close>: without a bound tenant the answer is 400.\<close>

definition require_tenant :: "tenant_context option \<Rightarrow> tenant_context http" where
  "require_tenant cur = (case cur of None \<Rightarrow> HttpError 400 | Some c \<Rightarrow> Answer c)"

definition create_order ::
    "externals \<Rightarrow> tenant_context option \<Rightarrow> create_order_request \<Rightarrow> order_response http app_op" where
  "create_order ext cur q =
     (case require_tenant cur of
        HttpError n \<Rightarrow> op_return (HttpError n)
      | Answer c \<Rightarrow>
          op_bind (construct_order ext c q) (\<lambda>p.
          op_bind (register_order ext cur p (cq_customer_id q)) (\<lambda>_.
          op_bind (deref p) (\<lambda>ord.
          op_return (Answer (to_response ord))))))"

definition get_order :: "tenant_context option \<Rightarrow> string \<Rightarrow> order_response http app_op" where
  "get_order cur order_id =
     op_bind (find_by_id cur order_id) (\<lambda>r.
     case r of
       None \<Rightarrow> op_return (HttpError 404)
     | Some p \<Rightarrow> op_bind (deref p) (\<lambda>ord. op_return (Answer (to_response ord))))"

text \<open>\<open>except ValueError\<close> around a service call: 409.\<close>

definition or_conflict :: "'a app_op \<Rightarrow> 'a http app_op" where
  "or_conflict m s =
     (case m s of
        (Inl e, s') \<Rightarrow> if is_ValueError e then (Inr (HttpError 409), s') else (Inl e, s')
      | (Inr a, s') \<Rightarrow> (Inr (Answer a), s'))"

definition on_order ::
    "tenant_context option \<Rightarrow> string \<Rightarrow> (ref \<Rightarrow> state_change app_op) \<Rightarrow> order_response http app_op" where
  "on_order cur order_id call =
     op_bind (find_by_id cur order_id) (\<lambda>r.
     case r of
       None \<Rightarrow> op_return (HttpError 404)
     | Some p \<Rightarrow>
         op_bind (or_conflict (call p)) (\<lambda>h.
         case h of
           HttpError n \<Rightarrow> op_return (HttpError n)
         | Answer _ \<Rightarrow> op_bind (deref p) (\<lambda>ord. op_return (Answer (to_response ord)))))"

definition transition_order ::
    "externals \<Rightarrow> tenant_context option \<Rightarrow> string \<Rightarrow> transition_request \<Rightarrow> order_response http app_op" where
  "transition_order ext cur order_id q =
     on_order cur order_id (\<lambda>p.
       op_bind (op_lift (OrderStatus (tq_status q))) (\<lambda>st.
       order_transition ext state_service cur p st (tq_actor q) (tq_reason q)))"

definition complete_order ::
    "externals \<Rightarrow> tenant_context option \<Rightarrow> string \<Rightarrow> transition_request \<Rightarrow> order_response http app_op" where
  "complete_order ext cur order_id q =
     on_order cur order_id (\<lambda>p. complete ext state_service cur p (tq_actor q) (tq_reason q))"

definition cancel_order ::
    "externals \<Rightarrow> tenant_context option \<Rightarrow> string \<Rightarrow> transition_request \<Rightarrow> order_response http app_op" where
  "cancel_order ext cur order_id q =
     on_order cur order_id (\<lambda>p. cancel ext state_service cur p (tq_actor q) (tq_reason q))"

section \<open>The endpoint as a whole\<close>

datatype order_call =
    CreateOrder create_order_request
  | GetOrder string
  | TransitionOrder string transition_request
  | CompleteOrder string transition_request
  | CancelOrder string transition_request

definition checked :: "bool \<Rightarrow> 'a http app_op \<Rightarrow> 'a http app_op" where
  "checked ok m = (if ok then m else op_return (HttpError 422))"

fun order_route ::
    "externals \<Rightarrow> tenant_context option \<Rightarrow> order_call \<Rightarrow> order_response http app_op" where
  "order_route ext cur (CreateOrder q) = checked (create_request_valid q) (create_order ext cur q)"
| "order_route ext cur (GetOrder i) = get_order cur i"
| "order_route ext cur (TransitionOrder i q) =
     checked (transition_request_valid q) (transition_order ext cur i q)"
| "order_route ext cur (CompleteOrder i q) =
     checked (transition_request_valid q) (complete_order ext cur i q)"
| "order_route ext cur (CancelOrder i q) =
     checked (transition_request_valid q) (cancel_order ext cur i q)"

text \<open>The handler as the framework calls it below the middleware, with the tenant bound.\<close>

definition order_handler ::
    "externals \<Rightarrow> order_call \<Rightarrow> request \<Rightarrow> (order_app scope, order_response http) op" where
  "order_handler ext call rq s =
     (case order_route ext (sc_current_tenant s) call (sc_app s) of
        (r, a) \<Rightarrow> (r, s\<lparr>sc_app := a\<rparr>))"

fun route_path :: "order_call \<Rightarrow> string" where
  "route_path (CreateOrder q) = ''/api/v1/orders/''"
| "route_path (GetOrder i) = ''/api/v1/orders/'' @ i"
| "route_path (TransitionOrder i q) = ''/api/v1/orders/'' @ i @ ''/transition''"
| "route_path (CompleteOrder i q) = ''/api/v1/orders/'' @ i @ ''/complete''"
| "route_path (CancelOrder i q) = ''/api/v1/orders/'' @ i @ ''/cancel''"

definition serve ::
    "externals \<Rightarrow> tenant_registry \<Rightarrow> request \<times> order_call \<Rightarrow> (order_app scope, order_response http response) op" where
  "serve ext reg rc =
     dispatch reg (order_handler ext (snd rc)) ((fst rc)\<lparr>rq_path := route_path (snd rc)\<rparr>)"

definition serve_step ::
    "externals \<Rightarrow> tenant_registry \<Rightarrow> request \<times> order_call \<Rightarrow> order_app scope \<Rightarrow> order_app scope" where
  "serve_step ext reg rc s = snd (serve ext reg rc s)"

definition initial_scope :: "order_app scope" where
  "initial_scope = \<lparr>sc_current_tenant = None, sc_app = initial_app\<rparr>"

section \<open>What a request does to the state\<close>

text \<open>The identifier of an order created when the counter stands at \<open>n\<close>.\<close>

definition order_id_at :: "externals \<Rightarrow> nat \<Rightarrow> string" where
  "order_id_at ext n = ''ORD-'' @ take 12 (uuid_hex (uuid_at ext n))"

text \<open>The effects an order request can have, as a step relation: nothing, a new stored draft of
  the bound tenant, a recorded transition of a stored and accessible order, and the two
  transitions with a further effect.\<close>

inductive order_effect :: "externals \<Rightarrow> tenant_context option \<Rightarrow> order_app \<Rightarrow> order_app \<Rightarrow> bool"
  for ext cur where
  unchanged: "order_effect ext cur s s"
| created: "order_effect ext cur s (logged ext actor ''order.created'' (or_order_id ord) details
      (s\<lparr>oa_ticks := Suc (Suc (Suc (oa_ticks s))), oa_heap := oa_heap s @ [ord],
         oa_orders := dict_set (or_order_id ord) (length (oa_heap s)) (oa_orders s)\<rparr>))"
    if "cur = Some c" "or_tenant_id ord = tn_tenant_id (tc_tenant c)"
      "or_order_id ord = order_id_at ext (oa_ticks s)" "or_status ord = DRAFT" "or_history ord = []"
      "or_commission_snapshot ord = None"
| recorded: "order_effect ext cur s (recorded ext p st actor reason s)"
    if "p < length (oa_heap s)" "may_access cur (oa_heap s ! p)"
      "st \<in> set (VALID_TRANSITIONS (or_status (oa_heap s ! p)))"
| settled: "order_effect ext cur s (settled ext p actor sp (recorded ext p COMPLETED actor reason s))"
    if "p < length (oa_heap s)" "may_access cur (oa_heap s ! p)"
      "COMPLETED \<in> set (VALID_TRANSITIONS (or_status (oa_heap s ! p)))"
      "calculate default_engine (or_total_amount_cents (oa_heap s ! p)) (tenant_rate cur) = Inr sp"
| cancelled: "order_effect ext cur s (logged ext actor ''order.cancelled'' t details
      (recorded ext p CANCELLED actor reason s))"
    if "p < length (oa_heap s)" "may_access cur (oa_heap s ! p)"
      "CANCELLED \<in> set (VALID_TRANSITIONS (or_status (oa_heap s ! p)))"

lemma create_order_cases:
  "create_order ext cur q =
     (case cur of
        None \<Rightarrow> op_return (HttpError 400)
      | Some c \<Rightarrow>
          op_bind (construct_order ext c q) (\<lambda>p.
          op_bind (register_order ext cur p (cq_customer_id q)) (\<lambda>_.
          op_bind (deref p) (\<lambda>ord.
          op_return (Answer (to_response ord))))))"
  by (simp add: create_order_def require_tenant_def split: option.split)

lemma state_service_simps [simp]:
  "os_engine state_service = default_engine" "os_refund_callback state_service = None"
  by (simp_all add: state_service_def OrderService_def)

lemma order_transition_effect:
  assumes "p < length (oa_heap s)" "may_access cur (oa_heap s ! p)"
  shows "order_effect ext cur s (snd (order_transition ext state_service cur p st actor r s))"
  using assms
  by (auto simp: order_transition_apply intro: order_effect.intros split: sum.split)

lemma cancel_effect:
  assumes "p < length (oa_heap s)" "may_access cur (oa_heap s ! p)"
  shows "order_effect ext cur s (snd (cancel ext state_service cur p actor r s))"
  using assms
  by (auto simp: cancel_def op_bind_apply op_simps order_transition_apply run_refund_callback_def
      intro: order_effect.intros)

lemma on_order_effect:
  assumes "app_ok ext s"
    and "\<And>p. p < length (oa_heap s) \<Longrightarrow> may_access cur (oa_heap s ! p) \<Longrightarrow>
      order_effect ext cur s (snd (call p s))"
  shows "order_effect ext cur s (snd (on_order cur i call s))"
proof -
  have "p < length (oa_heap s)" if "dict_get (oa_orders s) i = Some p" for p
    using assms(1) that by (simp add: app_ok_def)
  with assms(2) show ?thesis
    by (auto simp: on_order_def op_bind_apply op_simps find_by_id_apply or_conflict_def
        intro: order_effect.unchanged split: option.split prod.split sum.split http.split)
       (metis snd_conv)+
qed

lemma PaymentMode_valid: "create_request_valid q \<Longrightarrow> \<exists>m. PaymentMode (cq_payment_mode q) = Inr m"
  by (auto simp: create_request_valid_def PaymentMode_def)

lemma create_order_effect:
  assumes "create_request_valid q"
  shows "order_effect ext cur s (snd (create_order ext cur q s))"
proof (cases cur)
  case None
  then show ?thesis by (simp add: create_order_cases op_simps order_effect.unchanged)
next
  case (Some c)
  obtain mode where mode: "PaymentMode (cq_payment_mode q) = Inr mode"
    using PaymentMode_valid [OF assms] by blast
  define ord where "ord =
    \<lparr>or_order_id = order_id_at ext (oa_ticks s), or_tenant_id = tn_tenant_id (tc_tenant c),
     or_status = DRAFT, or_payment_mode = mode, or_customer_id = cq_customer_id q,
     or_items = map item_dict (cq_items q), or_total_amount_cents = cq_total_amount_cents q,
     or_currency = cq_currency q, or_country_code = cq_country_code q,
     or_branch_id = tn_branch_id (tc_tenant c), or_service_type = cq_service_type q,
     or_external_id = uuid_str (uuid_at ext (Suc (oa_ticks s))), or_commission_snapshot = None,
     or_created_at = now_at ext (Suc (Suc (oa_ticks s))), or_updated_at = [], or_history = []\<rparr>"
  define s1 where "s1 = s\<lparr>oa_ticks := Suc (Suc (Suc (oa_ticks s))), oa_heap := oa_heap s @ [ord]\<rparr>"
  have con: "construct_order ext c q s = (Inr (length (oa_heap s)), s1)"
    using mode by (simp add: construct_order_def op_bind_apply op_simps uuid4_def clock_now_def
        new_order_def s1_def ord_def order_id_at_def)
  have b: "bound_order cur ord = ord" by (simp add: bound_order_def Some ord_def)
  have acc: "may_access cur ord" by (simp add: may_access_def Some ord_def)
  have bt: "bind_tenant cur (length (oa_heap s)) s1 = (Inr (), s1)"
    using bind_tenant_apply [of "length (oa_heap s)" s1 cur] b by (simp add: s1_def)
  have "\<exists>details. snd (create_order ext cur q s) =
      logged ext (cq_customer_id q) ''order.created'' (or_order_id ord) details
        (s1\<lparr>oa_orders := dict_set (or_order_id ord) (length (oa_heap s)) (oa_orders s1)\<rparr>)"
    using acc bt con unfolding create_order_cases Some
    by (simp add: op_bind_apply op_simps register_order_def repo_save_apply) (auto simp: s1_def)
  moreover have "order_effect ext cur s (logged ext a ''order.created'' (or_order_id ord) details
      (s1\<lparr>oa_orders := dict_set (or_order_id ord) (length (oa_heap s)) (oa_orders s1)\<rparr>))" for a details
    using order_effect.created [of cur c ord ext s a details] Some by (simp add: s1_def ord_def)
  ultimately show ?thesis by auto
qed

lemma route_effect:
  assumes "app_ok ext s"
  shows "order_effect ext cur s (snd (order_route ext cur call s))"
proof (cases call)
  case (CreateOrder q)
  then show ?thesis
    using create_order_effect [of q ext cur s] by (simp add: checked_def op_simps order_effect.unchanged)
next
  case (GetOrder i)
  then show ?thesis
    by (simp add: get_order_def op_bind_apply op_simps find_by_id_apply order_effect.unchanged
        split: option.split)
next
  case (TransitionOrder i q)
  then show ?thesis
    using on_order_effect [OF assms] order_transition_effect
    by (auto simp: checked_def transition_order_def op_simps op_bind_apply
        intro!: on_order_effect [OF assms] order_effect.unchanged order_transition_effect
        split: sum.split)
next
  case (CompleteOrder i q)
  then show ?thesis
    by (auto simp: checked_def complete_order_def complete_def op_simps
        intro!: on_order_effect [OF assms] order_effect.unchanged order_transition_effect)
next
  case (CancelOrder i q)
  then show ?thesis
    by (auto simp: checked_def cancel_order_def op_simps
        intro!: on_order_effect [OF assms] order_effect.unchanged cancel_effect)
qed

section \<open>The books behind the endpoint\<close>

definition entries_of :: "order_app \<Rightarrow> string \<Rightarrow> ledger_entry list" where
  "entries_of s oid = filter (\<lambda>e. le_order_id e = oid) (cl_entries (oa_ledger s))"

definition changes_of :: "order_app \<Rightarrow> string \<Rightarrow> audit_entry list" where
  "changes_of s oid =
     filter (\<lambda>e. ae_event_type e = ''order.status_changed'' \<and> ae_transaction_ref e = oid)
       (al_entries (oa_audit s))"

text \<open>What ledger and audit trail say of one order.\<close>

definition order_booked :: "order_app \<Rightarrow> order \<Rightarrow> bool" where
  "order_booked s ord \<longleftrightarrow>
     length (changes_of s (or_order_id ord)) = length (or_history ord) \<and>
     (case or_commission_snapshot ord of
        None \<Rightarrow> entries_of s (or_order_id ord) = []
      | Some sn \<Rightarrow> \<exists>e. entries_of s (or_order_id ord) = [e] \<and>
          le_gross_amount_cents e = or_total_amount_cents ord \<and>
          le_platform_fee_cents e = sn_platform_fee_cents sn \<and>
          le_tenant_settlement_cents e = sn_tenant_settlement_cents sn \<and>
          le_tenant_id e = or_tenant_id ord)"

definition ids_drawn :: "externals \<Rightarrow> nat \<Rightarrow> string list \<Rightarrow> bool" where
  "ids_drawn ext n oids \<longleftrightarrow> (\<forall>oid \<in> set oids. \<exists>m < n. oid = order_id_at ext m)"

lemma ids_drawn_mono: "ids_drawn ext m oids \<Longrightarrow> m \<le> n \<Longrightarrow> ids_drawn ext n oids"
  by (meson ids_drawn_def less_le_trans)

definition api_ok :: "externals \<Rightarrow> order_app \<Rightarrow> bool" where
  "api_ok ext s \<longleftrightarrow>
     app_ok ext s \<and> distinct (map or_order_id (oa_heap s)) \<and>
     ids_drawn ext (oa_ticks s) (map or_order_id (oa_heap s)) \<and>
     (\<forall>e \<in> set (cl_entries (oa_ledger s)). le_order_id e \<in> set (map or_order_id (oa_heap s))) \<and>
     (\<forall>e \<in> set (al_entries (oa_audit s)). ae_event_type e = ''order.status_changed'' \<longrightarrow>
        ae_transaction_ref e \<in> set (map or_order_id (oa_heap s))) \<and>
     (\<forall>i < length (oa_heap s). order_booked s (oa_heap s ! i))"

text \<open>No two of the first \<open>k\<close> readings collide as order identifiers, of which there are
  16 to the power 12.\<close>

definition fresh_ids :: "externals \<Rightarrow> nat \<Rightarrow> bool" where
  "fresh_ids ext k \<longleftrightarrow> (\<forall>m < k. \<forall>n < k. order_id_at ext m = order_id_at ext n \<longrightarrow> m = n)"

lemma fresh_ids_mono: "fresh_ids ext k \<Longrightarrow> j \<le> k \<Longrightarrow> fresh_ids ext j"
  by (meson fresh_ids_def less_le_trans)

lemma ticks_simps [simp]:
  "oa_ticks (logged ext a e t d s) = Suc (Suc (oa_ticks s))"
  "oa_ticks (moved ext p st actor r s) = Suc (oa_ticks s)"
  "oa_ticks (ledgered ext ord sp rate s) = Suc (Suc (oa_ticks s))"
  by (simp_all add: logged_def app_log_def uuid4_def clock_now_def op_simps moved_def ledgered_def)

lemma effect_app_ok:
  assumes "order_effect ext cur s s'" "app_ok ext s"
  shows "app_ok ext s' \<and> app_le s s'"
  using assms
proof (induction rule: order_effect.induct)
  case (created c ord s actor details)
  have "order_ok ord" using created(4-6) by (simp add: order_ok_def)
  then have "app_moves ext s (s\<lparr>oa_ticks := Suc (Suc (Suc (oa_ticks s))), oa_heap := oa_heap s @ [ord],
         oa_orders := dict_set (or_order_id ord) (length (oa_heap s)) (oa_orders s)\<rparr>)"
    by (auto simp: app_moves_def app_ok_def app_le_def nth_append dict_get_set distinct_update less_Suc_eq
        split: if_splits)
  from app_moves_trans [OF this app_moves_logged] created(7) show ?case by (simp add: app_moves_def)
next
  case (recorded p s st actor reason)
  then show ?case using app_moves_recorded [of p s st ext actor reason] by (simp add: app_moves_def)
next
  case (settled p s sp actor reason)
  have "app_moves ext s (snd (order_transition ext state_service cur p COMPLETED actor reason s))"
    using settled(1) by (rule order_transition_moves)
  with settled show ?case by (simp add: order_transition_apply app_moves_def)
next
  case (cancelled p s actor t details reason)
  then show ?case
    using app_moves_trans [OF app_moves_recorded [of p s CANCELLED ext actor reason] app_moves_logged]
    by (simp add: app_moves_def)
qed simp

lemma changes_logged:
  "changes_of (logged ext a e t d s) oid =
     changes_of s oid @ (if e = ''order.status_changed'' \<and> t = oid
       then [logged_entry (logged_call ext a e t d s) (al_last_hash (oa_audit s))] else [])"
  by (simp add: changes_of_def al_entries_log logged_entry_def)

lemma entries_simps [simp]:
  "entries_of (logged ext a e t d s) oid = entries_of s oid"
  "entries_of (moved ext p st actor r s) oid = entries_of s oid"
  "entries_of (recorded ext p st actor r s) oid = entries_of s oid"
  "changes_of (moved ext p st actor r s) oid = changes_of s oid"
  "changes_of (ledgered ext ord sp rate s) oid = changes_of s oid"
  "changes_of (s\<lparr>oa_heap := h\<rparr>) oid = changes_of s oid"
  "changes_of (s\<lparr>oa_orders := od\<rparr>) oid = changes_of s oid"
  "entries_of (s\<lparr>oa_heap := h\<rparr>) oid = entries_of s oid"
  by (simp_all add: entries_of_def changes_of_def moved_def recorded_def ledgered_def Let_def)

lemma ids_moved [simp]:
  "map or_order_id (oa_heap (moved ext p st actor r s)) = map or_order_id (oa_heap s)"
  by (cases "p < length (oa_heap s)")
    (simp_all add: moved_def map_update list_update_same_conv list_update_beyond)

lemma length_moved [simp]: "length (oa_heap (moved ext p st actor r s)) = length (oa_heap s)"
  by (simp add: moved_def)

lemma nth_moved:
  "i < length (oa_heap s) \<Longrightarrow> oa_heap (moved ext p st actor r s) ! i =
     (if i = p then moved_order (now_at ext (oa_ticks s)) st actor r (oa_heap s ! p) else oa_heap s ! i)"
  by (simp add: moved_def nth_list_update)

lemma changes_recorded:
  assumes "p < length (oa_heap s)"
  shows "length (changes_of (recorded ext p st actor r s) oid) =
    length (changes_of s oid) + (if oid = or_order_id (oa_heap s ! p) then 1 else 0)"
  using assms by (auto simp: recorded_def Let_def changes_logged nth_moved)

lemma api_ok_recorded:
  assumes "api_ok ext s" "p < length (oa_heap s)"
    and "st \<in> set (VALID_TRANSITIONS (or_status (oa_heap s ! p)))"
  shows "api_ok ext (recorded ext p st actor r s)"
proof -
  let ?s = "recorded ext p st actor r s"
  have app: "app_ok ext ?s"
    using app_moves_recorded [OF assms(2,3), of ext actor r] assms(1)
    by (simp add: app_moves_def api_ok_def)
  have "order_booked ?s (oa_heap ?s ! i)" if i: "i < length (oa_heap s)" for i
  proof -
    have "order_booked s (oa_heap s ! i)" using assms(1) i by (simp add: api_ok_def)
    moreover have "or_order_id (oa_heap s ! i) = or_order_id (oa_heap s ! p) \<longleftrightarrow> i = p"
      using assms(1,2) i nth_eq_iff_index_eq [of "map or_order_id (oa_heap s)" i p]
      by (simp add: api_ok_def)
    ultimately show ?thesis
      using assms(2) i
      by (auto simp: order_booked_def changes_recorded nth_moved moved_order_def split: option.splits)
  qed
  moreover have "oa_ticks s \<le> oa_ticks ?s" "oa_ledger ?s = oa_ledger s"
    by (simp_all add: recorded_def Let_def moved_def)
  moreover have "or_order_id (oa_heap (moved ext p st actor r s) ! p) \<in> or_order_id ` set (oa_heap s)"
    using assms(2) by (simp add: nth_moved)
  then have "\<forall>e \<in> set (al_entries (oa_audit ?s)). ae_event_type e = ''order.status_changed'' \<longrightarrow>
      ae_transaction_ref e \<in> set (map or_order_id (oa_heap s))"
    using assms(1) by (auto simp: recorded_def Let_def al_entries_log logged_entry_def api_ok_def moved_def)
  ultimately show ?thesis
    using assms(1) app unfolding api_ok_def recorded_heap ids_moved length_moved
    by (auto intro: ids_drawn_mono)
qed

lemma api_ok_logged:
  assumes "api_ok ext s" "e \<noteq> ''order.status_changed''"
  shows "api_ok ext (logged ext a e t d s)"
proof -
  have app: "app_ok ext (logged ext a e t d s)"
    using assms(1) app_moves_logged [of ext s a e t d] by (simp add: app_moves_def api_ok_def)
  moreover have "order_booked (logged ext a e t d s) ord = order_booked s ord" for ord
    using assms(2) by (simp add: order_booked_def changes_logged split: option.split)
  moreover have "oa_ticks s \<le> oa_ticks (logged ext a e t d s)" by simp
  ultimately show ?thesis
    using assms unfolding api_ok_def
    by (auto simp: al_entries_log logged_entry_def intro: ids_drawn_mono)
qed

lemma api_ok_settled:
  assumes ok: "api_ok ext s" and p: "p < length (oa_heap s)"
    and none: "or_commission_snapshot (oa_heap s ! p) = None"
    and st: "or_status (oa_heap s ! p) = COMPLETED"
    and calc: "calculate eng (or_total_amount_cents (oa_heap s ! p)) tr = Inr sp"
  shows "api_ok ext (settled ext p actor sp s)"
proof -
  let ?o = "(oa_heap s ! p)\<lparr>or_commission_snapshot := Some (snapshot_of sp)\<rparr>"
  let ?s = "settled ext p actor sp s"
  have app: "app_ok ext ?s"
    using app_moves_settled [OF p st none calc, of ext actor] ok by (simp add: app_moves_def api_ok_def)
  have heap: "oa_heap ?s = (oa_heap s)[p := ?o]"
    by (simp add: settled_def Let_def ledgered_def)
  have ids: "map or_order_id (oa_heap ?s) = map or_order_id (oa_heap s)"
    using p by (simp add: heap map_update list_update_same_conv)
  obtain e where ledger: "cl_entries (oa_ledger ?s) = cl_entries (oa_ledger s) @ [e]"
    and e: "le_order_id e = or_order_id (oa_heap s ! p)"
      "le_gross_amount_cents e = or_total_amount_cents (oa_heap s ! p)"
      "le_platform_fee_cents e = cs_platform_fee_cents sp"
      "le_tenant_settlement_cents e = cs_tenant_settlement_cents sp"
      "le_tenant_id e = or_tenant_id (oa_heap s ! p)"
    using calculate_sums [OF calc]
    by (simp add: settled_def Let_def ledgered_def ledger_log.items_push)
  have entries: "entries_of ?s oid = entries_of s oid @ (if oid = or_order_id (oa_heap s ! p) then [e] else [])" for oid
    using ledger e(1) by (auto simp: entries_of_def)
  have changes: "changes_of ?s oid = changes_of s oid" for oid
    by (simp add: settled_def Let_def changes_logged)
  have "order_booked ?s (oa_heap ?s ! i)" if i: "i < length (oa_heap s)" for i
  proof -
    have old: "order_booked s (oa_heap s ! i)" using ok i by (simp add: api_ok_def)
    have inj: "or_order_id (oa_heap s ! i) = or_order_id (oa_heap s ! p) \<longleftrightarrow> i = p"
      using ok p i nth_eq_iff_index_eq [of "map or_order_id (oa_heap s)" i p] by (simp add: api_ok_def)
    show ?thesis
    proof (cases "i = p")
      case True
      with old none e p show ?thesis
        by (simp add: order_booked_def heap entries changes snapshot_of_def)
    next
      case False
      with old inj show ?thesis
        by (simp add: order_booked_def heap entries changes split: option.splits)
    qed
  qed
  moreover have "oa_ticks s \<le> oa_ticks ?s" by (simp add: settled_def Let_def)
  moreover have "\<forall>a \<in> set (al_entries (oa_audit ?s)). ae_event_type a = ''order.status_changed'' \<longrightarrow>
      ae_transaction_ref a \<in> set (map or_order_id (oa_heap s))"
    using ok by (auto simp: settled_def Let_def al_entries_log logged_entry_def api_ok_def ledgered_def)
  moreover have "\<forall>x \<in> set (cl_entries (oa_ledger ?s)). le_order_id x \<in> set (map or_order_id (oa_heap s))"
    using ok p e(1) ledger by (auto simp: api_ok_def)
  moreover have "length (oa_heap ?s) = length (oa_heap s)" by (simp add: heap)
  ultimately show ?thesis
    using ok app unfolding api_ok_def ids by (auto intro: ids_drawn_mono)
qed

lemma api_ok_created:
  assumes ok: "api_ok ext s" and app: "app_ok ext s'" and fresh: "fresh_ids ext (Suc (oa_ticks s))"
    and oid: "or_order_id ord = order_id_at ext (oa_ticks s)"
    and new: "or_history ord = []" "or_commission_snapshot ord = None"
    and s': "oa_heap s' = oa_heap s @ [ord]" "oa_ledger s' = oa_ledger s" "oa_audit s' = oa_audit s"
      "oa_ticks s' = Suc n" "oa_ticks s \<le> n"
  shows "api_ok ext s'"
proof -
  have no: "or_order_id ord \<notin> set (map or_order_id (oa_heap s))"
    using ok fresh oid unfolding api_ok_def ids_drawn_def fresh_ids_def
    by (metis less_SucI less_irrefl lessI)
  then have "entries_of s (or_order_id ord) = []" "changes_of s (or_order_id ord) = []"
    using ok unfolding entries_of_def changes_of_def api_ok_def filter_empty_conv by metis+
  then have "order_booked s' ord"
    using new s' by (simp add: order_booked_def entries_of_def changes_of_def)
  moreover have "entries_of s' = entries_of s" "changes_of s' = changes_of s"
    using s' by (simp_all add: entries_of_def changes_of_def fun_eq_iff)
  then have "order_booked s' x = order_booked s x" for x
    by (simp add: order_booked_def split: option.split)
  moreover have "ids_drawn ext (Suc n) (map or_order_id (oa_heap s))"
    using ok s'(5) by (auto simp: api_ok_def intro: ids_drawn_mono)
  moreover have "ids_drawn ext (Suc n) [or_order_id ord]"
    using oid s'(5) by (auto simp: ids_drawn_def intro: exI [of _ "oa_ticks s"])
  ultimately have "ids_drawn ext (Suc n) (map or_order_id (oa_heap s'))"
    "\<forall>i < length (oa_heap s'). order_booked s' (oa_heap s' ! i)"
    using ok s'(1) by (auto simp: ids_drawn_def api_ok_def nth_append less_Suc_eq)
  then show ?thesis
    using ok app no s' unfolding api_ok_def by auto
qed

lemma effect_ticks: "order_effect ext cur s s' \<Longrightarrow> oa_ticks s \<le> oa_ticks s'"
  by (induction rule: order_effect.induct) (simp_all add: recorded_def settled_def Let_def)

lemma effect_api_ok:
  assumes "order_effect ext cur s s'" "api_ok ext s" "fresh_ids ext (oa_ticks s')"
  shows "api_ok ext s'"
  using assms
proof (induction rule: order_effect.induct)
  case (created c ord s actor details)
  let ?s = "s\<lparr>oa_ticks := Suc (Suc (Suc (oa_ticks s))), oa_heap := oa_heap s @ [ord],
         oa_orders := dict_set (or_order_id ord) (length (oa_heap s)) (oa_orders s)\<rparr>"
  have "app_ok ext s" using created(7) by (simp add: api_ok_def)
  then have "app_ok ext ?s"
    using created(4-6)
    by (auto simp: app_ok_def order_ok_def nth_append dict_get_set distinct_update less_Suc_eq
        split: if_splits)
  have "fresh_ids ext (Suc (oa_ticks s))" using created(8) by (rule fresh_ids_mono) simp
  with created(7) \<open>app_ok ext ?s\<close> have "api_ok ext ?s"
    using created(3,5,6)
    by (rule api_ok_created [where n = "Suc (Suc (oa_ticks s))"]) simp_all
  then show ?case by (intro api_ok_logged) simp_all
next
  case (recorded p s st actor reason)
  then show ?case by (intro api_ok_recorded)
next
  case (settled p s sp actor reason)
  let ?r = "recorded ext p COMPLETED actor reason s"
  have "order_ok (oa_heap s ! p)"
    using settled(1,5) by (simp add: api_ok_def app_ok_def list_all_length)
  with terminal_no_transition [OF settled(3)] have "or_commission_snapshot (oa_heap s ! p) = None"
    by (auto simp: order_ok_def)
  with settled show ?case
    by (intro api_ok_settled [where eng = default_engine and tr = "tenant_rate cur"] api_ok_recorded)
      (simp_all add: nth_moved)
next
  case (cancelled p s actor t details reason)
  then show ?case by (intro api_ok_logged api_ok_recorded) simp_all
qed

section \<open>The endpoint under the middleware\<close>

lemma resolve_path [simp]: "resolve reg (rq\<lparr>rq_path := x\<rparr>) = resolve reg rq"
  by (simp add: resolve_def subdomain_slug_def Let_def)

lemma route_not_exempt: "\<not> exempt (rq\<lparr>rq_path := route_path call\<rparr>)"
  by (cases call) (simp_all add: exempt_def EXEMPT_PATH_PREFIXES_def str_startswith_def)

lemma resolve_error: "resolve reg rq = Inl e \<Longrightarrow> e = TenantNotFoundError"
  by (auto simp: resolve_def Let_def get_by_slug_def get_by_id_def
      split: if_splits option.splits sum.splits)

lemma resolve_tenant:
  assumes "registry_ok reg" "resolve reg rq = Inr c"
  shows "tc_tenant c \<in> set (tenants reg)"
proof -
  from assms(2) obtain k where "get_by_slug reg k = Inr (tc_tenant c) \<or> get_by_id reg k = Inr (tc_tenant c)"
    by (force simp: resolve_def Let_def res_bind_eq_Inr split: if_splits)
  then have "\<exists>k. dict_get (tr_by_id reg) k = Some (tc_tenant c)"
    using assms(1) unfolding get_by_slug_Inr get_by_id_Inr registry_ok_def by blast
  with assms(1) show ?thesis unfolding registry_ok_def tenants_def by (simp add: dict_get_values)
qed

lemma serve_apply:
  "serve ext reg (rq, call) s =
     (case resolve reg rq of
        Inl e \<Rightarrow> (Inr (TenantRejected 400), s)
      | Inr c \<Rightarrow>
          (case order_route ext (Some c) call (sc_app s) of
             (r, a) \<Rightarrow> (map_sum id Downstream r, s\<lparr>sc_current_tenant := None, sc_app := a\<rparr>)))"
  using route_not_exempt [of call rq] resolve_error [of reg rq]
  by (auto simp: serve_def dispatch_def call_downstream_def op_bind_def op_return_def order_handler_def
      set_current_tenant_def split: sum.split prod.split)

definition registry_named :: "tenant_registry \<Rightarrow> bool" where
  "registry_named reg \<longleftrightarrow> registry_ok reg \<and> (\<forall>t \<in> set (tenants reg). tn_tenant_id t \<noteq> [])"

text \<open>The invariant of the running endpoint, together with what it assumes of its environment.\<close>

definition endpoint_ok :: "externals \<Rightarrow> tenant_registry \<Rightarrow> order_app scope \<Rightarrow> bool" where
  "endpoint_ok ext reg s \<longleftrightarrow>
     registry_named reg \<and> app_ok ext (sc_app s) \<and> sc_current_tenant s = None \<and>
     (\<forall>ord \<in> set (oa_heap (sc_app s)). or_tenant_id ord \<noteq> []) \<and>
     (fresh_ids ext (oa_ticks (sc_app s)) \<longrightarrow> api_ok ext (sc_app s))"

definition endpoint_le :: "order_app scope \<Rightarrow> order_app scope \<Rightarrow> bool" where
  "endpoint_le s s' \<longleftrightarrow> app_le (sc_app s) (sc_app s')"

text \<open>What an effect does to the orders of each tenant.\<close>

lemma effect_tenants:
  assumes "order_effect ext (Some c) s s'"
  shows "length (oa_heap s) \<le> length (oa_heap s') \<and>
    (\<forall>i < length (oa_heap s). or_tenant_id (oa_heap s' ! i) = or_tenant_id (oa_heap s ! i) \<and>
       (may_access (Some c) (oa_heap s ! i) \<or> oa_heap s' ! i = oa_heap s ! i)) \<and>
    (\<forall>i. length (oa_heap s) \<le> i \<longrightarrow> i < length (oa_heap s') \<longrightarrow>
       or_tenant_id (oa_heap s' ! i) = tn_tenant_id (tc_tenant c))"
  using assms
  by (induction rule: order_effect.induct)
    (auto simp: nth_append less_Suc_eq moved_def nth_list_update settled_def Let_def ledgered_def)

lemma serve_step_ok:
  assumes "endpoint_ok ext reg s"
  shows "endpoint_ok ext reg (serve_step ext reg rc s) \<and> endpoint_le s (serve_step ext reg rc s)"
proof (cases rc)
  case (Pair rq call)
  show ?thesis
  proof (cases "resolve reg rq")
    case (Inl e)
    with assms Pair show ?thesis by (simp add: serve_step_def serve_apply endpoint_le_def)
  next
    case (Inr c)
    let ?a = "snd (order_route ext (Some c) call (sc_app s))"
    have app: "app_ok ext (sc_app s)" using assms by (simp add: endpoint_ok_def)
    then have eff: "order_effect ext (Some c) (sc_app s) ?a" by (rule route_effect)
    have api: "api_ok ext ?a" if "fresh_ids ext (oa_ticks ?a)"
    proof -
      have "fresh_ids ext (oa_ticks (sc_app s))" using that effect_ticks [OF eff] by (rule fresh_ids_mono)
      with assms effect_api_ok [OF eff _ that] show ?thesis by (simp add: endpoint_ok_def)
    qed
    note t = effect_tenants [OF eff]
    have "tn_tenant_id (tc_tenant c) \<noteq> []"
      using assms resolve_tenant [OF _ Inr] by (simp add: endpoint_ok_def registry_named_def)
    have "or_tenant_id (oa_heap ?a ! i) \<noteq> []" if "i < length (oa_heap ?a)" for i
    proof (cases "i < length (oa_heap (sc_app s))")
      case True
      with t assms show ?thesis by (simp add: endpoint_ok_def)
    next
      case False
      with t that \<open>tn_tenant_id (tc_tenant c) \<noteq> []\<close> show ?thesis by simp
    qed
    then have "\<forall>ord \<in> set (oa_heap ?a). or_tenant_id ord \<noteq> []" by (simp add: all_set_conv_all_nth)
    moreover have "serve_step ext reg rc s = s\<lparr>sc_current_tenant := None, sc_app := ?a\<rparr>"
      using Pair Inr by (simp add: serve_step_def serve_apply split: prod.split)
    ultimately show ?thesis
      using assms api effect_app_ok [OF eff app] by (simp add: endpoint_ok_def endpoint_le_def)
  qed
qed

interpretation endpoint: inv_machine "serve_step ext reg" "endpoint_ok ext reg" endpoint_le for ext reg
  using serve_step_ok by unfold_locales (auto simp: endpoint_le_def intro: app_le_trans)

lemma endpoint_ok_initial:
  "registry_named reg \<Longrightarrow> endpoint_ok ext reg initial_scope"
  using app_ok_initial [of ext]
  by (simp add: endpoint_ok_def api_ok_def initial_scope_def ids_drawn_def)
     (simp add: initial_app_def AuditLogger_def empty_ledger_def)

section \<open>Properties\<close>

lemma on_order_answer:
  assumes "app_ok ext s" "on_order cur i call s = (Inr (Answer r), s')"
  obtains p where "p < length (oa_heap s)" "may_access cur (oa_heap s ! p)" "r = to_response (oa_heap s' ! p)"
proof -
  from assms(2) obtain p c where p: "dict_get (oa_orders s) i = Some p" "may_access cur (oa_heap s ! p)"
    and c: "call p s = (Inr c, s')" "r = to_response (oa_heap s' ! p)"
    by (auto simp: on_order_def op_bind_apply op_simps find_by_id_apply or_conflict_def
        split: option.splits if_splits prod.splits sum.splits http.splits)
  with assms(1) show ?thesis by (intro that) (auto simp: app_ok_def)
qed

lemma route_answer:
  assumes "app_ok ext s" "order_route ext (Some c) call s = (Inr (Answer r), s')"
  shows "\<exists>p. r = to_response (oa_heap s' ! p) \<and> p < length (oa_heap s') \<and>
    (p < length (oa_heap s) \<longrightarrow> may_access (Some c) (oa_heap s ! p))"
proof -
  have len: "length (oa_heap s) \<le> length (oa_heap s')"
    using effect_tenants [OF route_effect [OF assms(1), of "Some c" call]] assms(2) by simp
  have answered: ?thesis if "on_order (Some c) i f s = (Inr (Answer r), s')" for i f
  proof -
    from assms(1) that obtain p where "p < length (oa_heap s)" "may_access (Some c) (oa_heap s ! p)"
      "r = to_response (oa_heap s' ! p)" by (rule on_order_answer)
    with len show ?thesis by (intro exI [of _ p]) simp
  qed
  show ?thesis
  proof (cases call)
    case (CreateOrder q)
    with assms(2) have valid: "create_request_valid q"
      and run: "create_order ext (Some c) q s = (Inr (Answer r), s')"
      by (auto simp: checked_def op_simps split: if_splits)
    then obtain p where "r = to_response (oa_heap s' ! p)" "p = length (oa_heap s)"
      using PaymentMode_valid [OF valid]
      by (auto simp: create_order_cases construct_order_def register_order_def op_bind_apply op_simps
          uuid4_def clock_now_def new_order_def bind_tenant_apply repo_save_apply split: if_splits)
    moreover have "length (oa_heap s) < length (oa_heap s')"
      using run PaymentMode_valid [OF valid]
      by (auto simp: create_order_cases construct_order_def register_order_def op_bind_apply op_simps
          uuid4_def clock_now_def new_order_def bind_tenant_apply repo_save_apply split: if_splits)
    ultimately show ?thesis by auto
  next
    case (GetOrder i)
    with assms show ?thesis
      by (auto simp: get_order_def op_bind_apply op_simps find_by_id_apply app_ok_def
          split: option.splits if_splits)
  next
    case (TransitionOrder i q)
    with assms(2) have "transition_order ext (Some c) i q s = (Inr (Answer r), s')"
      by (auto simp: checked_def op_simps split: if_splits)
    then show ?thesis unfolding transition_order_def by (rule answered)
  next
    case (CompleteOrder i q)
    with assms(2) have "complete_order ext (Some c) i q s = (Inr (Answer r), s')"
      by (auto simp: checked_def op_simps split: if_splits)
    then show ?thesis unfolding complete_order_def by (rule answered)
  next
    case (CancelOrder i q)
    with assms(2) have "cancel_order ext (Some c) i q s = (Inr (Answer r), s')"
      by (auto simp: checked_def op_simps split: if_splits)
    then show ?thesis unfolding cancel_order_def by (rule answered)
  qed
qed

text \<open>C1: Tenant isolation of the order API. After any sequence of requests of any tenants, a
  request that resolves to no tenant gets a 400 answer and changes nothing; one that resolves to
  a tenant sees and changes only that tenant's orders: an answered order belongs to it, every
  order of another tenant is left exactly as it was, and every order it creates is its own.\<close>

theorem api_tenant_isolation:
  assumes "registry_named reg"
    and "s = fold (serve_step ext reg) rcs initial_scope"
    and "serve ext reg (rq, call) s = (res, s')"
  shows "case resolve reg rq of
      Inl _ \<Rightarrow> res = Inr (TenantRejected 400) \<and> s' = s
    | Inr c \<Rightarrow>
        (\<forall>r. res = Inr (Downstream (Answer r)) \<longrightarrow> rs_tenant_id r = tn_tenant_id (tc_tenant c)) \<and>
        (\<forall>i < length (oa_heap (sc_app s)).
           or_tenant_id (oa_heap (sc_app s) ! i) \<noteq> tn_tenant_id (tc_tenant c) \<longrightarrow>
           oa_heap (sc_app s') ! i = oa_heap (sc_app s) ! i) \<and>
        (\<forall>i. length (oa_heap (sc_app s)) \<le> i \<longrightarrow> i < length (oa_heap (sc_app s')) \<longrightarrow>
           or_tenant_id (oa_heap (sc_app s') ! i) = tn_tenant_id (tc_tenant c))"
proof (cases "resolve reg rq")
  case (Inl e)
  with assms(3) show ?thesis by (simp add: serve_apply)
next
  case (Inr c)
  have ok: "endpoint_ok ext reg s"
    unfolding assms(2) using endpoint_ok_initial [OF assms(1)] by (rule endpoint.inv_run)
  then have app: "app_ok ext (sc_app s)" by (simp add: endpoint_ok_def)
  obtain h a where run: "order_route ext (Some c) call (sc_app s) = (h, a)" by force
  with assms(3) Inr have res: "res = map_sum id Downstream h" "sc_app s' = a"
    by (auto simp: serve_apply)
  have eff: "order_effect ext (Some c) (sc_app s) a" using route_effect [OF app, of "Some c" call] run by simp
  note t = effect_tenants [OF eff]
  have mine: "or_tenant_id (oa_heap (sc_app s) ! i) = tn_tenant_id (tc_tenant c)"
    if "i < length (oa_heap (sc_app s))" "may_access (Some c) (oa_heap (sc_app s) ! i)" for i
    using that ok by (auto simp: may_access_def endpoint_ok_def)
  have "rs_tenant_id r = tn_tenant_id (tc_tenant c)" if "res = Inr (Downstream (Answer r))" for r
  proof -
    from that res have "h = Inr (Answer r)" by (cases h) auto
    with route_answer [OF app, of c call r a] run obtain p where "r = to_response (oa_heap a ! p)"
      "p < length (oa_heap a)" "p < length (oa_heap (sc_app s)) \<longrightarrow> may_access (Some c) (oa_heap (sc_app s) ! p)"
      by auto
    with t mine [of p] show ?thesis by (cases "p < length (oa_heap (sc_app s))") (simp_all add: to_response_def)
  qed
  moreover have "\<forall>i < length (oa_heap (sc_app s)).
      or_tenant_id (oa_heap (sc_app s) ! i) \<noteq> tn_tenant_id (tc_tenant c) \<longrightarrow>
      oa_heap a ! i = oa_heap (sc_app s) ! i" using t mine by blast
  ultimately show ?thesis using t res Inr by simp
qed

lemma sample_registry_named: "registry_named sample_registry"
proof -
  have "registry_ok sample_registry"
    unfolding sample_registry_def by (rule registry_machine.inv_run) simp
  moreover have "list_all (\<lambda>t. tn_tenant_id t \<noteq> []) (tenants sample_registry)" by code_simp
  ultimately show ?thesis by (simp add: registry_named_def list_all_iff)
qed

lemma sample_resolve: "resolve sample_registry sample_request = Inr sample_context"
  by code_simp

definition sample_create :: create_order_request where
  "sample_create =
     \<lparr>cq_customer_id = ''c1'', cq_items = [], cq_total_amount_cents = 1999, cq_currency = ''EUR'',
      cq_country_code = ''EE'', cq_payment_mode = ''mixed'', cq_service_type = []\<rparr>"

lemma sample_create_run:
  "\<exists>r s'. serve ext sample_registry (sample_request, CreateOrder sample_create) initial_scope =
     (Inr (Downstream (Answer r)), s') \<and> length (oa_heap (sc_app s')) = 1 \<and> oa_ticks (sc_app s') = 5"
proof -
  have "create_request_valid sample_create" "PaymentMode ''mixed'' = Inr MIXED"
    by (simp_all add: create_request_valid_def sample_create_def PaymentMode_def)
  then show ?thesis
    by (simp add: serve_apply sample_resolve checked_def create_order_cases
        construct_order_def register_order_def op_bind_apply op_simps uuid4_def clock_now_def
        new_order_def bind_tenant_apply repo_save_apply bound_order_def may_access_def sample_create_def
        initial_scope_def initial_app_def)
qed

theorem api_tenant_isolation_witness:
  "\<exists>r s'. serve sample_externals sample_registry (sample_request, CreateOrder sample_create) initial_scope =
     (Inr (Downstream (Answer r)), s') \<and> rs_tenant_id r = uuid_str 7"
proof -
  obtain r s' where run: "serve sample_externals sample_registry (sample_request, CreateOrder sample_create)
      initial_scope = (Inr (Downstream (Answer r)), s')"
    using sample_create_run by blast
  have "initial_scope = fold (serve_step sample_externals sample_registry) [] initial_scope" by simp
  from api_tenant_isolation [OF sample_registry_named this run] run show ?thesis
    by (simp add: sample_resolve sample_context_def sample_tenant_def)
qed

text \<open>A sum over a list, regrouped by a key.\<close>

lemma sum_by_key:
  fixes g :: "'e \<Rightarrow> int"
  assumes "distinct ks" "\<And>e. e \<in> set es \<Longrightarrow> f e \<in> set ks"
  shows "sum_list (map g es) = (\<Sum>k\<leftarrow>ks. sum_list (map g (filter (\<lambda>e. f e = k) es)))"
  using assms(2)
proof (induction es)
  case (Cons e es)
  have "(\<Sum>k\<leftarrow>ks. sum_list (map g (filter (\<lambda>x. f x = k) (e # es)))) =
      (\<Sum>k\<leftarrow>ks. (if k = f e then g e else 0) + sum_list (map g (filter (\<lambda>x. f x = k) es)))"
    by (rule arg_cong [of _ _ sum_list], rule map_cong) auto
  also have "\<dots> = (\<Sum>k\<leftarrow>ks. if k = f e then g e else 0) +
      (\<Sum>k\<leftarrow>ks. sum_list (map g (filter (\<lambda>x. f x = k) es)))"
    by (simp add: sum_list_addf)
  also have "(\<Sum>k\<leftarrow>ks. if k = f e then g e else 0) = g e"
    using assms(1) Cons.prems [of e] by (simp add: sum_list_distinct_conv_sum_set)
  finally show ?case using Cons by simp
qed simp

definition settled_fee :: "order \<Rightarrow> int" where
  "settled_fee ord =
     (case or_commission_snapshot ord of None \<Rightarrow> 0 | Some sn \<Rightarrow> sn_platform_fee_cents sn)"

text \<open>C2: The books of the order API are exact. After any sequence of requests of any tenants, as
  long as no two generated order identifiers collide, every order with a commission snapshot has
  exactly one ledger entry, with the amounts of the snapshot and the order's total as gross
  amount, every other order has none, the audit log has as many status change entries of every
  order as its history has changes, and the platform fee total of the ledger is the sum of the
  fees of the settled orders.\<close>

theorem api_books_exact:
  assumes "registry_named reg"
    and "s = sc_app (fold (serve_step ext reg) rcs initial_scope)"
    and "fresh_ids ext (oa_ticks s)"
  shows "(\<forall>ord \<in> set (oa_heap s).
      length (changes_of s (or_order_id ord)) = length (or_history ord) \<and>
      (case or_commission_snapshot ord of
         None \<Rightarrow> entries_of s (or_order_id ord) = []
       | Some sn \<Rightarrow> \<exists>e. entries_of s (or_order_id ord) = [e] \<and>
           le_gross_amount_cents e = or_total_amount_cents ord \<and>
           le_platform_fee_cents e = sn_platform_fee_cents sn \<and>
           le_tenant_settlement_cents e = sn_tenant_settlement_cents sn \<and>
           le_tenant_id e = or_tenant_id ord)) \<and>
    platform_fee_total None (oa_ledger s) = (\<Sum>ord\<leftarrow>oa_heap s. settled_fee ord)"
proof -
  have "endpoint_ok ext reg (fold (serve_step ext reg) rcs initial_scope)"
    using endpoint_ok_initial [OF assms(1)] by (rule endpoint.inv_run)
  with assms(2,3) have ok: "api_ok ext s" by (simp add: endpoint_ok_def)
  then have booked: "order_booked s ord" if "ord \<in> set (oa_heap s)" for ord
    using that by (auto simp: api_ok_def in_set_conv_nth)
  have fee: "sum_list (map le_platform_fee_cents (entries_of s (or_order_id ord))) = settled_fee ord"
    if "ord \<in> set (oa_heap s)" for ord
    using booked [OF that] by (auto simp: order_booked_def settled_fee_def split: option.splits)
  have "sum_list (map le_platform_fee_cents (cl_entries (oa_ledger s))) =
      (\<Sum>k\<leftarrow>map or_order_id (oa_heap s). sum_list (map le_platform_fee_cents (entries_of s k)))"
    unfolding entries_of_def using ok by (intro sum_by_key) (auto simp: api_ok_def)
  also have "\<dots> = (\<Sum>ord\<leftarrow>oa_heap s. settled_fee ord)"
    unfolding map_map by (rule arg_cong [of _ _ sum_list]) (simp add: fee)
  finally show ?thesis
    using booked by (simp add: platform_fee_total_def ledger_view_def order_booked_def)
qed

definition spread_externals :: externals where
  "spread_externals = \<lparr>now_at = str_of_nat, uuid_at = (\<lambda>n. n * 16 ^ 20), sha256 = (\<lambda>_. ''h'')\<rparr>"

lemma hex_of_append: "hex_of (k + j) n = hex_of k (n div 16 ^ j) @ hex_of j n"
  by (induction j arbitrary: n) (simp_all add: div_mult2_eq)

lemma spread_fresh: "fresh_ids spread_externals (16 ^ 12)"
proof -
  have "take 12 (hex_of (12 + 20) (n * 16 ^ 20)) = hex_of 12 n" for n
    by (simp only: hex_of_append) simp
  then have "order_id_at spread_externals n = ''ORD-'' @ hex_of 12 n" for n
    by (simp add: order_id_at_def spread_externals_def uuid_hex_def)
  then show ?thesis by (simp add: fresh_ids_def hex_of_inject)
qed

theorem api_books_exact_witness:
  "let s = sc_app (fold (serve_step spread_externals sample_registry)
       [(sample_request, CreateOrder sample_create)] initial_scope)
   in length (oa_heap s) = 1 \<and> platform_fee_total None (oa_ledger s) = (\<Sum>ord\<leftarrow>oa_heap s. settled_fee ord)"
proof -
  define s where "s = sc_app (fold (serve_step spread_externals sample_registry)
      [(sample_request, CreateOrder sample_create)] initial_scope)"
  have "length (oa_heap s) = 1 \<and> oa_ticks s = 5"
    using sample_create_run [of spread_externals] by (auto simp: s_def serve_step_def)
  moreover from this have "fresh_ids spread_externals (oa_ticks s)"
    using fresh_ids_mono [OF spread_fresh, of "oa_ticks s"] by simp
  ultimately show ?thesis
    using api_books_exact [OF sample_registry_named s_def] unfolding s_def [symmetric] by simp
qed

text \<open>The answers of the order endpoints. An unknown order gives 404, an order of another
  tenant makes the access check raise, an unknown status text, a transition outside the diagram,
  completing or cancelling out of turn gives 409, a missing actor 422; in all these cases nothing
  changes.\<close>

theorem api_error_answers:
  assumes "app_ok ext s" "i < length (oa_heap s)" "dict_get (oa_orders s) oid = Some i"
  shows "(dict_get (oa_orders s) x = None \<longrightarrow>
      get_order cur x s = (Inr (HttpError 404), s) \<and>
      transition_order ext cur x q s = (Inr (HttpError 404), s) \<and>
      complete_order ext cur x q s = (Inr (HttpError 404), s) \<and>
      cancel_order ext cur x q s = (Inr (HttpError 404), s)) \<and>
    (\<not> may_access cur (oa_heap s ! i) \<longrightarrow>
      get_order cur oid s = (Inl CrossTenantAccessError, s) \<and>
      transition_order ext cur oid q s = (Inl CrossTenantAccessError, s) \<and>
      complete_order ext cur oid q s = (Inl CrossTenantAccessError, s) \<and>
      cancel_order ext cur oid q s = (Inl CrossTenantAccessError, s)) \<and>
    (may_access cur (oa_heap s ! i) \<longrightarrow>
      get_order cur oid s = (Inr (Answer (to_response (oa_heap s ! i))), s) \<and>
      ((\<forall>st. OrderStatus (tq_status q) = Inr st \<longrightarrow> \<not> lifecycle (or_status (oa_heap s ! i)) st) \<longrightarrow>
         transition_order ext cur oid q s = (Inr (HttpError 409), s)) \<and>
      (\<not> lifecycle (or_status (oa_heap s ! i)) COMPLETED \<longrightarrow>
         complete_order ext cur oid q s = (Inr (HttpError 409), s)) \<and>
      (\<not> lifecycle (or_status (oa_heap s ! i)) CANCELLED \<longrightarrow>
         cancel_order ext cur oid q s = (Inr (HttpError 409), s))) \<and>
    (tq_actor q = [] \<longrightarrow> order_route ext cur (TransitionOrder x q) s = (Inr (HttpError 422), s) \<and>
       order_route ext cur (CompleteOrder x q) s = (Inr (HttpError 422), s) \<and>
       order_route ext cur (CancelOrder x q) s = (Inr (HttpError 422), s))"
proof -
  have bad: "OrderStatus v = Inl e \<Longrightarrow> e = ValueError" for v e
    by (auto simp: OrderStatus_def split: option.splits)
  show ?thesis
    using assms bad [of "tq_status q"]
    by (auto simp: get_order_def transition_order_def complete_order_def cancel_order_def on_order_def
        complete_def cancel_def op_bind_apply op_simps find_by_id_apply or_conflict_def lifecycle_iff
        order_transition_apply is_ValueError_def checked_def transition_request_valid_def
        split: sum.splits)
qed

theorem api_error_answers_witness:
  "app_ok sample_externals (sample_app DRAFT) \<and>
   complete_order sample_externals None ''ORD-1'' \<lparr>tq_status = [], tq_actor = ''a'', tq_reason = []\<rparr>
     (sample_app DRAFT) = (Inr (HttpError 409), sample_app DRAFT)"
proof -
  have ok: "app_ok sample_externals (sample_app DRAFT)"
    using app_ok_initial [of sample_externals]
    by (simp add: app_ok_def sample_app_def order_ok_def sample_order_def split: if_splits)
  from api_error_answers [OF ok, of 0 "''ORD-1''" _ None "\<lparr>tq_status = [], tq_actor = ''a'', tq_reason = []\<rparr>"] ok
  show ?thesis by (simp add: may_access_def lifecycle_iff)
qed

end
