(* ===== verification/Payments.thy ===== *)
theory Payments
  imports Orders
begin

text \<open>
  Payments: the gateway wrapper (\<open>payments/stripe_client.py\<close>), payment intents
  (\<open>payment_intent.py\<close>), stored gateway references under the Zero-PAN policy
  (\<open>payment_token.py\<close>), the four payment flows (\<open>payment_flows.py\<close>), refunds (\<open>refund.py\<close>),
  payment method configuration (\<open>payment_methods.py\<close>) and the routes \<open>api/routes_payment.py\<close>
  that create intents and refunds. The gateway itself is a parameter: a function from the request
  sent and its number to the reply or an exception. Every request sent is recorded in the state,
  so that what leaves the service can be stated.
\<close>

section \<open>The gateway\<close>

datatype gateway_method =
  PaymentIntent_create | PaymentIntent_retrieve | Refund_create | SetupIntent_create

record gateway_request =
  gq_method :: gateway_method
  gq_params :: "(string, pyval) dict"
  gq_headers :: "(string, string) dict"

record gateway_object =
  go_id :: string
  go_status :: string
  go_amount :: int
  go_currency :: string
  go_client_secret :: "string option"

type_synonym gateway = "gateway_request \<Rightarrow> nat \<Rightarrow> gateway_object result"

section \<open>State\<close>

datatype token_type = SETUP_INTENT | PAYMENT_INTENT | RECEIPT_REF

record payment_token =
  pt_tenant_id :: string
  pt_order_id :: string
  pt_gateway_ref :: string
  pt_token_type :: token_type
  pt_encrypted_at_rest :: bool
  pt_token_id :: string
  pt_stored_at :: string

text \<open>What the intent and refund services hold: the audit logger that an intent service creates for
  itself, and the requests sent to the gateway. The flow service adds the token store and an audit
  logger of its own; operations of the first are polymorphic in what is added.\<close>

record payment_services =
  ps_ticks :: nat
  ps_intent_audit :: audit_logger
  ps_sent :: "gateway_request list"

record pay_state = payment_services +
  ps_tokens :: "(string, payment_token) dict"
  ps_audit :: audit_logger

type_synonym ('e, 'a) gateway_op = "('e payment_services_scheme, 'a) op"

type_synonym 'a pay_op = "(pay_state, 'a) op"

definition initial_services :: payment_services where
  "initial_services = \<lparr>ps_ticks = 0, ps_intent_audit = AuditLogger, ps_sent = []\<rparr>"

definition initial_pay :: pay_state where
  "initial_pay =
     \<lparr>ps_ticks = 0, ps_intent_audit = AuditLogger, ps_sent = [], ps_tokens = [], ps_audit = AuditLogger\<rparr>"

definition pay_now :: "externals \<Rightarrow> ('e, string) gateway_op" where
  "pay_now ext s = (Inr (now_at ext (ps_ticks s)), s\<lparr>ps_ticks := Suc (ps_ticks s)\<rparr>)"

definition pay_uuid :: "externals \<Rightarrow> ('e, nat) gateway_op" where
  "pay_uuid ext s = (Inr (uuid_at ext (ps_ticks s)), s\<lparr>ps_ticks := Suc (ps_ticks s)\<rparr>)"

definition pay_call ::
    "externals \<Rightarrow> 'e payment_services_scheme \<Rightarrow> string \<Rightarrow> string \<Rightarrow> string \<Rightarrow> (string, pyval) dict \<Rightarrow> log_call" where
  "pay_call ext s event_type outcome transaction_ref details =
     \<lparr>lc_entry_id = uuid_str (uuid_at ext (ps_ticks s)), lc_timestamp = now_at ext (Suc (ps_ticks s)),
      lc_actor = ''payment_service'', lc_event_type = event_type, lc_outcome = outcome,
      lc_transaction_ref = transaction_ref, lc_correlation_id = [], lc_details = Some details\<rparr>"

definition flow_log ::
    "externals \<Rightarrow> string \<Rightarrow> string \<Rightarrow> string \<Rightarrow> (string, pyval) dict \<Rightarrow> unit pay_op" where
  "flow_log ext event_type outcome transaction_ref details s =
     (Inr (), s\<lparr>ps_ticks := ps_ticks s + 2, ps_audit :=
        audit_log (sha256 ext) (pay_call ext s event_type outcome transaction_ref details) (ps_audit s)\<rparr>)"

definition intent_log ::
    "externals \<Rightarrow> string \<Rightarrow> string \<Rightarrow> string \<Rightarrow> (string, pyval) dict \<Rightarrow> ('e, unit) gateway_op" where
  "intent_log ext event_type outcome transaction_ref details s =
     (Inr (), s\<lparr>ps_ticks := ps_ticks s + 2, ps_intent_audit :=
        audit_log (sha256 ext) (pay_call ext s event_type outcome transaction_ref details) (ps_intent_audit s)\<rparr>)"

definition send :: "gateway \<Rightarrow> gateway_request \<Rightarrow> ('e, gateway_object) gateway_op" where
  "send gw q s = (gw q (length (ps_sent s)), s\<lparr>ps_sent := ps_sent s @ [q]\<rparr>)"

section \<open>The gateway wrapper\<close>

text \<open>\<open>if x: d[k] = x\<close> for an optional string, and for an optional dict.\<close>

definition put_str :: "string \<Rightarrow> string option \<Rightarrow> (string, pyval) dict \<Rightarrow> (string, pyval) dict" where
  "put_str k x d = (case x of Some (c # cs) \<Rightarrow> dict_set k (PStr (c # cs)) d | _ \<Rightarrow> d)"

definition put_metadata :: "(string, string) dict option \<Rightarrow> (string, pyval) dict \<Rightarrow> (string, pyval) dict" where
  "put_metadata m d =
     (case m of Some (p # ps) \<Rightarrow> dict_set ''metadata'' (PDict (map (\<lambda>(k, v). (k, PStr v)) (p # ps))) d
      | _ \<Rightarrow> d)"

definition idempotency_headers :: "string option \<Rightarrow> (string, string) dict" where
  "idempotency_headers key = (case key of Some (c # cs) \<Rightarrow> [(''Idempotency-Key'', c # cs)] | _ \<Rightarrow> [])"

definition is_token :: "string \<Rightarrow> bool" where
  "is_token payment_method_id \<longleftrightarrow> str_startswith payment_method_id ''pm_''"

definition create_payment_intent ::
    "gateway \<Rightarrow> int \<Rightarrow> string \<Rightarrow> string \<Rightarrow> string option \<Rightarrow> string option \<Rightarrow>
     (string, string) dict option \<Rightarrow> ('e, gateway_object) gateway_op" where
  "create_payment_intent gw amount_cents currency payment_method_id customer_id idempotency_key metadata =
     (if \<not> is_token payment_method_id then op_raise ValueError
      else send gw
        \<lparr>gq_method = PaymentIntent_create,
         gq_params = put_metadata metadata (put_str ''customer'' customer_id
           [(''amount'', PInt amount_cents), (''currency'', PStr currency),
            (''payment_method'', PStr payment_method_id), (''confirm'', PBool True),
            (''automatic_payment_methods'', PDict [(''enabled'', PBool True), (''allow_redirects'', PStr ''never'')]),
            (''stripe_account'', PNone)]),
         gq_headers = idempotency_headers idempotency_key\<rparr>)"

definition retrieve_payment_intent :: "gateway \<Rightarrow> string \<Rightarrow> ('e, gateway_object) gateway_op" where
  "retrieve_payment_intent gw payment_intent_id =
     send gw \<lparr>gq_method = PaymentIntent_retrieve, gq_params = [(''id'', PStr payment_intent_id)], gq_headers = []\<rparr>"

definition create_refund ::
    "gateway \<Rightarrow> string \<Rightarrow> int option \<Rightarrow> string option \<Rightarrow> string option \<Rightarrow> ('e, gateway_object) gateway_op" where
  "create_refund gw payment_intent_id amount_cents reason idempotency_key =
     send gw
       \<lparr>gq_method = Refund_create,
        gq_params = put_str ''reason'' reason
          ((''payment_intent'', PStr payment_intent_id) #
           (case amount_cents of None \<Rightarrow> [] | Some a \<Rightarrow> [(''amount'', PInt a)])),
        gq_headers = idempotency_headers idempotency_key\<rparr>"

definition create_setup_intent ::
    "gateway \<Rightarrow> string \<Rightarrow> string option \<Rightarrow> string option \<Rightarrow> (string, string) dict option \<Rightarrow>
     ('e, gateway_object) gateway_op" where
  "create_setup_intent gw payment_method_id customer_id idempotency_key metadata =
     (if \<not> is_token payment_method_id then op_raise ValueError
      else send gw
        \<lparr>gq_method = SetupIntent_create,
         gq_params = put_metadata metadata (put_str ''customer'' customer_id
           [(''payment_method'', PStr payment_method_id), (''confirm'', PBool True),
            (''usage'', PStr ''off_session'')]),
         gq_headers = idempotency_headers idempotency_key\<rparr>)"

definition charge_from_token ::
    "gateway \<Rightarrow> int \<Rightarrow> string \<Rightarrow> string \<Rightarrow> string option \<Rightarrow> string option \<Rightarrow>
     (string, string) dict option \<Rightarrow> ('e, gateway_object) gateway_op" where
  "charge_from_token gw amount_cents currency payment_method_id customer_id idempotency_key metadata =
     (if \<not> is_token payment_method_id then op_raise ValueError
      else send gw
        \<lparr>gq_method = PaymentIntent_create,
         gq_params = put_metadata metadata (put_str ''customer'' customer_id
           [(''amount'', PInt amount_cents), (''currency'', PStr currency),
            (''payment_method'', PStr payment_method_id), (''confirm'', PBool True),
            (''off_session'', PBool True)]),
         gq_headers = idempotency_headers idempotency_key\<rparr>)"

section \<open>Payment intents\<close>

datatype payment_status =
  CREATED | REQUIRES_CONFIRMATION | PROCESSING | SUCCEEDED | REQUIRES_ACTION | PAY_CANCELLED | FAILED

definition payment_status_values :: "(string \<times> payment_status) list" where
  "payment_status_values =
     [(''created'', CREATED), (''requires_confirmation'', REQUIRES_CONFIRMATION),
      (''processing'', PROCESSING), (''succeeded'', SUCCEEDED), (''requires_action'', REQUIRES_ACTION),
      (''cancelled'', PAY_CANCELLED), (''failed'', FAILED)]"

definition PaymentStatus :: "string \<Rightarrow> payment_status result" where
  "PaymentStatus v = (case map_of payment_status_values v of None \<Rightarrow> Inl ValueError | Some st \<Rightarrow> Inr st)"

record intent_request =
  iq_amount_cents :: int
  iq_currency :: string
  iq_payment_method_id :: string
  iq_order_id :: string
  iq_customer_id :: "string option"
  iq_idempotency_key :: "string option"
  iq_metadata :: "(string, string) dict option"

record intent_response =
  ir_payment_intent_id :: string
  ir_status :: payment_status
  ir_amount_cents :: int
  ir_currency :: string
  ir_order_id :: string
  ir_created_at :: string
  ir_client_secret :: "string option"

text \<open>A metadata dict of the caller gets the order identifier too, being the same object; a repeated
  call writes the same entry again, so what is sent does not depend on it.\<close>

definition create_intent :: "externals \<Rightarrow> gateway \<Rightarrow> intent_request \<Rightarrow> ('e, intent_response) gateway_op" where
  "create_intent ext gw q =
     (let metadata = dict_set ''order_id'' (iq_order_id q)
        (case iq_metadata q of None \<Rightarrow> [] | Some m \<Rightarrow> m) in
      op_bind (create_payment_intent gw (iq_amount_cents q) (iq_currency q) (iq_payment_method_id q)
        (iq_customer_id q) (iq_idempotency_key q) (Some metadata)) (\<lambda>intent.
      op_bind (intent_log ext ''payment.created'' ''success'' (go_id intent)
        [(''order_id'', PStr (iq_order_id q)), (''amount_cents'', PInt (iq_amount_cents q)),
         (''currency'', PStr (iq_currency q))]) (\<lambda>_.
      op_bind (op_lift (PaymentStatus (go_status intent))) (\<lambda>status.
      op_bind (pay_now ext) (\<lambda>t.
      op_return
        \<lparr>ir_payment_intent_id = go_id intent, ir_status = status, ir_amount_cents = go_amount intent,
         ir_currency = go_currency intent, ir_order_id = iq_order_id q, ir_created_at = t,
         ir_client_secret = go_client_secret intent\<rparr>)))))"

definition get_intent :: "gateway \<Rightarrow> string \<Rightarrow> ('e, (string, pyval) dict) gateway_op" where
  "get_intent gw payment_intent_id =
     op_bind (retrieve_payment_intent gw payment_intent_id) (\<lambda>intent.
     op_return
       [(''payment_intent_id'', PStr (go_id intent)), (''status'', PStr (go_status intent)),
        (''amount_cents'', PInt (go_amount intent)), (''currency'', PStr (go_currency intent))])"

section \<open>The token store\<close>

definition assert_zero_pan :: "string \<Rightarrow> unit result" where
  "assert_zero_pan value =
     (let digits = filter is_digit value in
      if 13 \<le> length digits \<and> length digits \<le> 19 \<and> str_isdigit (str_replace '' '' [] value)
      then Inl ValueError else Inr ())"

definition store_token :: "payment_token \<Rightarrow> payment_token pay_op" where
  "store_token t =
     op_bind (op_lift (assert_zero_pan (pt_gateway_ref t))) (\<lambda>_.
     op_bind (op_modify (\<lambda>s. s\<lparr>ps_tokens := dict_set (pt_token_id t) t (ps_tokens s)\<rparr>)) (\<lambda>_.
     op_return t))"

definition for_order :: "string \<Rightarrow> string \<Rightarrow> pay_state \<Rightarrow> payment_token list" where
  "for_order tenant_id order_id s =
     filter (\<lambda>t. pt_tenant_id t = tenant_id \<and> pt_order_id t = order_id) (dict_values (ps_tokens s))"

definition get_token :: "string \<Rightarrow> pay_state \<Rightarrow> payment_token option" where
  "get_token token_id s = dict_get (ps_tokens s) token_id"

text \<open>The dataclass constructor with its drawn defaults.\<close>

definition PaymentToken ::
    "externals \<Rightarrow> string \<Rightarrow> string \<Rightarrow> string \<Rightarrow> token_type \<Rightarrow> payment_token pay_op" where
  "PaymentToken ext tenant_id order_id gateway_ref token_type =
     op_bind (pay_uuid ext) (\<lambda>u.
     op_bind (pay_now ext) (\<lambda>t.
     op_return
       \<lparr>pt_tenant_id = tenant_id, pt_order_id = order_id, pt_gateway_ref = gateway_ref,
        pt_token_type = token_type, pt_encrypted_at_rest = True, pt_token_id = uuid_str u,
        pt_stored_at = t\<rparr>))"

section \<open>Flows\<close>

definition online_prepay ::
    "externals \<Rightarrow> gateway \<Rightarrow> string \<Rightarrow> intent_request \<Rightarrow> intent_response pay_op" where
  "online_prepay ext gw tenant_id q =
     op_bind (create_intent ext gw q) (\<lambda>response.
     op_bind (PaymentToken ext tenant_id (iq_order_id q) (ir_payment_intent_id response) PAYMENT_INTENT) (\<lambda>t.
     op_bind (store_token t) (\<lambda>_.
     op_return response)))"

definition authorize_deferred ::
    "externals \<Rightarrow> gateway \<Rightarrow> string \<Rightarrow> string \<Rightarrow> string \<Rightarrow> string option \<Rightarrow> string option \<Rightarrow>
     payment_token pay_op" where
  "authorize_deferred ext gw tenant_id order_id payment_method_id customer_id idempotency_key =
     op_bind (create_setup_intent gw payment_method_id customer_id idempotency_key
       (Some [(''order_id'', order_id)])) (\<lambda>setup_intent.
     op_bind (PaymentToken ext tenant_id order_id (go_id setup_intent) SETUP_INTENT) (\<lambda>token.
     op_bind (store_token token) (\<lambda>_.
     op_bind (flow_log ext ''payment.deferred_authorized'' ''success'' (go_id setup_intent)
       [(''tenant_id'', PStr tenant_id), (''order_id'', PStr order_id)]) (\<lambda>_.
     op_return token))))"

record deferred_charge_result =
  dr_payment_intent_id :: string
  dr_status :: string
  dr_amount_cents :: int
  dr_currency :: string

definition charge_deferred ::
    "externals \<Rightarrow> gateway \<Rightarrow> payment_token \<Rightarrow> int \<Rightarrow> string \<Rightarrow> string \<Rightarrow> string option \<Rightarrow> string option \<Rightarrow>
     deferred_charge_result pay_op" where
  "charge_deferred ext gw token amount_cents currency payment_method_id customer_id idempotency_key =
     (if pt_token_type token \<noteq> SETUP_INTENT then op_raise PaymentFlowError
      else
        op_bind (charge_from_token gw amount_cents currency payment_method_id customer_id idempotency_key
          (Some [(''order_id'', pt_order_id token), (''setup_intent'', pt_gateway_ref token)])) (\<lambda>intent.
        op_bind (flow_log ext ''payment.deferred_charged''
          (if go_status intent = ''succeeded'' then ''success'' else ''failure'') (go_id intent)
          [(''tenant_id'', PStr (pt_tenant_id token)), (''order_id'', PStr (pt_order_id token)),
           (''amount_cents'', PInt amount_cents), (''status'', PStr (go_status intent))]) (\<lambda>_.
        op_return
          \<lparr>dr_payment_intent_id = go_id intent, dr_status = go_status intent,
           dr_amount_cents = go_amount intent, dr_currency = go_currency intent\<rparr>)))"

definition record_in_person ::
    "externals \<Rightarrow> string \<Rightarrow> string \<Rightarrow> string \<Rightarrow> payment_token pay_op" where
  "record_in_person ext tenant_id order_id receipt_ref =
     (if receipt_ref = [] then op_raise PaymentFlowError
      else
        op_bind (PaymentToken ext tenant_id order_id receipt_ref RECEIPT_REF) (\<lambda>token.
        op_bind (store_token token) (\<lambda>_.
        op_bind (flow_log ext ''payment.in_person_recorded'' ''success'' receipt_ref
          [(''tenant_id'', PStr tenant_id), (''order_id'', PStr order_id)]) (\<lambda>_.
        op_return token))))"

definition validate_mixed_split :: "payment_mode \<Rightarrow> int \<Rightarrow> int \<Rightarrow> unit result" where
  "validate_mixed_split payment_mode prepay_amount_cents total_amount_cents =
     (if payment_mode \<noteq> MIXED then Inl PaymentFlowError
      else if prepay_amount_cents \<le> 0 then Inl PaymentFlowError
      else if prepay_amount_cents \<ge> total_amount_cents then Inl PaymentFlowError
      else Inr ())"

section \<open>Refunds\<close>

datatype refund_status = PENDING | REFUND_SUCCEEDED | REFUND_FAILED | REFUND_CANCELLED

definition RefundStatus :: "string \<Rightarrow> refund_status result" where
  "RefundStatus v =
     (if v = ''pending'' then Inr PENDING else if v = ''succeeded'' then Inr REFUND_SUCCEEDED
      else if v = ''failed'' then Inr REFUND_FAILED else if v = ''canceled'' then Inr REFUND_CANCELLED
      else Inl ValueError)"

datatype refund_reason = DUPLICATE | FRAUDULENT | REQUESTED_BY_CUSTOMER | ORDER_NOT_FULFILLED

fun reason_value :: "refund_reason \<Rightarrow> string" where
  "reason_value DUPLICATE = ''duplicate''"
| "reason_value FRAUDULENT = ''fraudulent''"
| "reason_value REQUESTED_BY_CUSTOMER = ''requested_by_customer''"
| "reason_value ORDER_NOT_FULFILLED = ''order_not_fulfilled''"

definition RefundReason :: "string \<Rightarrow> refund_reason result" where
  "RefundReason v =
     (case find (\<lambda>r. reason_value r = v) [DUPLICATE, FRAUDULENT, REQUESTED_BY_CUSTOMER, ORDER_NOT_FULFILLED] of
        None \<Rightarrow> Inl ValueError | Some r \<Rightarrow> Inr r)"

record refund_request =
  rq_payment_intent_id :: string
  rq_amount_cents :: "int option"
  rq_reason :: refund_reason
  rq_idempotency_key :: "string option"
  rq_notes :: "string option"

record refund_response =
  rr_refund_id :: string
  rr_payment_intent_id :: string
  rr_amount_cents :: int
  rr_status :: refund_status
  rr_reason :: refund_reason
  rr_created_at :: string

definition process_refund :: "externals \<Rightarrow> gateway \<Rightarrow> refund_request \<Rightarrow> ('e, refund_response) gateway_op" where
  "process_refund ext gw q =
     op_bind (create_refund gw (rq_payment_intent_id q) (rq_amount_cents q)
       (Some (reason_value (rq_reason q))) (rq_idempotency_key q)) (\<lambda>r.
     op_bind (op_lift (RefundStatus (go_status r))) (\<lambda>status.
     op_bind (pay_now ext) (\<lambda>t.
     op_return
       \<lparr>rr_refund_id = go_id r, rr_payment_intent_id = rq_payment_intent_id q,
        rr_amount_cents = go_amount r, rr_status = status, rr_reason = rq_reason q, rr_created_at = t\<rparr>)))"

section \<open>Payment method configuration\<close>

datatype payment_method_type = CARD | SEPA_DEBIT | IDEAL | BANCONTACT | GIROPAY | SOFORT | EPS | P24

fun method_value :: "payment_method_type \<Rightarrow> string" where
  "method_value CARD = ''card''"
| "method_value SEPA_DEBIT = ''sepa_debit''"
| "method_value IDEAL = ''ideal''"
| "method_value BANCONTACT = ''bancontact''"
| "method_value GIROPAY = ''giropay''"
| "method_value SOFORT = ''sofort''"
| "method_value EPS = ''eps''"
| "method_value P24 = ''p24''"

record payment_method_config =
  pm_enabled_types :: "payment_method_type list"
  pm_default_type :: payment_method_type
  pm_card_brand_preferences :: "string list option"

definition to_stripe_payment_method_types :: "payment_method_config \<Rightarrow> (string, string) dict list" where
  "to_stripe_payment_method_types c = map (\<lambda>pm. [(''type'', method_value pm)]) (pm_enabled_types c)"

definition DEFAULT_EU_CONFIG :: payment_method_config where
  "DEFAULT_EU_CONFIG =
     \<lparr>pm_enabled_types = [CARD, SEPA_DEBIT, IDEAL, BANCONTACT, EPS, SOFORT, P24],
      pm_default_type = CARD, pm_card_brand_preferences = None\<rparr>"

definition BALTIC_CONFIG :: payment_method_config where
  "BALTIC_CONFIG =
     \<lparr>pm_enabled_types = [CARD, SEPA_DEBIT], pm_default_type = CARD, pm_card_brand_preferences = None\<rparr>"

definition get_config_for_country :: "string \<Rightarrow> payment_method_config" where
  "get_config_for_country country_code =
     (if str_upper country_code \<in> {''LT'', ''LV'', ''EE''} then BALTIC_CONFIG else DEFAULT_EU_CONFIG)"

section \<open>Routes\<close>

text \<open>The request models: constraints of \<open>CreatePaymentIntentRequest\<close>, optional reason of
  \<open>RefundRequest\<close>.\<close>

definition intent_request_valid :: "intent_request \<Rightarrow> bool" where
  "intent_request_valid q \<longleftrightarrow>
     0 < iq_amount_cents q \<and> length (iq_currency q) = 3 \<and> is_token (iq_payment_method_id q)"

fun payment_status_value :: "payment_status \<Rightarrow> string" where
  "payment_status_value CREATED = ''created''"
| "payment_status_value REQUIRES_CONFIRMATION = ''requires_confirmation''"
| "payment_status_value PROCESSING = ''processing''"
| "payment_status_value SUCCEEDED = ''succeeded''"
| "payment_status_value REQUIRES_ACTION = ''requires_action''"
| "payment_status_value PAY_CANCELLED = ''cancelled''"
| "payment_status_value FAILED = ''failed''"

fun refund_status_value :: "refund_status \<Rightarrow> string" where
  "refund_status_value PENDING = ''pending''"
| "refund_status_value REFUND_SUCCEEDED = ''succeeded''"
| "refund_status_value REFUND_FAILED = ''failed''"
| "refund_status_value REFUND_CANCELLED = ''canceled''"

text \<open>\<open>None\<close> is the answer 422 to a request body that does not satisfy its model.\<close>

definition create_payment_intent_route ::
    "externals \<Rightarrow> gateway \<Rightarrow> intent_request \<Rightarrow> ('e, (string, pyval) dict option) gateway_op" where
  "create_payment_intent_route ext gw q =
     (if \<not> intent_request_valid q then op_return None
      else op_bind (create_intent ext gw (q\<lparr>iq_metadata := None\<rparr>)) (\<lambda>r.
        op_return (Some
          [(''payment_intent_id'', PStr (ir_payment_intent_id r)),
           (''status'', PStr (payment_status_value (ir_status r))),
           (''amount_cents'', PInt (ir_amount_cents r)), (''currency'', PStr (ir_currency r)),
           (''order_id'', PStr (ir_order_id r))])))"

definition create_refund_route ::
    "externals \<Rightarrow> gateway \<Rightarrow> string \<Rightarrow> int option \<Rightarrow> string option \<Rightarrow> string option \<Rightarrow>
     ('e, (string, pyval) dict) gateway_op" where
  "create_refund_route ext gw payment_intent_id amount_cents reason idempotency_key =
     op_bind (op_lift (case reason of
         Some (c # cs) \<Rightarrow> RefundReason (c # cs)
       | _ \<Rightarrow> Inr REQUESTED_BY_CUSTOMER)) (\<lambda>reason.
     op_bind (process_refund ext gw
       \<lparr>rq_payment_intent_id = payment_intent_id, rq_amount_cents = amount_cents, rq_reason = reason,
        rq_idempotency_key = idempotency_key, rq_notes = None\<rparr>) (\<lambda>r.
     op_return
       [(''refund_id'', PStr (rr_refund_id r)), (''payment_intent_id'', PStr (rr_payment_intent_id r)),
        (''amount_cents'', PInt (rr_amount_cents r)), (''status'', PStr (refund_status_value (rr_status r)))]))"

section \<open>Invariants\<close>

text \<open>What a raw card number looks like to the store: 13 to 19 digits and spaces.\<close>

definition raw_pan :: "string \<Rightarrow> bool" where
  "raw_pan v \<longleftrightarrow>
     (let ds = filter (\<lambda>c. c \<noteq> CHR '' '') v in 13 \<le> length ds \<and> length ds \<le> 19 \<and> list_all is_digit ds)"

lemma assert_zero_pan_iff: "assert_zero_pan v = (if raw_pan v then Inl ValueError else Inr ())"
proof -
  let ?ds = "filter (\<lambda>c. c \<noteq> CHR '' '') v"
  have "filter is_digit v = ?ds" if "list_all is_digit ?ds"
    using that by (induction v) (auto simp: char_class_defs split: if_splits)
  then show ?thesis
    by (auto simp: assert_zero_pan_def raw_pan_def Let_def str_isdigit_def str_replace_delete)
qed

definition request_tokenised :: "gateway_request \<Rightarrow> bool" where
  "request_tokenised q \<longleftrightarrow>
     (case dict_get (gq_params q) ''payment_method'' of
        None \<Rightarrow> gq_method q \<in> {PaymentIntent_retrieve, Refund_create}
      | Some (PStr p) \<Rightarrow> is_token p
      | Some _ \<Rightarrow> False)"

definition pay_ok :: "externals \<Rightarrow> pay_state \<Rightarrow> bool" where
  "pay_ok ext s \<longleftrightarrow>
     dict_ok (ps_tokens s) \<and>
     (\<forall>k t. dict_get (ps_tokens s) k = Some t \<longrightarrow> pt_token_id t = k \<and> \<not> raw_pan (pt_gateway_ref t)) \<and>
     list_all request_tokenised (ps_sent s) \<and>
     logger_ok (sha256 ext) (ps_audit s) \<and> logger_ok (sha256 ext) (ps_intent_audit s)"

definition pay_le :: "pay_state \<Rightarrow> pay_state \<Rightarrow> bool" where
  "pay_le s s' \<longleftrightarrow>
     (\<exists>qs. ps_sent s' = ps_sent s @ qs) \<and> log_extends (ps_audit s) (ps_audit s') \<and>
     log_extends (ps_intent_audit s) (ps_intent_audit s')"

lemma pay_le_refl [simp]: "pay_le s s"
  by (simp add: pay_le_def)

lemma pay_le_trans: "pay_le s t \<Longrightarrow> pay_le t u \<Longrightarrow> pay_le s u"
  by (auto simp: pay_le_def intro: log_extends_trans)

text \<open>The states reached from a good state, as an invariant of operations.\<close>

definition pay_from :: "externals \<Rightarrow> pay_state \<Rightarrow> pay_state \<Rightarrow> bool" where
  "pay_from ext s0 s \<longleftrightarrow> pay_ok ext s \<and> pay_le s0 s"

lemma pay_from_update:
  assumes "pay_from ext s0 s" "pay_ok ext s \<Longrightarrow> pay_ok ext s' \<and> pay_le s s'"
  shows "pay_from ext s0 s'"
  using assms by (auto simp: pay_from_def intro: pay_le_trans)

lemma keeps_draws [op_keeps_intros]:
  "op_keeps (pay_from ext s0) (pay_now ext)" "op_keeps (pay_from ext s0) (pay_uuid ext)"
  by (auto intro!: op_keepsI elim!: pay_from_update simp: pay_now_def pay_uuid_def pay_ok_def pay_le_def)

lemma keeps_logs [op_keeps_intros]:
  "op_keeps (pay_from ext s0) (flow_log ext a b c d)" "op_keeps (pay_from ext s0) (intent_log ext a b c d)"
  by (auto intro!: op_keepsI elim!: pay_from_update
      simp: flow_log_def intent_log_def pay_ok_def pay_le_def logger_ok_log)

lemma keeps_send:
  "request_tokenised q \<Longrightarrow> op_keeps (pay_from ext s0) (send gw q)"
  by (auto intro!: op_keepsI elim!: pay_from_update simp: send_def pay_ok_def pay_le_def)

lemma put_str_other [simp]: "k \<noteq> k' \<Longrightarrow> dict_get (put_str k x d) k' = dict_get d k'"
  by (auto simp: put_str_def dict_get_set split: option.split list.split)

lemma put_metadata_other [simp]: "k' \<noteq> ''metadata'' \<Longrightarrow> dict_get (put_metadata m d) k' = dict_get d k'"
  by (auto simp: put_metadata_def dict_get_set split: option.split list.split)

lemma keeps_gateway [op_keeps_intros]:
  "op_keeps (pay_from ext s0) (create_payment_intent gw a b c d e f)"
  "op_keeps (pay_from ext s0) (charge_from_token gw a b c d e f)"
  "op_keeps (pay_from ext s0) (create_setup_intent gw c d e f)"
  "op_keeps (pay_from ext s0) (retrieve_payment_intent gw c)"
  "op_keeps (pay_from ext s0) (create_refund gw c g h e)"
  unfolding create_payment_intent_def charge_from_token_def create_setup_intent_def
    retrieve_payment_intent_def create_refund_def
  by (auto intro!: keeps_send op_keeps_raise simp: request_tokenised_def split: option.split)

text \<open>The token store as a keyed store.\<close>

definition put_token :: "payment_token \<Rightarrow> pay_state \<Rightarrow> pay_state" where
  "put_token t s = s\<lparr>ps_tokens := dict_set (pt_token_id t) t (ps_tokens s)\<rparr>"

interpretation tokens: keyed_store "\<lambda>s k. get_token k s" put_token pt_token_id
    "\<lambda>s. dict_values (ps_tokens s)"
    "\<lambda>s. dict_ok (ps_tokens s) \<and> (\<forall>k t. dict_get (ps_tokens s) k = Some t \<longrightarrow> pt_token_id t = k)"
proof
  show "set (dict_values (ps_tokens s)) = {v. \<exists>k. get_token k s = Some v}"
    if "dict_ok (ps_tokens s) \<and> (\<forall>k t. dict_get (ps_tokens s) k = Some t \<longrightarrow> pt_token_id t = k)" for s
    using that by (simp add: get_token_def dict_get_values)
qed (auto simp: get_token_def put_token_def dict_get_set distinct_update split: if_splits)

lemma store_token_apply:
  "store_token t s = (if raw_pan (pt_gateway_ref t) then (Inl ValueError, s) else (Inr t, put_token t s))"
  by (simp add: store_token_def op_bind_apply op_simps assert_zero_pan_iff put_token_def)

lemma keeps_store [op_keeps_intros]: "op_keeps (pay_from ext s0) (store_token t)"
proof (rule op_keepsI)
  fix s
  assume "pay_from ext s0 s"
  then show "pay_from ext s0 (snd (store_token t s))"
    by (elim pay_from_update)
       (auto simp: store_token_apply put_token_def pay_ok_def pay_le_def dict_get_set distinct_update
         simp del: map_of_eq_Some_iff split: if_splits)
qed

lemma keeps_token [op_keeps_intros]: "op_keeps (pay_from ext s0) (PaymentToken ext a b c d)"
  unfolding PaymentToken_def by (intro op_keeps_intros)

lemma keeps_if [op_keeps_intros]:
  "op_keeps I m \<Longrightarrow> op_keeps I m' \<Longrightarrow> op_keeps I (if b then m else m')"
  by simp

lemma keeps_flows [op_keeps_intros]:
  "op_keeps (pay_from ext s0) (create_intent ext gw q)"
  "op_keeps (pay_from ext s0) (get_intent gw i)"
  "op_keeps (pay_from ext s0) (process_refund ext gw r)"
  "op_keeps (pay_from ext s0) (charge_deferred ext gw tok a b c d e)"
  "op_keeps (pay_from ext s0) (record_in_person ext x y z)"
  "op_keeps (pay_from ext s0) (authorize_deferred ext gw x y c d e)"
  unfolding create_intent_def get_intent_def process_refund_def charge_deferred_def record_in_person_def
    authorize_deferred_def Let_def
  by (intro op_keeps_intros)+

lemma keeps_prepay [op_keeps_intros]: "op_keeps (pay_from ext s0) (online_prepay ext gw x q)"
  unfolding online_prepay_def by (intro op_keeps_intros)

section \<open>Sequences of payment calls\<close>

datatype pay_request =
    OnlinePrepay string intent_request
  | AuthorizeDeferred string string string "string option" "string option"
  | ChargeDeferred payment_token int string string "string option" "string option"
  | RecordInPerson string string string
  | ProcessRefund refund_request
  | GetIntent string

fun pay_step :: "externals \<Rightarrow> gateway \<Rightarrow> pay_request \<Rightarrow> pay_state \<Rightarrow> pay_state" where
  "pay_step ext gw (OnlinePrepay t q) s = snd (online_prepay ext gw t q s)"
| "pay_step ext gw (AuthorizeDeferred t i m c k) s = snd (authorize_deferred ext gw t i m c k s)"
| "pay_step ext gw (ChargeDeferred tok a cur m c k) s = snd (charge_deferred ext gw tok a cur m c k s)"
| "pay_step ext gw (RecordInPerson t i r) s = snd (record_in_person ext t i r s)"
| "pay_step ext gw (ProcessRefund r) s = snd (process_refund ext gw r s)"
| "pay_step ext gw (GetIntent i) s = snd (get_intent gw i s)"

lemma pay_step_from:
  assumes "pay_ok ext s"
  shows "pay_from ext s (pay_step ext gw c s)"
proof -
  have "pay_from ext s s" using assms by (simp add: pay_from_def)
  then show ?thesis
    by (cases c) (simp_all add: op_keepsD [OF keeps_flows(1)] op_keepsD [OF keeps_flows(2)]
        op_keepsD [OF keeps_flows(3)] op_keepsD [OF keeps_flows(4)] op_keepsD [OF keeps_flows(5)]
        op_keepsD [OF keeps_flows(6)] op_keepsD [OF keeps_prepay])
qed

interpretation payments: inv_machine "pay_step ext gw" "pay_ok ext" pay_le for ext gw
  using pay_step_from by unfold_locales (auto simp: pay_from_def intro: pay_le_trans)

lemma pay_ok_initial [simp]: "pay_ok ext initial_pay"
  by (simp add: pay_ok_def initial_pay_def)

section \<open>Properties\<close>

text \<open>C12: Zero-PAN, end to end. After any sequence of payment calls with any arguments and whatever
  the gateway answers, no stored gateway reference is a card number of 13 to 19 digits, spaces
  allowed, every payment method that was ever sent to the gateway is a token, each stored
  token is found under its own identifier, and both audit chains verify.\<close>

theorem zero_pan_everywhere:
  assumes "s = fold (pay_step ext gw) calls initial_pay"
  shows "(\<forall>t \<in> set (dict_values (ps_tokens s)). \<not> raw_pan (pt_gateway_ref t) \<and>
      get_token (pt_token_id t) s = Some t) \<and>
    (\<forall>q \<in> set (ps_sent s). \<forall>v. dict_get (gq_params q) ''payment_method'' = Some v \<longrightarrow>
       (\<exists>p. v = PStr p \<and> str_startswith p ''pm_'')) \<and>
    verify_chain_integrity (sha256 ext) (ps_audit s) \<and>
    verify_chain_integrity (sha256 ext) (ps_intent_audit s)"
proof -
  have ok: "pay_ok ext s" unfolding assms by (rule payments.inv_run) simp
  have tok: "\<not> raw_pan (pt_gateway_ref t) \<and> get_token (pt_token_id t) s = Some t"
    if "t \<in> set (dict_values (ps_tokens s))" for t
    using ok that tokens.fetch_vals [of s t] by (auto simp: pay_ok_def dict_get_values)
  have req: "\<exists>p. v = PStr p \<and> str_startswith p ''pm_''"
    if "q \<in> set (ps_sent s)" "dict_get (gq_params q) ''payment_method'' = Some v" for q v
  proof -
    have "request_tokenised q" using ok that(1) by (simp add: pay_ok_def list_all_iff)
    with that(2) show ?thesis by (cases v) (auto simp: request_tokenised_def is_token_def)
  qed
  from ok tok req show ?thesis
    by (simp add: pay_ok_def verify_chain_integrity_def logger_ok_def)
qed

definition sample_reply :: gateway_object where
  "sample_reply =
     \<lparr>go_id = ''pi_1'', go_status = ''requires_payment_method'', go_amount = 500, go_currency = ''eur'',
      go_client_secret = None\<rparr>"

definition sample_gateway :: gateway where
  "sample_gateway q n = Inr sample_reply"

definition sample_intent :: intent_request where
  "sample_intent =
     \<lparr>iq_amount_cents = 500, iq_currency = ''eur'', iq_payment_method_id = ''pm_1'',
      iq_order_id = ''ORD-1'', iq_customer_id = None, iq_idempotency_key = None, iq_metadata = None\<rparr>"

theorem zero_pan_everywhere_witness:
  "verify_chain_integrity (sha256 sample_externals)
     (ps_audit (fold (pay_step sample_externals sample_gateway)
       [RecordInPerson ''t'' ''ORD-1'' ''4111 1111 1111 1111'', RecordInPerson ''t'' ''ORD-1'' ''4111-1111-1111-1111'']
       initial_pay)) \<and>
   raw_pan ''4111 1111 1111 1111'' \<and> \<not> raw_pan ''4111-1111-1111-1111''"
proof -
  have "raw_pan ''4111 1111 1111 1111''" "\<not> raw_pan ''4111-1111-1111-1111''" by code_simp+
  with zero_pan_everywhere [OF refl, of sample_externals sample_gateway
      "[RecordInPerson ''t'' ''ORD-1'' ''4111 1111 1111 1111'', RecordInPerson ''t'' ''ORD-1'' ''4111-1111-1111-1111'']"]
  show ?thesis by blast
qed

text \<open>A charge whose status the service does not know is lost. When the gateway answers an
  online prepayment with a status outside the service's own list, which the gateway's
  requires_payment_method, requires_capture and canceled are, the call raises ValueError although
  the charge was sent and audited as created, and no gateway reference is stored for the order.\<close>

theorem unknown_status_after_charge:
  assumes "is_token (iq_payment_method_id q)"
    and "\<And>r n. gw r n = Inr reply"
    and "go_status reply \<in> {''requires_payment_method'', ''requires_capture'', ''canceled''}"
  shows "\<exists>s' c. online_prepay ext gw tenant q s = (Inl ValueError, s') \<and>
    ps_tokens s' = ps_tokens s \<and>
    ps_sent s' = ps_sent s @ [c] \<and> gq_method c = PaymentIntent_create \<and>
    dict_get (gq_params c) ''amount'' = Some (PInt (iq_amount_cents q)) \<and>
    dict_get (gq_params c) ''payment_method'' = Some (PStr (iq_payment_method_id q)) \<and>
    length (al_entries (ps_intent_audit s')) = Suc (length (al_entries (ps_intent_audit s)))"
proof -
  have "PaymentStatus (go_status reply) = Inl ValueError"
    using assms(3) by (auto simp: PaymentStatus_def payment_status_values_def)
  then show ?thesis
    using assms(1,2)
    by (simp add: online_prepay_def create_intent_def create_payment_intent_def send_def intent_log_def
        op_bind_apply op_simps Let_def al_entries_log)
qed

theorem unknown_status_after_charge_witness:
  "\<exists>s'. online_prepay sample_externals sample_gateway ''t'' sample_intent initial_pay = (Inl ValueError, s') \<and>
     length (ps_sent s') = 1"
proof -
  have tok: "is_token (iq_payment_method_id sample_intent)" by code_simp
  have st: "go_status sample_reply \<in> {''requires_payment_method'', ''requires_capture'', ''canceled''}"
    by (simp add: sample_reply_def)
  have "ps_sent initial_pay = []" by (simp add: initial_pay_def)
  with unknown_status_after_charge [where ext = sample_externals and tenant = "''t''" and s = initial_pay, OF tok sample_gateway_def st]
  show ?thesis by force
qed

text \<open>C28: Deferred charges. Only a setup-intent token can be charged, and only through a payment
  method token; otherwise the call raises and nothing is sent or logged. Otherwise exactly one
  charge is sent, with the amount, currency and payment method asked for and bound to the order,
  carrying an Idempotency-Key header exactly when a non-empty key was given; the audit entry
  reports success exactly when the gateway reports succeeded.\<close>

theorem charge_deferred_outcome:
  "(pt_token_type tok \<noteq> SETUP_INTENT \<longrightarrow>
      charge_deferred ext gw tok amount currency pm customer key s = (Inl PaymentFlowError, s)) \<and>
   (pt_token_type tok = SETUP_INTENT \<longrightarrow> \<not> is_token pm \<longrightarrow>
      charge_deferred ext gw tok amount currency pm customer key s = (Inl ValueError, s)) \<and>
   (pt_token_type tok = SETUP_INTENT \<longrightarrow> is_token pm \<longrightarrow>
      (\<exists>c. gq_method c = PaymentIntent_create \<and>
         dict_get (gq_params c) ''amount'' = Some (PInt amount) \<and>
         dict_get (gq_params c) ''currency'' = Some (PStr currency) \<and>
         dict_get (gq_params c) ''payment_method'' = Some (PStr pm) \<and>
         dict_get (gq_params c) ''metadata'' = Some (PDict [(''order_id'', PStr (pt_order_id tok)),
           (''setup_intent'', PStr (pt_gateway_ref tok))]) \<and>
         gq_headers c = (case key of Some (x # xs) \<Rightarrow> [(''Idempotency-Key'', x # xs)] | _ \<Rightarrow> []) \<and>
         ps_sent (snd (charge_deferred ext gw tok amount currency pm customer key s)) = ps_sent s @ [c] \<and>
         (case gw c (length (ps_sent s)) of
            Inl e \<Rightarrow> fst (charge_deferred ext gw tok amount currency pm customer key s) = Inl e
          | Inr i \<Rightarrow> \<exists>r a. fst (charge_deferred ext gw tok amount currency pm customer key s) = Inr r \<and>
              dr_status r = go_status i \<and> dr_payment_intent_id r = go_id i \<and>
              al_entries (ps_audit (snd (charge_deferred ext gw tok amount currency pm customer key s))) =
                al_entries (ps_audit s) @ [a] \<and>
              ae_outcome a = (if go_status i = ''succeeded'' then ''success'' else ''failure''))))"
proof -
  have md: "dict_get (put_metadata (Some (p # ps)) d) ''metadata'' =
      Some (PDict (map (\<lambda>(k, v). (k, PStr v)) (p # ps)))" for p ps d
    by (simp add: put_metadata_def dict_get_set)
  show ?thesis
    by (auto simp: charge_deferred_def charge_from_token_def send_def op_bind_apply op_simps flow_log_def
        al_entries_log logged_entry_def pay_call_def md idempotency_headers_def split: sum.split)
qed

definition sample_token :: payment_token where
  "sample_token =
     \<lparr>pt_tenant_id = ''t'', pt_order_id = ''ORD-1'', pt_gateway_ref = ''seti_1'', pt_token_type = SETUP_INTENT,
      pt_encrypted_at_rest = True, pt_token_id = ''tok'', pt_stored_at = ''now''\<rparr>"

theorem charge_deferred_outcome_witness:
  "\<exists>c. gq_headers c = [] \<and> dict_get (gq_params c) ''amount'' = Some (PInt 500) \<and>
     ps_sent (snd (charge_deferred sample_externals sample_gateway sample_token 500 ''eur'' ''pm_1'' None None
       initial_pay)) = [c] \<and>
     charge_deferred sample_externals sample_gateway sample_token 500 ''eur'' ''4111'' None None initial_pay =
       (Inl ValueError, initial_pay)"
proof -
  have tok: "is_token ''pm_1''" "\<not> is_token ''4111''" "pt_token_type sample_token = SETUP_INTENT"
    "ps_sent initial_pay = []"
    by (simp_all add: is_token_def str_startswith_def sample_token_def initial_pay_def)
  have "charge_deferred sample_externals sample_gateway sample_token 500 ''eur'' ''4111'' None None initial_pay =
       (Inl ValueError, initial_pay)"
    using charge_deferred_outcome [of sample_token sample_externals sample_gateway 500 "''eur''" "''4111''"
        None None initial_pay] tok by simp
  with charge_deferred_outcome [of sample_token sample_externals sample_gateway 500 "''eur''" "''pm_1''"
      None None initial_pay] tok
  show ?thesis by auto
qed

lemma RefundReason_value: "RefundReason (reason_value r) = Inr r"
  by (cases r) (simp_all add: RefundReason_def)

lemma RefundReason_unknown:
  assumes "\<And>r. v \<noteq> reason_value r"
  shows "RefundReason v = Inl ValueError"
proof -
  have "reason_value r \<noteq> v" for r using assms [of r] by simp
  then have "find (\<lambda>r. reason_value r = v) rs = None" for rs by (simp add: find_None_iff)
  then show ?thesis by (simp only: RefundReason_def option.case)
qed

lemma process_refund_apply:
  "process_refund ext gw q s =
     (let c = \<lparr>gq_method = Refund_create,
        gq_params = put_str ''reason'' (Some (reason_value (rq_reason q)))
          ((''payment_intent'', PStr (rq_payment_intent_id q)) #
           (case rq_amount_cents q of None \<Rightarrow> [] | Some a \<Rightarrow> [(''amount'', PInt a)])),
        gq_headers = idempotency_headers (rq_idempotency_key q)\<rparr>;
        s1 = s\<lparr>ps_sent := ps_sent s @ [c]\<rparr> in
      case gw c (length (ps_sent s)) of
        Inl e \<Rightarrow> (Inl e, s1)
      | Inr r \<Rightarrow>
          (case RefundStatus (go_status r) of
             Inl e \<Rightarrow> (Inl e, s1)
           | Inr st \<Rightarrow>
               (Inr \<lparr>rr_refund_id = go_id r, rr_payment_intent_id = rq_payment_intent_id q,
                  rr_amount_cents = go_amount r, rr_status = st, rr_reason = rq_reason q,
                  rr_created_at = now_at ext (ps_ticks s)\<rparr>, s1\<lparr>ps_ticks := Suc (ps_ticks s)\<rparr>)))"
  by (simp add: process_refund_def create_refund_def send_def op_bind_apply op_simps pay_now_def Let_def
      split: sum.split)

text \<open>Refunds. A reason the service does not know raises before anything reaches the gateway.
  Otherwise exactly one refund request is sent: for the payment asked for, with an amount exactly
  when a partial refund was asked for, with the reason given or requested_by_customer, and with
  an Idempotency-Key header exactly when a non-empty key was given. No audit entry is written
  and no token is stored, whatever the outcome.\<close>

theorem refund_route_outcome:
  assumes "reason = None \<or> reason = Some (reason_value why)"
    and "\<And>r. unknown \<noteq> reason_value r" "unknown \<noteq> []"
    and "s' = snd (create_refund_route ext gw pid amount reason key s)"
  shows "create_refund_route ext gw pid amount (Some unknown) key s = (Inl ValueError, s) \<and>
    (\<exists>c. ps_sent s' = ps_sent s @ [c] \<and> gq_method c = Refund_create \<and>
       dict_get (gq_params c) ''payment_intent'' = Some (PStr pid) \<and>
       dict_get (gq_params c) ''amount'' = map_option PInt amount \<and>
       dict_get (gq_params c) ''reason'' =
         Some (PStr (case reason of None \<Rightarrow> ''requested_by_customer'' | Some r \<Rightarrow> r)) \<and>
       gq_headers c = (case key of Some (x # xs) \<Rightarrow> [(''Idempotency-Key'', x # xs)] | _ \<Rightarrow> [])) \<and>
    ps_audit s' = ps_audit s \<and> ps_intent_audit s' = ps_intent_audit s \<and> ps_tokens s' = ps_tokens s"
proof -
  define given where "given = (if reason = None then REQUESTED_BY_CUSTOMER else why)"
  have nonempty: "reason_value why = hd (reason_value why) # tl (reason_value why)" by (cases why) simp_all
  have put: "dict_get (put_str ''reason'' (Some (reason_value r)) d) ''reason'' = Some (PStr (reason_value r))" for r d
    by (cases r) (simp_all add: put_str_def dict_get_set)
  have "(case reason of Some (c # cs) \<Rightarrow> RefundReason (c # cs) | _ \<Rightarrow> Inr REQUESTED_BY_CUSTOMER) = Inr given"
    using assms(1) nonempty RefundReason_value [of why]
    by (auto simp: given_def split: option.split list.split)
  then have route: "s' = snd (process_refund ext gw
       \<lparr>rq_payment_intent_id = pid, rq_amount_cents = amount, rq_reason = given,
        rq_idempotency_key = key, rq_notes = None\<rparr> s)"
    unfolding assms(4) create_refund_route_def by (simp add: op_bind_apply op_simps split: sum.split)
  have sent: "\<exists>c. ps_sent s' = ps_sent s @ [c] \<and> gq_method c = Refund_create \<and>
       dict_get (gq_params c) ''payment_intent'' = Some (PStr pid) \<and>
       dict_get (gq_params c) ''amount'' = map_option PInt amount \<and>
       dict_get (gq_params c) ''reason'' = Some (PStr (reason_value given)) \<and>
       gq_headers c = idempotency_headers key"
    unfolding route process_refund_apply Let_def
    by (rule exI [of _ "\<lparr>gq_method = Refund_create, gq_params = put_str ''reason'' (Some (reason_value given))
          ((''payment_intent'', PStr pid) # (case amount of None \<Rightarrow> [] | Some a \<Rightarrow> [(''amount'', PInt a)])),
        gq_headers = idempotency_headers key\<rparr>"])
       (auto simp: put split: sum.split option.split)
  have "reason_value given = (case reason of None \<Rightarrow> ''requested_by_customer'' | Some r \<Rightarrow> r)"
    using assms(1) by (auto simp: given_def)
  moreover have "create_refund_route ext gw pid amount (Some unknown) key s = (Inl ValueError, s)"
    using assms(2,3) RefundReason_unknown [of unknown]
    by (cases unknown) (simp_all add: create_refund_route_def op_bind_apply op_simps)
  moreover have "ps_audit s' = ps_audit s \<and> ps_intent_audit s' = ps_intent_audit s \<and> ps_tokens s' = ps_tokens s"
    unfolding route process_refund_apply by (simp add: Let_def split: sum.split)
  ultimately show ?thesis using sent by (simp add: idempotency_headers_def)
qed

theorem refund_route_outcome_witness:
  "create_refund_route sample_externals sample_gateway ''pi_1'' (Some 200) (Some ''bored'') None initial_pay =
     (Inl ValueError, initial_pay) \<and>
   length (ps_sent (snd (create_refund_route sample_externals sample_gateway ''pi_1'' (Some 200)
     (Some ''duplicate'') None initial_pay))) = 1"
proof -
  have "''bored'' \<noteq> reason_value r" for r by (cases r) simp_all
  from refund_route_outcome [of "Some ''duplicate''" DUPLICATE "''bored''", OF _ this _ refl,
      of sample_externals sample_gateway "''pi_1''" "Some 200" None initial_pay]
  show ?thesis by (auto simp: initial_pay_def)
qed

end
