(* ===== verification/Webhooks.thy ===== *)
theory Webhooks
  imports Audit_Log
begin

text \<open>
  Gateway webhooks: the deduplication store (\<open>payments/webhook_dedup.py\<close>), the webhook handler
  (\<open>payments/webhook_handler.py\<close>) and the webhook route of \<open>api/routes_payment.py\<close>.

  Instants are microseconds since the start of year 1, as a Python \<open>datetime\<close> counts them, so a
  subtraction that leaves this range raises \<open>OverflowError\<close>. What a delivery reads from the clock
  and from \<open>uuid4\<close> is part of the delivery. The receipt dict that the handler passes to the audit
  log is the very object it goes on to modify: it is represented by its address, the position of
  the audit entry whose \<open>details\<close> it is.
\<close>

section \<open>Deduplication store\<close>

definition MINIMUM_RETENTION :: int where
  "MINIMUM_RETENTION = 24 * 3600 * 1000000"

record processed_event =
  pe_event_id :: string
  pe_processed_at :: int

record event_store =
  es_retention :: int
  es_processed :: "(string, processed_event) dict"

definition WebhookEventStore :: "int \<Rightarrow> event_store result" where
  "WebhookEventStore retention =
     (if retention < MINIMUM_RETENTION then Inl ValueError
      else Inr \<lparr>es_retention = retention, es_processed = []\<rparr>)"

definition purge_expired :: "int \<Rightarrow> (event_store, nat) op" where
  "purge_expired moment st =
     (let cutoff = moment - es_retention st in
      if cutoff < 0 then (Inl OverflowError, st)
      else
        let expired = map fst (filter (\<lambda>(event_id, r). pe_processed_at r < cutoff) (es_processed st)) in
        (Inr (length expired), st\<lparr>es_processed := fold dict_del expired (es_processed st)\<rparr>))"

definition claim :: "string \<Rightarrow> int \<Rightarrow> (event_store, bool) op" where
  "claim event_id moment =
     op_bind (purge_expired moment) (\<lambda>_ st.
       if event_id = [] \<or> dict_has (es_processed st) event_id then (Inr False, st)
       else (Inr True, st\<lparr>es_processed := dict_set event_id
         \<lparr>pe_event_id = event_id, pe_processed_at = moment\<rparr> (es_processed st)\<rparr>))"

definition is_processed :: "string \<Rightarrow> event_store \<Rightarrow> bool" where
  "is_processed event_id st \<longleftrightarrow> dict_has (es_processed st) event_id"

definition store_size :: "event_store \<Rightarrow> nat" where
  "store_size st = length (es_processed st)"

section \<open>Events\<close>

datatype webhook_event_type =
  PAYMENT_INTENT_SUCCEEDED | PAYMENT_INTENT_FAILED | PAYMENT_INTENT_CANCELLED | CHARGE_REFUNDED
| CHARGE_DISPUTE_CREATED

fun event_value :: "webhook_event_type \<Rightarrow> string" where
  "event_value PAYMENT_INTENT_SUCCEEDED = ''payment_intent.succeeded''"
| "event_value PAYMENT_INTENT_FAILED = ''payment_intent.payment_failed''"
| "event_value PAYMENT_INTENT_CANCELLED = ''payment_intent.canceled''"
| "event_value CHARGE_REFUNDED = ''charge.refunded''"
| "event_value CHARGE_DISPUTE_CREATED = ''charge.dispute.created''"

text \<open>A gateway event: the attributes of its data object may be absent, and \<open>payment_intent\<close> may
  also be present and null.\<close>

record gateway_event =
  ev_id :: string
  ev_type :: string
  ev_created :: int
  ev_data_payment_intent :: "string option option"
  ev_data_id :: "string option"

text \<open>One delivery: the event, the instants and the identifier drawn while it is handled.\<close>

record delivery =
  wd_event :: gateway_event
  wd_moment :: int
  wd_receipt_time :: string
  wd_entry_id :: string
  wd_entry_time :: string

section \<open>Handler\<close>

record webhook_handler =
  wh_webhook_secret :: string
  wh_audit :: audit_logger
  wh_event_store :: event_store

definition StripeWebhookHandler :: "string \<Rightarrow> event_store \<Rightarrow> webhook_handler" where
  "StripeWebhookHandler secret st =
     \<lparr>wh_webhook_secret = secret, wh_audit = AuditLogger, wh_event_store = st\<rparr>"

definition MAX_TIMESTAMP_DRIFT_SECONDS :: int where
  "MAX_TIMESTAMP_DRIFT_SECONDS = 300"

text \<open>\<open>construct_event\<close> of the gateway library is a parameter; \<open>time.time()\<close> is given in
  microseconds of Unix time.\<close>

definition verify_signature ::
    "(string \<Rightarrow> string \<Rightarrow> string \<Rightarrow> gateway_event result) \<Rightarrow> string \<Rightarrow> string \<Rightarrow> int \<Rightarrow> int \<Rightarrow>
     webhook_handler \<Rightarrow> gateway_event result" where
  "verify_signature construct_event payload sig_header tolerance_seconds unix_time h =
     (case construct_event payload sig_header (wh_webhook_secret h) of
        Inl e \<Rightarrow> Inl (if is_ValueError e \<or> e = SignatureVerificationError then WebhookVerificationError else e)
      | Inr event \<Rightarrow>
          if unix_time - 1000000 * ev_created event > 1000000 * tolerance_seconds
          then Inl WebhookVerificationError else Inr event)"

definition payment_intent_id_of :: "gateway_event \<Rightarrow> string option" where
  "payment_intent_id_of event =
     (case ev_data_payment_intent event of
        Some p \<Rightarrow> p
      | None \<Rightarrow>
          (case ev_data_id event of
             Some i \<Rightarrow> if str_startswith (ev_type event) ''payment_intent'' then Some i else None
           | None \<Rightarrow> None))"

definition webhook_call :: "delivery \<Rightarrow> string \<Rightarrow> string \<Rightarrow> (string, pyval) dict \<Rightarrow> log_call" where
  "webhook_call d outcome transaction_ref details =
     \<lparr>lc_entry_id = wd_entry_id d, lc_timestamp = wd_entry_time d, lc_actor = ''stripe_webhook'',
      lc_event_type = ''webhook.'' @ ev_type (wd_event d), lc_outcome = outcome,
      lc_transaction_ref = transaction_ref, lc_correlation_id = [], lc_details = Some details\<rparr>"

definition receipt_of :: "delivery \<Rightarrow> (string, pyval) dict" where
  "receipt_of d =
     [(''event_id'', PStr (ev_id (wd_event d))), (''event_type'', PStr (ev_type (wd_event d))),
      (''payment_intent_id'', (case payment_intent_id_of (wd_event d) of None \<Rightarrow> PNone | Some i \<Rightarrow> PStr i)),
      (''timestamp'', PStr (wd_receipt_time d)), (''stripe_created'', PInt (ev_created (wd_event d)))]"

text \<open>\<open>payment_intent_id or event.id\<close>.\<close>

definition receipt_ref_of :: "gateway_event \<Rightarrow> string" where
  "receipt_ref_of event = (case payment_intent_id_of event of Some (c # cs) \<Rightarrow> c # cs | _ \<Rightarrow> ev_id event)"

text \<open>Reading and writing the receipt through its address in the audit log.\<close>

definition receipt_at :: "nat \<Rightarrow> webhook_handler \<Rightarrow> (string, pyval) dict" where
  "receipt_at i h = ae_details (al_entries (wh_audit h) ! i)"

definition receipt_put :: "nat \<Rightarrow> string \<Rightarrow> pyval \<Rightarrow> webhook_handler \<Rightarrow> webhook_handler" where
  "receipt_put i k v h =
     (let l = wh_audit h; e = al_entries l ! i in
      h\<lparr>wh_audit := l\<lparr>al_entries := (al_entries l)[i := e\<lparr>ae_details := dict_set k v (ae_details e)\<rparr>]\<rparr>\<rparr>)"

definition handle_payment_succeeded :: "nat \<Rightarrow> (webhook_handler, (string, pyval) dict) op" where
  "handle_payment_succeeded receipt h =
     (let h' = receipt_put receipt ''action'' (PStr ''fulfill_order'')
        (receipt_put receipt ''status'' (PStr ''processed'') h) in (Inr (receipt_at receipt h'), h'))"

definition handle_payment_failed :: "nat \<Rightarrow> (webhook_handler, (string, pyval) dict) op" where
  "handle_payment_failed receipt h =
     (let h' = receipt_put receipt ''action'' (PStr ''notify_failure'')
        (receipt_put receipt ''status'' (PStr ''processed'') h) in (Inr (receipt_at receipt h'), h'))"

definition handle_charge_refunded :: "nat \<Rightarrow> (webhook_handler, (string, pyval) dict) op" where
  "handle_charge_refunded receipt h =
     (let h' = receipt_put receipt ''action'' (PStr ''process_refund'')
        (receipt_put receipt ''status'' (PStr ''processed'') h) in (Inr (receipt_at receipt h'), h'))"

definition dispatch_event :: "string \<Rightarrow> nat \<Rightarrow> (webhook_handler, (string, pyval) dict) op" where
  "dispatch_event event_type receipt =
     (if event_type = event_value PAYMENT_INTENT_SUCCEEDED then handle_payment_succeeded receipt
      else if event_type = event_value PAYMENT_INTENT_FAILED then handle_payment_failed receipt
      else if event_type = event_value CHARGE_REFUNDED then handle_charge_refunded receipt
      else op_return [(''status'', PStr ''ignored''), (''event_type'', PStr event_type)])"

definition handle_event ::
    "(string \<Rightarrow> string) \<Rightarrow> delivery \<Rightarrow> (webhook_handler, (string, pyval) dict) op" where
  "handle_event sha d h =
     (let event = wd_event d in
      case claim (ev_id event) (wd_moment d) (wh_event_store h) of
        (Inl e, st) \<Rightarrow> (Inl e, h\<lparr>wh_event_store := st\<rparr>)
      | (Inr False, st) \<Rightarrow>
          (Inr [(''status'', PStr ''duplicate''), (''event_id'', PStr (ev_id event))],
           h\<lparr>wh_event_store := st,
             wh_audit := audit_log sha (webhook_call d ''duplicate'' (ev_id event)
               [(''event_id'', PStr (ev_id event)), (''action'', PStr ''ack_without_processing'')]) (wh_audit h)\<rparr>)
      | (Inr True, st) \<Rightarrow>
          dispatch_event (ev_type event) (length (al_entries (wh_audit h)))
            (h\<lparr>wh_event_store := st,
               wh_audit := audit_log sha (webhook_call d ''success'' (receipt_ref_of event) (receipt_of d))
                 (wh_audit h)\<rparr>))"

section \<open>Route\<close>

datatype webhook_answer = Http400 | WebhookEventResponse string

text \<open>The answer to \<open>POST /webhooks/stripe\<close>. The delivery carries what is drawn; its event is the
  one the signature check returns. \<open>payload\<close> is the outcome of decoding the body, a failure of
  which the route does not catch.\<close>

definition handle_stripe_webhook ::
    "(string \<Rightarrow> string) \<Rightarrow> (string \<Rightarrow> string \<Rightarrow> string \<Rightarrow> gateway_event result) \<Rightarrow> string result \<Rightarrow> string \<Rightarrow>
     int \<Rightarrow> delivery \<Rightarrow> (webhook_handler, webhook_answer) op" where
  "handle_stripe_webhook sha construct_event payload stripe_signature unix_time d h =
     (case payload of
        Inl e \<Rightarrow> (Inl e, h)
      | Inr body \<Rightarrow>
          (case verify_signature construct_event body stripe_signature MAX_TIMESTAMP_DRIFT_SECONDS unix_time h of
             Inl e \<Rightarrow> if e = WebhookVerificationError then (Inr Http400, h) else (Inl e, h)
           | Inr event \<Rightarrow>
               op_bind (handle_event sha (d\<lparr>wd_event := event\<rparr>)) (\<lambda>r.
                 op_return (WebhookEventResponse
                   (case dict_get r ''status'' of Some (PStr s) \<Rightarrow> s | _ \<Rightarrow> ''processed''))) h))"

section \<open>The store as a partial map\<close>

lemma dict_get_del_all:
  "dict_get (fold dict_del ks d) k = (if k \<in> set ks then None else dict_get d k)"
  by (induction ks arbitrary: d) (auto simp: delete_conv')

lemma dict_ok_del_all: "dict_ok d \<Longrightarrow> dict_ok (fold dict_del ks d)"
  by (induction ks arbitrary: d) (simp_all add: distinct_delete)

definition store_ok :: "event_store \<Rightarrow> bool" where
  "store_ok st \<longleftrightarrow> dict_ok (es_processed st)"

text \<open>When an event was claimed, as far as the store remembers.\<close>

definition claimed_at :: "event_store \<Rightarrow> string \<Rightarrow> int option" where
  "claimed_at st i = map_option pe_processed_at (dict_get (es_processed st) i)"

definition unexpired :: "int \<Rightarrow> int option \<Rightarrow> int option" where
  "unexpired cutoff t = (case t of None \<Rightarrow> None | Some m \<Rightarrow> if m < cutoff then None else Some m)"

lemma unexpired_eq_Some: "unexpired c t = Some m \<longleftrightarrow> t = Some m \<and> c \<le> m"
  by (auto simp: unexpired_def split: option.split)

text \<open>The records a purge removes are exactly those below the cutoff.\<close>

lemma purge_expired_apply:
  assumes "store_ok st"
  shows "if moment < es_retention st then purge_expired moment st = (Inl OverflowError, st)
    else \<exists>n st'. purge_expired moment st = (Inr n, st') \<and> store_ok st' \<and>
      es_retention st' = es_retention st \<and>
      claimed_at st' = (\<lambda>i. unexpired (moment - es_retention st) (claimed_at st i))"
proof (cases "moment < es_retention st")
  case False
  let ?c = "moment - es_retention st" and ?d = "es_processed st"
  have "i \<in> set (map fst (filter (\<lambda>(i, r). pe_processed_at r < ?c) ?d)) \<longleftrightarrow>
      (\<exists>r. dict_get ?d i = Some r \<and> pe_processed_at r < ?c)" for i
    using assms by (force simp: store_ok_def)
  then have "claimed_at (st\<lparr>es_processed := fold dict_del
      (map fst (filter (\<lambda>(i, r). pe_processed_at r < ?c) ?d)) ?d\<rparr>) i = unexpired ?c (claimed_at st i)" for i
    by (auto simp: claimed_at_def dict_get_del_all unexpired_def simp del: set_map set_filter
        split: option.split)
  with False assms show ?thesis
    by (auto simp: purge_expired_def Let_def store_ok_def dict_ok_del_all)
qed (simp add: purge_expired_def Let_def)

text \<open>A claim: what it answers and what the store remembers afterwards.\<close>

lemma claim_apply:
  assumes "store_ok st"
  shows "if moment < es_retention st then claim i moment st = (Inl OverflowError, st)
    else \<exists>st'. claim i moment st = (Inr (i \<noteq> [] \<and> unexpired (moment - es_retention st) (claimed_at st i) = None), st') \<and>
      store_ok st' \<and> es_retention st' = es_retention st \<and>
      claimed_at st' = (\<lambda>k. if k = i \<and> i \<noteq> [] \<and> unexpired (moment - es_retention st) (claimed_at st i) = None
        then Some moment else unexpired (moment - es_retention st) (claimed_at st k))"
proof (cases "moment < es_retention st")
  case False
  with purge_expired_apply [OF assms, of moment] obtain n st1 where
    p: "purge_expired moment st = (Inr n, st1)" "store_ok st1" "es_retention st1 = es_retention st"
      "claimed_at st1 = (\<lambda>i. unexpired (moment - es_retention st) (claimed_at st i))" by auto
  have has: "dict_has (es_processed st1) i \<longleftrightarrow> unexpired (moment - es_retention st) (claimed_at st i) \<noteq> None"
    using p(4) [THEN fun_cong, of i, symmetric] by (simp add: dict_has_iff claimed_at_def del: set_map)
  with False p show ?thesis
    by (auto simp: claim_def op_bind_Inr [where m = "purge_expired moment", OF p(1)] store_ok_def claimed_at_def fun_eq_iff dict_get_set
        simp del: set_map split: if_splits)
qed (use purge_expired_apply [OF assms, of moment] in \<open>simp add: claim_def op_bind_Inl\<close>)

section \<open>What handling an event does\<close>

text \<open>The receipt after a handler has modified it; \<open>None\<close> for the event types nothing handles.\<close>

definition action_of :: "string \<Rightarrow> string option" where
  "action_of event_type = map_of
     [(event_value PAYMENT_INTENT_SUCCEEDED, ''fulfill_order''),
      (event_value PAYMENT_INTENT_FAILED, ''notify_failure''),
      (event_value CHARGE_REFUNDED, ''process_refund'')] event_type"

definition processed_receipt :: "delivery \<Rightarrow> string \<Rightarrow> (string, pyval) dict" where
  "processed_receipt d action = receipt_of d @ [(''status'', PStr ''processed''), (''action'', PStr action)]"

lemma receipt_put_snoc:
  assumes "al_entries (wh_audit h) = es @ [e]"
  shows "receipt_put (length es) k v h =
    h\<lparr>wh_audit := (wh_audit h)\<lparr>al_entries := es @ [e\<lparr>ae_details := dict_set k v (ae_details e)\<rparr>]\<rparr>\<rparr>"
  using assms by (simp add: receipt_put_def Let_def)

lemma receipt_at_snoc:
  "al_entries (wh_audit h) = es @ [e] \<Longrightarrow> receipt_at (length es) h = ae_details e"
  by (simp add: receipt_at_def)

definition processed_outcome :: "delivery \<Rightarrow> string \<Rightarrow> audit_entry list \<Rightarrow> audit_entry \<Rightarrow> webhook_handler \<Rightarrow>
    (string, pyval) dict result \<times> webhook_handler" where
  "processed_outcome d a es e h = (Inr (processed_receipt d a),
     h\<lparr>wh_audit := (wh_audit h)\<lparr>al_entries := es @ [e\<lparr>ae_details := processed_receipt d a\<rparr>]\<rparr>\<rparr>)"

lemma receipt_processed:
  assumes "al_entries (wh_audit h) = es @ [e]" "ae_details e = receipt_of d"
  shows "(let h' = receipt_put (length es) ''action'' (PStr a)
      (receipt_put (length es) ''status'' (PStr ''processed'') h) in (Inr (receipt_at (length es) h'), h')) =
    processed_outcome d a es e h"
proof -
  let ?h = "receipt_put (length es) ''status'' (PStr ''processed'') h"
  let ?e = "e\<lparr>ae_details := receipt_of d @ [(''status'', PStr ''processed'')]\<rparr>"
  have s: "?h = h\<lparr>wh_audit := (wh_audit h)\<lparr>al_entries := es @ [?e]\<rparr>\<rparr>"
    using assms by (simp add: receipt_put_snoc receipt_of_def)
  have "receipt_put (length es) ''action'' (PStr a) ?h =
      ?h\<lparr>wh_audit := (wh_audit ?h)\<lparr>al_entries := es @ [?e\<lparr>ae_details := dict_set ''action'' (PStr a) (ae_details ?e)\<rparr>]\<rparr>\<rparr>"
    unfolding s by (rule receipt_put_snoc) simp
  also have "dict_set ''action'' (PStr a) (ae_details ?e) = processed_receipt d a"
    by (simp add: processed_receipt_def receipt_of_def)
  finally have "receipt_put (length es) ''action'' (PStr a) ?h = snd (processed_outcome d a es e h)"
    by (simp add: s processed_outcome_def)
  moreover have "receipt_at (length es) (snd (processed_outcome d a es e h)) = processed_receipt d a"
    by (simp add: processed_outcome_def receipt_at_def)
  ultimately show ?thesis by (simp add: processed_outcome_def)
qed

lemma dispatch_event_apply:
  assumes "al_entries (wh_audit h) = es @ [e]" "ae_details e = receipt_of d"
  shows "dispatch_event t (length es) h =
    (case action_of t of
       None \<Rightarrow> (Inr [(''status'', PStr ''ignored''), (''event_type'', PStr t)], h)
     | Some a \<Rightarrow> processed_outcome d a es e h)"
  unfolding dispatch_event_def action_of_def handle_payment_succeeded_def handle_payment_failed_def
    handle_charge_refunded_def
  by (simp add: receipt_processed [OF assms] op_return_def)

text \<open>The first delivery of an event, its entry as it was hashed and as it is left.\<close>

definition receipt_entry :: "delivery \<Rightarrow> audit_logger \<Rightarrow> audit_entry" where
  "receipt_entry d l =
     logged_entry (webhook_call d ''success'' (receipt_ref_of (wd_event d)) (receipt_of d)) (al_last_hash l)"

definition left_entry :: "delivery \<Rightarrow> audit_logger \<Rightarrow> audit_entry" where
  "left_entry d l =
     (case action_of (ev_type (wd_event d)) of
        None \<Rightarrow> receipt_entry d l
      | Some a \<Rightarrow> (receipt_entry d l)\<lparr>ae_details := processed_receipt d a\<rparr>)"

definition outcome_of :: "delivery \<Rightarrow> (string, pyval) dict" where
  "outcome_of d =
     (case action_of (ev_type (wd_event d)) of
        None \<Rightarrow> [(''status'', PStr ''ignored''), (''event_type'', PStr (ev_type (wd_event d)))]
      | Some a \<Rightarrow> processed_receipt d a)"

lemma handle_event_claimed:
  assumes "claim (ev_id (wd_event d)) (wd_moment d) (wh_event_store h) = (Inr True, st)"
  shows "handle_event sha d h = (Inr (outcome_of d),
    h\<lparr>wh_event_store := st, wh_audit := \<lparr>al_entries = al_entries (wh_audit h) @ [left_entry d (wh_audit h)],
      al_last_hash = compute_hash sha (receipt_entry d (wh_audit h))\<rparr>\<rparr>)"
proof -
  let ?h = "h\<lparr>wh_event_store := st, wh_audit := audit_log sha
    (webhook_call d ''success'' (receipt_ref_of (wd_event d)) (receipt_of d)) (wh_audit h)\<rparr>"
  have a: "audit_log sha (webhook_call d ''success'' (receipt_ref_of (wd_event d)) (receipt_of d)) (wh_audit h) =
      \<lparr>al_entries = al_entries (wh_audit h) @ [receipt_entry d (wh_audit h)],
       al_last_hash = compute_hash sha (receipt_entry d (wh_audit h))\<rparr>"
    by (simp add: audit_log_def Let_def receipt_entry_def)
  have "ae_details (receipt_entry d (wh_audit h)) = receipt_of d"
    by (simp add: receipt_entry_def logged_entry_def webhook_call_def)
  then show ?thesis
    using dispatch_event_apply [of ?h "al_entries (wh_audit h)" "receipt_entry d (wh_audit h)" d
        "ev_type (wd_event d)"]
    by (simp add: handle_event_def Let_def assms a outcome_of_def left_entry_def processed_outcome_def
        split: option.split)
qed

lemma handle_event_duplicate:
  assumes "claim (ev_id (wd_event d)) (wd_moment d) (wh_event_store h) = (Inr False, st)"
  shows "handle_event sha d h =
    (Inr [(''status'', PStr ''duplicate''), (''event_id'', PStr (ev_id (wd_event d)))],
     h\<lparr>wh_event_store := st, wh_audit := audit_log sha (webhook_call d ''duplicate'' (ev_id (wd_event d))
       [(''event_id'', PStr (ev_id (wd_event d))), (''action'', PStr ''ack_without_processing'')]) (wh_audit h)\<rparr>)"
  by (simp add: handle_event_def Let_def assms)

lemma handle_event_fails:
  assumes "claim (ev_id (wd_event d)) (wd_moment d) (wh_event_store h) = (Inl e, st)"
  shows "handle_event sha d h = (Inl e, h\<lparr>wh_event_store := st\<rparr>)"
  by (simp add: handle_event_def Let_def assms)

section \<open>Sequences of deliveries\<close>

definition deliver :: "(string \<Rightarrow> string) \<Rightarrow> delivery \<Rightarrow> webhook_handler \<Rightarrow> webhook_handler" where
  "deliver sha d h = snd (handle_event sha d h)"

definition handled :: "(string, pyval) dict result \<Rightarrow> bool" where
  "handled r \<longleftrightarrow> (case r of Inl _ \<Rightarrow> False | Inr x \<Rightarrow> dict_get x ''status'' \<noteq> Some (PStr ''duplicate''))"

lemma handled_simps [simp]:
  "\<not> handled (Inl e)" "handled (Inr (outcome_of d))"
  "\<not> handled (Inr [(''status'', PStr ''duplicate''), x])"
  by (auto simp: handled_def outcome_of_def processed_receipt_def receipt_of_def split: option.split)

text \<open>A delivery is handled exactly when its event has an identifier and is not remembered.\<close>

definition fresh :: "delivery \<Rightarrow> event_store \<Rightarrow> bool" where
  "fresh d st \<longleftrightarrow> ev_id (wd_event d) \<noteq> [] \<and>
     unexpired (wd_moment d - es_retention st) (claimed_at st (ev_id (wd_event d))) = None"

lemma handle_event_cases:
  assumes "store_ok (wh_event_store h)" "es_retention (wh_event_store h) \<le> wd_moment d"
  shows "(handled (fst (handle_event sha d h)) \<longleftrightarrow> fresh d (wh_event_store h)) \<and>
    store_ok (wh_event_store (deliver sha d h)) \<and>
    es_retention (wh_event_store (deliver sha d h)) = es_retention (wh_event_store h) \<and>
    claimed_at (wh_event_store (deliver sha d h)) =
      (\<lambda>k. if k = ev_id (wd_event d) \<and> fresh d (wh_event_store h) then Some (wd_moment d)
        else unexpired (wd_moment d - es_retention (wh_event_store h)) (claimed_at (wh_event_store h) k))"
proof -
  from claim_apply [OF assms(1), of "wd_moment d" "ev_id (wd_event d)"] assms(2) obtain st where
    c: "claim (ev_id (wd_event d)) (wd_moment d) (wh_event_store h) = (Inr (fresh d (wh_event_store h)), st)"
      "store_ok st" "es_retention st = es_retention (wh_event_store h)"
      "claimed_at st = (\<lambda>k. if k = ev_id (wd_event d) \<and> fresh d (wh_event_store h) then Some (wd_moment d)
        else unexpired (wd_moment d - es_retention (wh_event_store h)) (claimed_at (wh_event_store h) k))"
    by (auto simp: fresh_def)
  show ?thesis
    by (cases "fresh d (wh_event_store h)")
       (use c in \<open>simp_all add: deliver_def handle_event_claimed handle_event_duplicate\<close>)
qed

text \<open>The answer to the delivery at a position of a sequence.\<close>

definition outcome_at :: "(string \<Rightarrow> string) \<Rightarrow> webhook_handler \<Rightarrow> delivery list \<Rightarrow> nat \<Rightarrow> (string, pyval) dict result" where
  "outcome_at sha h ds j = fst (handle_event sha (ds ! j) (fold (deliver sha) (take j ds) h))"

text \<open>What the store remembers after a prefix: every remembered instant is that of a handled
  delivery, and every handled delivery still in the window is remembered.\<close>

definition remembers :: "(nat \<Rightarrow> bool) \<Rightarrow> int \<Rightarrow> delivery list \<Rightarrow> nat \<Rightarrow> event_store \<Rightarrow> bool" where
  "remembers done retention ds n st \<longleftrightarrow>
     store_ok st \<and> es_retention st = retention \<and>
     (\<forall>k m. claimed_at st k = Some m \<longrightarrow>
        (\<exists>i < n. done i \<and> ev_id (wd_event (ds ! i)) = k \<and> wd_moment (ds ! i) = m)) \<and>
     (\<forall>i < n. done i \<longrightarrow> wd_moment (ds ! i) + retention < wd_moment (ds ! (n - 1)) \<or>
        (\<exists>m. claimed_at st (ev_id (wd_event (ds ! i))) = Some m \<and> wd_moment (ds ! i) \<le> m))"

definition replays :: "(nat \<Rightarrow> bool) \<Rightarrow> int \<Rightarrow> delivery list \<Rightarrow> nat \<Rightarrow> bool" where
  "replays done retention ds j \<longleftrightarrow>
     (\<exists>i < j. done i \<and> ev_id (wd_event (ds ! i)) = ev_id (wd_event (ds ! j)) \<and>
        wd_moment (ds ! j) - wd_moment (ds ! i) \<le> retention)"

lemma remembers_fresh:
  assumes "remembers done retention ds n st" "n < length ds" "sorted (map wd_moment ds)"
  shows "fresh (ds ! n) st \<longleftrightarrow> ev_id (wd_event (ds ! n)) \<noteq> [] \<and> \<not> replays done retention ds n"
proof -
  let ?k = "ev_id (wd_event (ds ! n))"
  have mono: "wd_moment (ds ! i) \<le> wd_moment (ds ! n)" if "i \<le> n" for i
    using assms(2,3) that sorted_nth_mono [of "map wd_moment ds" i n] by simp
  have "(\<exists>m. claimed_at st ?k = Some m \<and> wd_moment (ds ! n) - retention \<le> m) \<longleftrightarrow> replays done retention ds n"
  proof
    assume "\<exists>m. claimed_at st ?k = Some m \<and> wd_moment (ds ! n) - retention \<le> m"
    with assms(1) show "replays done retention ds n" by (fastforce simp: remembers_def replays_def)
  next
    assume "replays done retention ds n"
    then obtain i where i: "i < n" "done i" "ev_id (wd_event (ds ! i)) = ?k"
      "wd_moment (ds ! n) - wd_moment (ds ! i) \<le> retention" by (auto simp: replays_def)
    have "wd_moment (ds ! (n - 1)) \<le> wd_moment (ds ! n)" by (rule mono) simp
    with i assms(1) show "\<exists>m. claimed_at st ?k = Some m \<and> wd_moment (ds ! n) - retention \<le> m"
      by (fastforce simp: remembers_def)
  qed
  with assms(1) show ?thesis
    by (auto simp: fresh_def remembers_def unexpired_eq_Some simp flip: not_Some_eq)
qed

lemma remembers_step:
  assumes "remembers done retention ds n (wh_event_store h)" "n < length ds" "sorted (map wd_moment ds)"
    and "retention \<le> wd_moment (ds ! n)" "done n \<longleftrightarrow> handled (fst (handle_event sha (ds ! n) h))"
  shows "remembers done retention ds (Suc n) (wh_event_store (deliver sha (ds ! n) h))"
proof -
  let ?d = "ds ! n" and ?st = "wh_event_store h"
  let ?c = "wd_moment ?d - retention"
  have ok: "store_ok ?st" and ret: "es_retention ?st = retention"
    using assms(1) by (auto simp: remembers_def)
  note s = handle_event_cases [OF ok, of ?d sha, unfolded ret, OF assms(4)]
  have don: "done n \<longleftrightarrow> fresh ?d ?st" using s assms(5) by simp
  have "\<exists>i < Suc n. done i \<and> ev_id (wd_event (ds ! i)) = k \<and> wd_moment (ds ! i) = m"
    if "claimed_at (wh_event_store (deliver sha ?d h)) k = Some m" for k m
  proof (cases "k = ev_id (wd_event ?d) \<and> fresh ?d ?st")
    case True
    with that s don show ?thesis by auto
  next
    case False
    with that s have "claimed_at ?st k = Some m" by (auto simp: unexpired_eq_Some)
    with assms(1) show ?thesis unfolding remembers_def by (meson less_Suc_eq)
  qed
  moreover have "wd_moment (ds ! i) + retention < wd_moment ?d \<or>
      (\<exists>m. claimed_at (wh_event_store (deliver sha ?d h)) (ev_id (wd_event (ds ! i))) = Some m \<and>
         wd_moment (ds ! i) \<le> m)" if "i < Suc n" "done i" for i
  proof (cases "i = n \<or> wd_moment (ds ! i) + retention < wd_moment ?d")
    case True
    with that don s show ?thesis by auto
  next
    case False
    with that have i: "i < n" "wd_moment ?d \<le> wd_moment (ds ! i) + retention" by auto
    have "wd_moment (ds ! (n - 1)) \<le> wd_moment ?d" "wd_moment (ds ! i) \<le> wd_moment ?d"
      using assms(2,3) i sorted_nth_mono [of "map wd_moment ds"] by auto
    with i that assms(1) obtain m where
      "claimed_at ?st (ev_id (wd_event (ds ! i))) = Some m" "wd_moment (ds ! i) \<le> m"
      by (fastforce simp: remembers_def)
    with i s \<open>wd_moment (ds ! i) \<le> wd_moment ?d\<close> show ?thesis by (auto simp: unexpired_eq_Some)
  qed
  ultimately show ?thesis using s by (simp add: remembers_def)
qed

lemma remembers_run:
  assumes "WebhookEventStore retention = Inr st" "sorted (map wd_moment ds)"
    and "\<forall>d \<in> set ds. retention \<le> wd_moment d" "n \<le> length ds"
  shows "remembers (\<lambda>j. handled (outcome_at sha (StripeWebhookHandler secret st) ds j)) retention ds n
    (wh_event_store (fold (deliver sha) (take n ds) (StripeWebhookHandler secret st)))"
  using assms(4)
proof (induction n)
  case 0
  from assms(1) show ?case
    by (auto simp: remembers_def StripeWebhookHandler_def WebhookEventStore_def store_ok_def claimed_at_def
        split: if_splits)
next
  case (Suc n)
  then have n: "n < length ds" by simp
  let ?h = "fold (deliver sha) (take n ds) (StripeWebhookHandler secret st)"
  have "fold (deliver sha) (take (Suc n) ds) (StripeWebhookHandler secret st) = deliver sha (ds ! n) ?h"
    using n by (simp add: take_Suc_conv_app_nth)
  moreover have "retention \<le> wd_moment (ds ! n)" using n assms(3) by simp
  ultimately show ?case
    using remembers_step [OF Suc.IH n assms(2)] n by (simp add: outcome_at_def)
qed

section \<open>Properties\<close>

text \<open>C11: Replay protection is exact. Let deliveries arrive in clock order at a new handler. A
  delivery is acted on (it is not answered duplicate) exactly when its event has a non-empty
  identifier and no earlier delivery of the same event was acted on within the retention window
  before it. In particular an event is never acted on twice within 24 hours, and a first delivery
  is never dropped.\<close>

theorem dedup_exact:
  assumes "WebhookEventStore retention = Inr st" "h = StripeWebhookHandler secret st"
    and "sorted (map wd_moment ds)" "\<forall>d \<in> set ds. retention \<le> wd_moment d" "j < length ds"
  shows "(handled (outcome_at sha h ds j) \<longleftrightarrow>
      ev_id (wd_event (ds ! j)) \<noteq> [] \<and>
      \<not> (\<exists>i < j. handled (outcome_at sha h ds i) \<and>
           ev_id (wd_event (ds ! i)) = ev_id (wd_event (ds ! j)) \<and>
           wd_moment (ds ! j) - wd_moment (ds ! i) \<le> retention)) \<and>
    24 * 3600 * 1000000 \<le> retention"
proof
  let ?h = "fold (deliver sha) (take j ds) h"
  let ?done = "\<lambda>j. handled (outcome_at sha h ds j)"
  have r: "remembers ?done retention ds j (wh_event_store ?h)"
    using assms by (auto intro: remembers_run)
  moreover have "retention \<le> wd_moment (ds ! j)" using assms(4,5) by simp
  ultimately have "?done j \<longleftrightarrow> fresh (ds ! j) (wh_event_store ?h)"
    using handle_event_cases [of ?h "ds ! j" sha] by (simp add: remembers_def outcome_at_def)
  with remembers_fresh [OF r assms(5,3)]
  show "?done j \<longleftrightarrow> ev_id (wd_event (ds ! j)) \<noteq> [] \<and>
      \<not> (\<exists>i < j. ?done i \<and> ev_id (wd_event (ds ! i)) = ev_id (wd_event (ds ! j)) \<and>
           wd_moment (ds ! j) - wd_moment (ds ! i) \<le> retention)"
    by (simp add: replays_def)
  show "24 * 3600 * 1000000 \<le> retention"
    using assms(1) by (simp add: WebhookEventStore_def MINIMUM_RETENTION_def split: if_splits)
qed

definition sample_event :: "string \<Rightarrow> gateway_event" where
  "sample_event t =
     \<lparr>ev_id = ''evt_1'', ev_type = t, ev_created = 0, ev_data_payment_intent = None, ev_data_id = Some ''pi_1''\<rparr>"

definition sample_delivery :: "int \<Rightarrow> delivery" where
  "sample_delivery m =
     \<lparr>wd_event = sample_event ''payment_intent.succeeded'', wd_moment = m, wd_receipt_time = ''t'',
      wd_entry_id = ''a'', wd_entry_time = ''t''\<rparr>"

definition sample_store :: event_store where
  "sample_store = \<lparr>es_retention = MINIMUM_RETENTION, es_processed = []\<rparr>"

lemma sample_store_new: "WebhookEventStore MINIMUM_RETENTION = Inr sample_store"
  by (simp add: WebhookEventStore_def sample_store_def)

theorem dedup_exact_witness:
  "let h = StripeWebhookHandler ''whsec'' sample_store;
       ds = [sample_delivery 100000000000, sample_delivery 100000000001, sample_delivery 200000000000] in
   handled (outcome_at sample_sha h ds 0) \<and> \<not> handled (outcome_at sample_sha h ds 1) \<and>
   handled (outcome_at sample_sha h ds 2)"
proof -
  let ?h = "StripeWebhookHandler ''whsec'' sample_store"
  let ?ds = "[sample_delivery 100000000000, sample_delivery 100000000001, sample_delivery 200000000000]"
  have hyps: "sorted (map wd_moment ?ds)" "\<forall>d \<in> set ?ds. MINIMUM_RETENTION \<le> wd_moment d"
    by (simp_all add: sample_delivery_def MINIMUM_RETENTION_def)
  note step = dedup_exact [OF sample_store_new refl hyps, where sha = sample_sha and secret = "''whsec''"]
  have ids: "ev_id (wd_event (sample_delivery m)) = ''evt_1''" "wd_moment (sample_delivery m) = m" for m
    by (simp_all add: sample_delivery_def sample_event_def)
  have h0: "handled (outcome_at sample_sha ?h ?ds 0)" using step [of 0] by (simp add: ids)
  have h1: "\<not> handled (outcome_at sample_sha ?h ?ds 1)"
    using step [of 1] h0 by (simp add: ids MINIMUM_RETENTION_def)
  have h2: "handled (outcome_at sample_sha ?h ?ds 2)"
    using step [of 2] h0 h1 by (auto simp: ids MINIMUM_RETENTION_def less_2_cases_iff)
  from h0 h1 h2 show ?thesis by (simp add: Let_def)
qed

text \<open>Adding the two keys to the receipt changes the text that is hashed.\<close>

lemma left_entry_content:
  assumes "action_of (ev_type (wd_event d)) = Some a"
  shows "entry_content (left_entry d l) \<noteq> entry_content (receipt_entry d l)"
proof
  have details: "ae_details (receipt_entry d l) = receipt_of d"
    by (simp add: receipt_entry_def logged_entry_def webhook_call_def)
  assume "entry_content (left_entry d l) = entry_content (receipt_entry d l)"
  then have "json_dumps (PDict (processed_receipt d a)) = json_dumps (PDict (receipt_of d))"
    using entry_content_inject [of "left_entry d l" "receipt_entry d l"] assms
    by (simp add: same_record_def left_entry_def details del: json_dumps.simps)
  with json_dict_grows [of "receipt_of d" "(''status'', PStr ''processed'')" "[(''action'', PStr a)]"]
  show False by (simp add: processed_receipt_def del: json_dumps.simps)
qed

text \<open>Every handled delivery appends an entry that links to the logger's last hash.\<close>

lemma handle_event_links:
  assumes "handle_event sha d h = (Inr r, h')"
  shows "\<exists>e. al_entries (wh_audit h') = al_entries (wh_audit h) @ [e] \<and>
    ae_previous_hash e = al_last_hash (wh_audit h)"
proof -
  have "ae_previous_hash (left_entry d l) = al_last_hash l" for l
    by (simp add: left_entry_def receipt_entry_def logged_entry_def split: option.split)
  moreover obtain o' st where
    c: "claim (ev_id (wd_event d)) (wd_moment d) (wh_event_store h) = (o', st)" by fastforce
  moreover obtain b where "o' = Inr b"
    using assms c by (cases o') (simp_all add: handle_event_fails)
  ultimately show ?thesis
    using assms
    by (cases b) (auto simp: handle_event_claimed handle_event_duplicate al_entries_log logged_entry_def)
qed

lemma processed_claimed:
  assumes "handle_event sha d h = (Inr r, h')" "dict_get r ''status'' = Some (PStr ''processed'')"
  shows "\<exists>a. action_of (ev_type (wd_event d)) = Some a \<and>
    wh_audit h' = \<lparr>al_entries = al_entries (wh_audit h) @ [left_entry d (wh_audit h)],
      al_last_hash = compute_hash sha (receipt_entry d (wh_audit h))\<rparr>"
proof -
  obtain o' st where
    c: "claim (ev_id (wd_event d)) (wd_moment d) (wh_event_store h) = (o', st)" by fastforce
  then have "o' = Inr True"
    using assms by (cases o'; cases "o' = Inr False") (auto simp: handle_event_fails handle_event_duplicate)
  with assms c show ?thesis
    by (auto simp: handle_event_claimed outcome_of_def split: option.splits)
qed

lemma verify_chain_snoc_broken:
  assumes "links_hold sha [] es" "ae_previous_hash f \<noteq> chain_head sha [] es"
  shows "verify_chain sha (es @ [f]) k = link_mismatch (length es) f"
proof -
  have "verify_links sha 0 [] (es @ [f]) = Inl (link_mismatch (length es) f)"
    unfolding verify_links_Inl using assms by (intro exI [of _ "length es"]) simp
  then show ?thesis by (simp add: verify_chain_def)
qed

text \<open>C27: Handling an event damages the audit chain. The receipt is hashed into the audit log and
  then modified by the handler of a payment or refund event, so the recorded entry is not the one
  that was hashed. Its own check still passes while it is the last entry; from the next delivery
  on, whatever that is, the chain verifies only if the two different texts have the same hash,
  and otherwise the verifier reports tampering at the following entry.\<close>

theorem webhook_breaks_audit_chain:
  assumes "logger_ok sha (wh_audit h)"
    and "handle_event sha d h = (Inr r, h')" "dict_get r ''status'' = Some (PStr ''processed'')"
    and "handle_event sha d2 h' = (Inr r2, h2)"
  shows "let n = length (al_entries (wh_audit h));
             recorded = al_entries (wh_audit h2) ! n;
             hashed = recorded\<lparr>ae_details := receipt_of d\<rparr> in
    entry_content recorded \<noteq> entry_content hashed \<and>
    verify_chain_integrity sha (wh_audit h') \<and>
    (verify_chain_integrity sha (wh_audit h2) \<longleftrightarrow> sha (entry_content recorded) = sha (entry_content hashed)) \<and>
    (sha (entry_content recorded) = sha (entry_content hashed) \<or>
     verify_chain sha (al_entries (wh_audit h2)) [] = link_mismatch (Suc n) (al_entries (wh_audit h2) ! Suc n))"
proof -
  let ?es = "al_entries (wh_audit h)" and ?e = "left_entry d (wh_audit h)" and ?r = "receipt_entry d (wh_audit h)"
  from processed_claimed [OF assms(2,3)] obtain a where a: "action_of (ev_type (wd_event d)) = Some a"
    and h': "wh_audit h' = \<lparr>al_entries = ?es @ [?e], al_last_hash = compute_hash sha ?r\<rparr>" by (elim exE conjE)
  from handle_event_links [OF assms(4)] obtain f where
    f: "al_entries (wh_audit h2) = ?es @ [?e, f]" "ae_previous_hash f = compute_hash sha ?r"
    by (auto simp: h')
  have rec: "?e\<lparr>ae_details := receipt_of d\<rparr> = ?r"
    by (simp add: left_entry_def a receipt_entry_def logged_entry_def webhook_call_def)
  have prev: "ae_previous_hash ?e = al_last_hash (wh_audit h)"
    by (simp add: left_entry_def receipt_entry_def logged_entry_def split: option.split)
  have ok: "links_hold sha [] (?es @ [?e])" "chain_head sha [] (?es @ [?e]) = compute_hash sha ?e"
    using assms(1) by (simp_all add: logger_ok_def links_hold_append prev)
  have chain: "links_hold sha [] (?es @ [?e, f]) \<longleftrightarrow> compute_hash sha ?e = compute_hash sha ?r"
    using links_hold_append [of sha "[]" "?es @ [?e]" "[f]"] ok f(2) by auto
  have report: "compute_hash sha ?e = compute_hash sha ?r \<or>
      verify_chain sha (?es @ [?e, f]) [] = link_mismatch (Suc (length ?es)) f"
    using verify_chain_snoc_broken [OF ok(1), of f "[]"] ok(2) f(2) by (auto dest: sym)
  have nth: "(?es @ [?e, f]) ! length ?es = ?e" "(?es @ [?e, f]) ! Suc (length ?es) = f"
    by (simp_all add: nth_append)
  show ?thesis
    unfolding Let_def f(1) nth rec verify_chain_integrity_def h'
    using left_entry_content [OF a, of "wh_audit h"] ok(1) chain report by (simp add: compute_hash_def)
qed

theorem webhook_breaks_audit_chain_witness:
  "let h0 = StripeWebhookHandler ''whsec'' sample_store;
       h1 = deliver sample_sha (sample_delivery 100000000000) h0;
       h2 = deliver sample_sha (sample_delivery 100000000001) h1 in
   verify_chain_integrity sample_sha (wh_audit h1) \<and> \<not> verify_chain_integrity sample_sha (wh_audit h2)"
proof -
  let ?h0 = "StripeWebhookHandler ''whsec'' sample_store"
  let ?d1 = "sample_delivery 100000000000" and ?d2 = "sample_delivery 100000000001"
  let ?h1 = "deliver sample_sha ?d1 ?h0"
  let ?h2 = "deliver sample_sha ?d2 ?h1"
  have ok: "logger_ok sample_sha (wh_audit ?h0)" by (simp add: StripeWebhookHandler_def)
  have "fst (handle_event sample_sha ?d1 ?h0) = Inr (processed_receipt ?d1 ''fulfill_order'')"
    "dict_get (processed_receipt ?d1 ''fulfill_order'') ''status'' = Some (PStr ''processed'')"
    "fst (handle_event sample_sha ?d2 ?h1) =
       Inr [(''status'', PStr ''duplicate''), (''event_id'', PStr ''evt_1'')]"
    by code_simp+
  note r = this
  have "handle_event sample_sha ?d1 ?h0 = (Inr (processed_receipt ?d1 ''fulfill_order''), ?h1)"
    "handle_event sample_sha ?d2 ?h1 =
       (Inr [(''status'', PStr ''duplicate''), (''event_id'', PStr ''evt_1'')], ?h2)"
    using r(1,3) by (simp_all add: deliver_def prod_eq_iff)
  note step = webhook_breaks_audit_chain [OF ok this(1) r(2) this(2), unfolded Let_def]
  let ?e = "al_entries (wh_audit ?h2) ! length (al_entries (wh_audit ?h0))"
  have "sample_sha (entry_content ?e) \<noteq> sample_sha (entry_content (?e\<lparr>ae_details := receipt_of ?d1\<rparr>))"
    by code_simp
  with step show ?thesis by (simp only: Let_def) blast
qed

definition status_word :: "delivery \<Rightarrow> event_store \<Rightarrow> string" where
  "status_word d st =
     (if fresh d st
      then if ev_type (wd_event d) \<in> {''payment_intent.succeeded'', ''payment_intent.payment_failed'', ''charge.refunded''}
        then ''processed'' else ''ignored''
      else ''duplicate'')"

lemma handle_event_outcome:
  assumes "store_ok (wh_event_store h)" "es_retention (wh_event_store h) \<le> wd_moment d"
  shows "\<exists>r h' e. handle_event sha d h = (Inr r, h') \<and>
    dict_get r ''status'' = Some (PStr (status_word d (wh_event_store h))) \<and>
    al_entries (wh_audit h') = al_entries (wh_audit h) @ [e] \<and>
    ae_event_type e = ''webhook.'' @ ev_type (wd_event d) \<and>
    ae_outcome e = (if fresh d (wh_event_store h) then ''success'' else ''duplicate'')"
proof -
  from claim_apply [OF assms(1), of "wd_moment d" "ev_id (wd_event d)"] assms(2) obtain st where
    c: "claim (ev_id (wd_event d)) (wd_moment d) (wh_event_store h) = (Inr (fresh d (wh_event_store h)), st)"
    by (auto simp: fresh_def)
  have left: "ae_event_type (left_entry d l) = ''webhook.'' @ ev_type (wd_event d)"
    "ae_outcome (left_entry d l) = ''success''" for l
    by (simp_all add: left_entry_def receipt_entry_def logged_entry_def webhook_call_def split: option.split)
  have status: "dict_get (outcome_of d) ''status'' = Some (PStr (if ev_type (wd_event d) \<in>
      {''payment_intent.succeeded'', ''payment_intent.payment_failed'', ''charge.refunded''}
      then ''processed'' else ''ignored''))"
    by (auto simp: outcome_of_def action_of_def processed_receipt_def receipt_of_def)
  show ?thesis
  proof (cases "fresh d (wh_event_store h)")
    case True
    with c status left show ?thesis by (simp add: handle_event_claimed status_word_def)
  next
    case False
    with c show ?thesis
      by (simp add: handle_event_duplicate status_word_def al_entries_log logged_entry_def webhook_call_def)
  qed
qed

text \<open>What the webhook endpoint answers. A payload or signature the gateway
  library refuses, and a genuine event more than five minutes old, are answered 400 and leave the
  handler untouched. Any other delivery is answered
  processed, ignored or duplicate, processed only for the three event types that have a handler,
  and exactly one audit entry is written for it, naming the event type.\<close>

theorem webhook_route_outcome:
  assumes "store_ok (wh_event_store h)" "es_retention (wh_event_store h) \<le> wd_moment d"
  shows "case construct_event body sig (wh_webhook_secret h) of
      Inl e \<Rightarrow> handle_stripe_webhook sha construct_event (Inr body) sig now d h =
        (if e \<in> {ValueError, PaymentFlowError, ChannelNotAllowedError, SignatureVerificationError, WebhookVerificationError}
         then Inr Http400 else Inl e, h)
    | Inr event \<Rightarrow>
        if now - 1000000 * ev_created event > 300 * 1000000
        then handle_stripe_webhook sha construct_event (Inr body) sig now d h = (Inr Http400, h)
        else \<exists>status h' e. handle_stripe_webhook sha construct_event (Inr body) sig now d h =
            (Inr (WebhookEventResponse status), h') \<and>
          status = (if fresh (d\<lparr>wd_event := event\<rparr>) (wh_event_store h)
            then if ev_type event \<in> {''payment_intent.succeeded'', ''payment_intent.payment_failed'', ''charge.refunded''}
              then ''processed'' else ''ignored''
            else ''duplicate'') \<and>
          al_entries (wh_audit h') = al_entries (wh_audit h) @ [e] \<and>
          ae_event_type e = ''webhook.'' @ ev_type event \<and>
          ae_outcome e = (if status = ''duplicate'' then ''duplicate'' else ''success'')"
proof (cases "construct_event body sig (wh_webhook_secret h)")
  case (Inl e)
  then show ?thesis by (auto simp: handle_stripe_webhook_def verify_signature_def is_ValueError_def)
next
  case (Inr event)
  show ?thesis
  proof (cases "now - 1000000 * ev_created event > 300 * 1000000")
    case True
    with Inr show ?thesis
      by (simp add: handle_stripe_webhook_def verify_signature_def MAX_TIMESTAMP_DRIFT_SECONDS_def)
  next
    case False
    then have "1000000 * MAX_TIMESTAMP_DRIFT_SECONDS \<ge> now - 1000000 * ev_created event"
      by (simp add: MAX_TIMESTAMP_DRIFT_SECONDS_def)
    with Inr have route: "handle_stripe_webhook sha construct_event (Inr body) sig now d h =
        op_bind (handle_event sha (d\<lparr>wd_event := event\<rparr>)) (\<lambda>r. op_return (WebhookEventResponse
          (case dict_get r ''status'' of Some (PStr s) \<Rightarrow> s | _ \<Rightarrow> ''processed''))) h"
      by (simp add: handle_stripe_webhook_def verify_signature_def)
    from handle_event_outcome [of h "d\<lparr>wd_event := event\<rparr>" sha] assms obtain r h' e where
      r: "handle_event sha (d\<lparr>wd_event := event\<rparr>) h = (Inr r, h')"
        "dict_get r ''status'' = Some (PStr (status_word (d\<lparr>wd_event := event\<rparr>) (wh_event_store h)))"
        "al_entries (wh_audit h') = al_entries (wh_audit h) @ [e]"
        "ae_event_type e = ''webhook.'' @ ev_type event"
        "ae_outcome e = (if fresh (d\<lparr>wd_event := event\<rparr>) (wh_event_store h) then ''success'' else ''duplicate'')"
      by auto
    with route have "handle_stripe_webhook sha construct_event (Inr body) sig now d h =
        (Inr (WebhookEventResponse (status_word (d\<lparr>wd_event := event\<rparr>) (wh_event_store h))), h')"
      by (simp add: op_bind_def op_return_def)
    with r Inr False show ?thesis by (simp add: status_word_def)
  qed
qed

definition sample_construct :: "string \<Rightarrow> string \<Rightarrow> string \<Rightarrow> gateway_event result" where
  "sample_construct body sig secret =
     (if sig = secret then Inr (sample_event body) else Inl SignatureVerificationError)"

theorem webhook_route_outcome_witness:
  "let h = StripeWebhookHandler ''whsec'' sample_store; d = sample_delivery 100000000000 in
   handle_stripe_webhook sample_sha sample_construct (Inr ''charge.refunded'') ''forged'' 0 d h = (Inr Http400, h) \<and>
   handle_stripe_webhook sample_sha sample_construct (Inr ''charge.refunded'') ''whsec'' 300000001 d h = (Inr Http400, h) \<and>
   fst (handle_stripe_webhook sample_sha sample_construct (Inr ''charge.dispute.created'') ''whsec'' 300000000 d h) =
     Inr (WebhookEventResponse ''ignored'')"
proof -
  let ?h = "StripeWebhookHandler ''whsec'' sample_store" and ?d = "sample_delivery 100000000000"
  have hyps: "store_ok (wh_event_store ?h)" "es_retention (wh_event_store ?h) \<le> wd_moment ?d"
    by (simp_all add: StripeWebhookHandler_def sample_store_def store_ok_def sample_delivery_def
        MINIMUM_RETENTION_def)
  have secret: "wh_webhook_secret ?h = ''whsec''" by (simp add: StripeWebhookHandler_def)
  have fr: "fresh (?d\<lparr>wd_event := sample_event ''charge.dispute.created''\<rparr>) (wh_event_store ?h)"
    by (simp add: fresh_def sample_event_def StripeWebhookHandler_def sample_store_def claimed_at_def
        unexpired_def)
  note route = webhook_route_outcome [OF hyps, where construct_event = sample_construct and sha = sample_sha,
      unfolded secret sample_construct_def [of _ _ "''whsec''"]]
  show ?thesis
    using route [where body = "''charge.refunded''" and sig = "''forged''" and now = 0]
      route [where body = "''charge.refunded''" and sig = "''whsec''" and now = 300000001]
      route [where body = "''charge.dispute.created''" and sig = "''whsec''" and now = 300000000]
      fr
    by (auto simp: Let_def sample_event_def)
qed

end
