(* ===== verification/Tax.thy ===== *)
theory Tax
  imports Py_Decimal Py_Json
begin

text \<open>
  VAT: the rate table and its lookup (\<open>tax/country_rates.py\<close>), the calculator
  (\<open>tax/vat_calculator.py\<close>), invoices (\<open>tax/invoice_generator.py\<close>), tax records with their
  retention (\<open>tax/tax_record_store.py\<close>) and the endpoint \<open>api/routes_tax.py\<close>. Calendar dates
  are modelled with the checks of \<open>datetime.date\<close>; today's date is an argument.
\<close>

section \<open>Calendar dates\<close>

record date =
  dt_year :: nat
  dt_month :: nat
  dt_day :: nat

definition leap_year :: "nat \<Rightarrow> bool" where
  "leap_year y \<longleftrightarrow> y mod 4 = 0 \<and> (y mod 100 \<noteq> 0 \<or> y mod 400 = 0)"

definition days_in_month :: "nat \<Rightarrow> nat \<Rightarrow> nat" where
  "days_in_month y m =
     (if m = 2 then (if leap_year y then 29 else 28) else if m \<in> {4, 6, 9, 11} then 30 else 31)"

definition date_ok :: "date \<Rightarrow> bool" where
  "date_ok d \<longleftrightarrow>
     1 \<le> dt_year d \<and> dt_year d \<le> 9999 \<and> 1 \<le> dt_month d \<and> dt_month d \<le> 12 \<and>
     1 \<le> dt_day d \<and> dt_day d \<le> days_in_month (dt_year d) (dt_month d)"

text \<open>\<open>date(year, month, day)\<close>\<close>

definition date_new :: "nat \<Rightarrow> nat \<Rightarrow> nat \<Rightarrow> date result" where
  "date_new y m d =
     (let x = \<lparr>dt_year = y, dt_month = m, dt_day = d\<rparr> in if date_ok x then Inr x else Inl ValueError)"

definition date_le :: "date \<Rightarrow> date \<Rightarrow> bool" where
  "date_le a b \<longleftrightarrow>
     dt_year a < dt_year b \<or>
     dt_year a = dt_year b \<and>
       (dt_month a < dt_month b \<or> dt_month a = dt_month b \<and> dt_day a \<le> dt_day b)"

definition pad_left :: "nat \<Rightarrow> string \<Rightarrow> string" where
  "pad_left k s = zeros (k - length s) @ s"

definition date_isoformat :: "date \<Rightarrow> string" where
  "date_isoformat d =
     pad_left 4 (str_of_nat (dt_year d)) @ ''-'' @ pad_left 2 (str_of_nat (dt_month d)) @ ''-'' @
     pad_left 2 (str_of_nat (dt_day d))"

section \<open>The rate table\<close>

text \<open>A long dash in the source note of a superseded rate is written as a hyphen.\<close>

record vat_rate =
  vr_rate :: decimal
  vr_effective_from :: date
  vr_country_code :: string
  vr_country_name :: string
  vr_source :: string

definition VatRate :: "decimal \<Rightarrow> nat \<Rightarrow> nat \<Rightarrow> nat \<Rightarrow> string \<Rightarrow> string \<Rightarrow> string \<Rightarrow> vat_rate" where
  "VatRate rate y m d code name source =
     \<lparr>vr_rate = rate, vr_effective_from = \<lparr>dt_year = y, dt_month = m, dt_day = d\<rparr>,
      vr_country_code = code, vr_country_name = name, vr_source = source\<rparr>"

definition BALTIC_RATES :: "(string, vat_rate list) dict" where
  "BALTIC_RATES =
     [(''LT'', [VatRate (Dec False 21 (-2)) 2011 7 1 ''LT'' ''Lithuania'' ''EY Baltic Tax Card 2025'']),
      (''LV'', [VatRate (Dec False 21 (-2)) 2013 1 1 ''LV'' ''Latvia'' ''EY Baltic Tax Card 2025'']),
      (''EE'', [VatRate (Dec False 24 (-2)) 2025 7 1 ''EE'' ''Estonia''
                 ''AWS EMEA VAT Tables (confirmed July 2026)'',
               VatRate (Dec False 22 (-2)) 2024 1 1 ''EE'' ''Estonia''
                 ''AWS EMEA VAT Tables (historical - superseded 2025-07-01)''])]"

definition EU_27_RATES :: "(string, vat_rate list) dict" where
  "EU_27_RATES = BALTIC_RATES @
     [
      (''AT'', [VatRate (Dec False 20 (-2)) 2011 1 1 ''AT'' ''Austria'' []]),
      (''BE'', [VatRate (Dec False 21 (-2)) 2010 1 1 ''BE'' ''Belgium'' []]),
      (''BG'', [VatRate (Dec False 20 (-2)) 2007 1 1 ''BG'' ''Bulgaria'' []]),
      (''HR'', [VatRate (Dec False 25 (-2)) 2013 7 1 ''HR'' ''Croatia'' []]),
      (''CY'', [VatRate (Dec False 19 (-2)) 2014 1 1 ''CY'' ''Cyprus'' []]),
      (''CZ'', [VatRate (Dec False 21 (-2)) 2013 1 1 ''CZ'' ''Czech Republic'' []]),
      (''DK'', [VatRate (Dec False 25 (-2)) 1992 1 1 ''DK'' ''Denmark'' []]),
      (''FI'', [VatRate (Dec False 255 (-3)) 2024 9 1 ''FI'' ''Finland'' []]),
      (''FR'', [VatRate (Dec False 20 (-2)) 2014 1 1 ''FR'' ''France'' []]),
      (''DE'', [VatRate (Dec False 19 (-2)) 2021 1 1 ''DE'' ''Germany'' []]),
      (''GR'', [VatRate (Dec False 24 (-2)) 2016 6 1 ''GR'' ''Greece'' []]),
      (''HU'', [VatRate (Dec False 27 (-2)) 2012 1 1 ''HU'' ''Hungary'' []]),
      (''IE'', [VatRate (Dec False 23 (-2)) 2021 3 1 ''IE'' ''Ireland'' []]),
      (''IT'', [VatRate (Dec False 22 (-2)) 2013 10 1 ''IT'' ''Italy'' []]),
      (''LU'', [VatRate (Dec False 17 (-2)) 2015 1 1 ''LU'' ''Luxembourg'' []]),
      (''MT'', [VatRate (Dec False 18 (-2)) 2010 1 1 ''MT'' ''Malta'' []]),
      (''NL'', [VatRate (Dec False 21 (-2)) 2012 10 1 ''NL'' ''Netherlands'' []]),
      (''PL'', [VatRate (Dec False 23 (-2)) 2011 1 1 ''PL'' ''Poland'' []]),
      (''PT'', [VatRate (Dec False 23 (-2)) 2011 1 1 ''PT'' ''Portugal'' []]),
      (''RO'', [VatRate (Dec False 19 (-2)) 2017 1 1 ''RO'' ''Romania'' []]),
      (''SK'', [VatRate (Dec False 20 (-2)) 2011 1 1 ''SK'' ''Slovakia'' []]),
      (''SI'', [VatRate (Dec False 22 (-2)) 2013 7 1 ''SI'' ''Slovenia'' []]),
      (''ES'', [VatRate (Dec False 21 (-2)) 2012 9 1 ''ES'' ''Spain'' []]),
      (''SE'', [VatRate (Dec False 25 (-2)) 1992 1 1 ''SE'' ''Sweden'' []])]"

text \<open>The first rate of the list that was in force, else the last of the list.\<close>

fun rate_on :: "date \<Rightarrow> vat_rate list \<Rightarrow> vat_rate list \<Rightarrow> decimal result" where
  "rate_on d rates [] = (if rates = [] then Inl ValueError else Inr (vr_rate (last rates)))"
| "rate_on d rates (r # rs) =
     (if date_le (vr_effective_from r) d then Inr (vr_rate r) else rate_on d rates rs)"

definition get_vat_rate :: "date \<Rightarrow> string \<Rightarrow> date option \<Rightarrow> decimal result" where
  "get_vat_rate today country_code transaction_date =
     (let country_code = str_upper country_code in
      case dict_get EU_27_RATES country_code of
        None \<Rightarrow> Inl ValueError
      | Some rates \<Rightarrow>
          rate_on (case transaction_date of None \<Rightarrow> today | Some d \<Rightarrow> d) rates rates)"

section \<open>The calculator\<close>

record vat_calculation =
  vc_net_amount :: decimal
  vc_vat_amount :: decimal
  vc_gross_amount :: decimal
  vc_vat_rate :: decimal
  vc_country_code :: string
  vc_transaction_date :: date

definition vat_to_dict :: "vat_calculation \<Rightarrow> (string, string) dict" where
  "vat_to_dict v =
     [(''net_amount'', dec_str (vc_net_amount v)), (''vat_amount'', dec_str (vc_vat_amount v)),
      (''gross_amount'', dec_str (vc_gross_amount v)), (''vat_rate'', dec_str (vc_vat_rate v)),
      (''country_code'', vc_country_code v),
      (''transaction_date'', date_isoformat (vc_transaction_date v))]"

definition calculate_from_net :: "date \<Rightarrow> decimal \<Rightarrow> string \<Rightarrow> date option \<Rightarrow> vat_calculation result" where
  "calculate_from_net today net_amount country_code transaction_date =
     (let d = (case transaction_date of None \<Rightarrow> today | Some d \<Rightarrow> d) in
      res_bind (get_vat_rate today country_code (Some d)) (\<lambda>vat_rate.
      res_bind (dec_mul net_amount vat_rate) (\<lambda>p.
      res_bind (dec_quantize ROUND_HALF_UP (-2) p) (\<lambda>vat_amount.
      res_bind (dec_add net_amount vat_amount) (\<lambda>gross_amount.
        Inr \<lparr>vc_net_amount = net_amount, vc_vat_amount = vat_amount, vc_gross_amount = gross_amount,
             vc_vat_rate = vat_rate, vc_country_code = country_code, vc_transaction_date = d\<rparr>)))))"

definition calculate_from_gross :: "date \<Rightarrow> decimal \<Rightarrow> string \<Rightarrow> date option \<Rightarrow> vat_calculation result" where
  "calculate_from_gross today gross_amount country_code transaction_date =
     (let d = (case transaction_date of None \<Rightarrow> today | Some d \<Rightarrow> d) in
      res_bind (get_vat_rate today country_code (Some d)) (\<lambda>vat_rate.
      res_bind (dec_add (Dec False 1 0) vat_rate) (\<lambda>divisor.
      res_bind (dec_div gross_amount divisor) (\<lambda>p.
      res_bind (dec_quantize ROUND_HALF_UP (-2) p) (\<lambda>net_amount.
      res_bind (dec_sub gross_amount net_amount) (\<lambda>vat_amount.
        Inr \<lparr>vc_net_amount = net_amount, vc_vat_amount = vat_amount, vc_gross_amount = gross_amount,
             vc_vat_rate = vat_rate, vc_country_code = country_code, vc_transaction_date = d\<rparr>))))))"

section \<open>Invoices\<close>

record invoice_line_item =
  il_description :: string
  il_quantity :: int
  il_unit_price_net :: decimal
  il_country_code :: string
  il_transaction_date :: date

definition vat_calculation_of :: "date \<Rightarrow> invoice_line_item \<Rightarrow> vat_calculation result" where
  "vat_calculation_of today item =
     res_bind (dec_mul (il_unit_price_net item) (dec_of_int (il_quantity item))) (\<lambda>total_net.
     calculate_from_net today total_net (il_country_code item) (Some (il_transaction_date item)))"

record invoice =
  in_invoice_number :: string
  in_invoice_date :: date
  in_seller_name :: string
  in_seller_vat_number :: string
  in_buyer_name :: string
  in_buyer_country :: string
  in_line_items :: "invoice_line_item list"
  in_currency :: string

fun sum_items :: "date \<Rightarrow> (vat_calculation \<Rightarrow> decimal) \<Rightarrow> decimal \<Rightarrow> invoice_line_item list \<Rightarrow> decimal result" where
  "sum_items today field acc [] = Inr acc"
| "sum_items today field acc (i # is) =
     res_bind (vat_calculation_of today i) (\<lambda>v.
     res_bind (dec_add acc (field v)) (\<lambda>acc. sum_items today field acc is))"

definition total_net :: "date \<Rightarrow> invoice \<Rightarrow> decimal result" where
  "total_net today bill = sum_items today vc_net_amount (Dec False 0 0) (in_line_items bill)"

definition total_vat :: "date \<Rightarrow> invoice \<Rightarrow> decimal result" where
  "total_vat today bill = sum_items today vc_vat_amount (Dec False 0 0) (in_line_items bill)"

definition total_gross :: "date \<Rightarrow> invoice \<Rightarrow> decimal result" where
  "total_gross today bill =
     res_bind (total_net today bill) (\<lambda>n. res_bind (total_vat today bill) (\<lambda>v. dec_add n v))"

definition line_to_dict :: "date \<Rightarrow> invoice_line_item \<Rightarrow> pyval result" where
  "line_to_dict today item =
     res_bind (vat_calculation_of today item) (\<lambda>v. Inr (PDict
       [(''description'', PStr (il_description item)), (''quantity'', PInt (il_quantity item)),
        (''unit_price_net'', PStr (dec_str (il_unit_price_net item))),
        (''net_total'', PStr (dec_str (vc_net_amount v))), (''vat_amount'', PStr (dec_str (vc_vat_amount v))),
        (''vat_rate'', PStr (dec_str (vc_vat_rate v))), (''gross_total'', PStr (dec_str (vc_gross_amount v)))]))"

fun res_map :: "('a \<Rightarrow> 'b result) \<Rightarrow> 'a list \<Rightarrow> 'b list result" where
  "res_map f [] = Inr []"
| "res_map f (x # xs) = res_bind (f x) (\<lambda>y. res_bind (res_map f xs) (\<lambda>ys. Inr (y # ys)))"

definition invoice_to_dict :: "date \<Rightarrow> string \<Rightarrow> invoice \<Rightarrow> pyval result" where
  "invoice_to_dict today generated_at bill =
     res_bind (res_map (line_to_dict today) (in_line_items bill)) (\<lambda>items.
     res_bind (total_net today bill) (\<lambda>net.
     res_bind (total_vat today bill) (\<lambda>vat.
     res_bind (total_gross today bill) (\<lambda>gross.
     Inr (PDict
       [(''invoice_number'', PStr (in_invoice_number bill)),
        (''invoice_date'', PStr (date_isoformat (in_invoice_date bill))),
        (''seller'', PDict [(''name'', PStr (in_seller_name bill)), (''vat_number'', PStr (in_seller_vat_number bill))]),
        (''buyer'', PDict [(''name'', PStr (in_buyer_name bill)), (''country'', PStr (in_buyer_country bill))]),
        (''line_items'', PList items),
        (''totals'', PDict [(''net'', PStr (dec_str net)), (''vat'', PStr (dec_str vat)),
           (''gross'', PStr (dec_str gross)), (''currency'', PStr (in_currency bill))]),
        (''generated_at'', PStr generated_at)])))))"

text \<open>The class counter of the generator is its state.\<close>

definition generate ::
    "date \<Rightarrow> string \<Rightarrow> string \<Rightarrow> string \<Rightarrow> string \<Rightarrow> invoice_line_item list \<Rightarrow> string \<Rightarrow> nat \<Rightarrow> invoice \<times> nat" where
  "generate today seller_name seller_vat_number buyer_name buyer_country line_items currency counter =
     (let counter = counter + 1 in
      (\<lparr>in_invoice_number = ''JOL-'' @ str_of_nat (dt_year today) @
          pad_left 2 (str_of_nat (dt_month today)) @ ''-'' @ pad_left 6 (str_of_nat counter),
        in_invoice_date = today, in_seller_name = seller_name,
        in_seller_vat_number = seller_vat_number, in_buyer_name = buyer_name,
        in_buyer_country = buyer_country, in_line_items = line_items, in_currency = currency\<rparr>,
       counter))"

section \<open>Tax records\<close>

record tax_record =
  tx_record_id :: string
  tx_order_id :: string
  tx_country_code :: string
  tx_net_amount :: decimal
  tx_vat_amount :: decimal
  tx_gross_amount :: decimal
  tx_vat_rate :: decimal
  tx_transaction_date :: date
  tx_invoice_number :: "string option"
  tx_created_at :: string
  tx_retention_until :: "date option"
  tx_RETENTION_YEARS :: nat

text \<open>The dataclass constructor: the given fields, then \<open>__post_init__\<close>.\<close>

definition TaxRecord :: "string \<Rightarrow> tax_record \<Rightarrow> tax_record result" where
  "TaxRecord now r =
     (let r = (if tx_created_at r = [] then r\<lparr>tx_created_at := now\<rparr> else r) in
      case tx_retention_until r of
        Some _ \<Rightarrow> Inr r
      | None \<Rightarrow>
          res_bind (date_new (dt_year (tx_transaction_date r) + tx_RETENTION_YEARS r)
              (dt_month (tx_transaction_date r)) (dt_day (tx_transaction_date r))) (\<lambda>d.
          Inr (r\<lparr>tx_retention_until := Some d\<rparr>)))"

type_synonym tax_record_store = "tax_record list"

definition store_tax_record :: "tax_record \<Rightarrow> tax_record_store \<Rightarrow> tax_record_store" where
  "store_tax_record r st = st @ [r]"

definition tax_by_order :: "string \<Rightarrow> tax_record_store \<Rightarrow> tax_record list" where
  "tax_by_order order_id st = filter (\<lambda>r. tx_order_id r = order_id) st"

definition get_by_country ::
    "string \<Rightarrow> date option \<Rightarrow> date option \<Rightarrow> tax_record_store \<Rightarrow> tax_record list" where
  "get_by_country country_code from_date to_date st =
     (let results = filter (\<lambda>r. tx_country_code r = country_code) st;
          results = (case from_date of None \<Rightarrow> results
            | Some d \<Rightarrow> filter (\<lambda>r. date_le d (tx_transaction_date r)) results)
      in case to_date of None \<Rightarrow> results
         | Some d \<Rightarrow> filter (\<lambda>r. date_le (tx_transaction_date r) d) results)"

definition count_retention :: "tax_record \<Rightarrow> (string, nat) dict \<Rightarrow> (string, nat) dict" where
  "count_retention r report =
     (case tx_retention_until r of
        None \<Rightarrow> report
      | Some d \<Rightarrow>
          let year = str_of_nat (dt_year d) in
          dict_set year ((case dict_get report year of None \<Rightarrow> 0 | Some n \<Rightarrow> n) + 1) report)"

definition get_retention_report :: "tax_record_store \<Rightarrow> (string, nat) dict" where
  "get_retention_report st = fold count_retention st []"

section \<open>The endpoint\<close>

record vat_request =
  vq_net_amount :: decimal
  vq_country_code :: string
  vq_transaction_date :: "date option"

text \<open>Infinities and NaNs are refused by the decimal type of the request model.\<close>

definition vat_request_valid :: "vat_request \<Rightarrow> bool" where
  "vat_request_valid q \<longleftrightarrow>
     dec_finite (vq_net_amount q) \<and> dec_lt (Dec False 0 0) (vq_net_amount q) = Inr True \<and> length (vq_country_code q) = 2"

text \<open>\<open>None\<close> is the answer 422 to a request body that does not satisfy its model.\<close>

definition calculate_vat :: "date \<Rightarrow> vat_request \<Rightarrow> (string, string) dict option result" where
  "calculate_vat today q =
     (if \<not> vat_request_valid q then Inr None
      else
        let transaction_date = (case vq_transaction_date q of None \<Rightarrow> today | Some d \<Rightarrow> d) in
        res_bind (calculate_from_net today (vq_net_amount q) (vq_country_code q) (Some transaction_date)) (\<lambda>result.
        Inr (Some (vat_to_dict result))))"

interpretation tax_store: append_log "\<lambda>st. st" store_tax_record
  by unfold_locales (simp add: store_tax_record_def)

section \<open>The table\<close>

fun rate_shape :: "decimal \<Rightarrow> bool" where
  "rate_shape (Dec s n e) \<longleftrightarrow> \<not> s \<and> 0 < n \<and> n < 1000 \<and> (e = -2 \<or> e = -3)"
| "rate_shape _ \<longleftrightarrow> False"

fun newest_first :: "vat_rate list \<Rightarrow> bool" where
  "newest_first [] = True"
| "newest_first (r # rs) =
     (list_all (\<lambda>x. date_le (vr_effective_from x) (vr_effective_from r)) rs \<and> newest_first rs)"

definition rates_ok :: "string \<times> vat_rate list \<Rightarrow> bool" where
  "rates_ok p \<longleftrightarrow>
     snd p \<noteq> [] \<and> newest_first (snd p) \<and>
     list_all (\<lambda>r. rate_shape (vr_rate r) \<and> date_ok (vr_effective_from r) \<and> vr_country_code r = fst p) (snd p)"

lemma table_ok: "list_all rates_ok EU_27_RATES"
  by code_simp

lemma table_entry:
  "dict_get EU_27_RATES cc = Some rates \<Longrightarrow>
     rates \<noteq> [] \<and> newest_first rates \<and> list_all (\<lambda>r. rate_shape (vr_rate r)) rates"
  using table_ok by (auto simp: list_all_iff rates_ok_def dest!: map_of_SomeD)

lemma date_le_refl [simp]: "date_le d d"
  by (simp add: date_le_def)

lemma date_le_trans: "date_le a b \<Longrightarrow> date_le b c \<Longrightarrow> date_le a c"
  by (auto simp: date_le_def)

lemma date_le_total: "date_le a b \<or> date_le b a"
  by (auto simp: date_le_def)

text \<open>The lookup loop on a suffix of the list: the first rate in force, or the oldest.\<close>

lemma rate_on_cases:
  assumes "rates \<noteq> []"
  shows "\<exists>r. rate_on d rates rs = Inr (vr_rate r) \<and>
    (r \<in> set rs \<and> date_le (vr_effective_from r) d \<and>
       (newest_first rs \<longrightarrow> (\<forall>x \<in> set rs. date_le (vr_effective_from x) d \<longrightarrow>
          date_le (vr_effective_from x) (vr_effective_from r))) \<or>
     r = last rates \<and> (\<forall>x \<in> set rs. \<not> date_le (vr_effective_from x) d))"
proof (induction rs)
  case Nil
  with assms show ?case by auto
next
  case (Cons x rs)
  show ?case
  proof (cases "date_le (vr_effective_from x) d")
    case True
    then show ?thesis by (auto simp: list_all_iff)
  next
    case False
    with Cons show ?thesis by auto
  qed
qed

lemma newest_first_last: "newest_first rs \<Longrightarrow> x \<in> set rs \<Longrightarrow> date_le (vr_effective_from (last rs)) (vr_effective_from x)"
  by (induction rs) (auto simp: list_all_iff)

lemma get_vat_rate_shape: "get_vat_rate today cc d = Inr r \<Longrightarrow> rate_shape r"
proof -
  assume "get_vat_rate today cc d = Inr r"
  then obtain rates t where rates: "dict_get EU_27_RATES (str_upper cc) = Some rates"
    and r: "rate_on t rates rates = Inr r"
    by (auto simp: get_vat_rate_def Let_def split: option.splits)
  note t = table_entry [OF rates]
  then have "rates \<noteq> []" by simp
  from rate_on_cases [OF this, of t rates] r t show "rate_shape r"
    by (auto simp: list_all_iff)
qed

section \<open>Properties\<close>

text \<open>The matrix of \<open>docs/vat-matrix.md\<close>: the standard rate of each country and the date it is in force from.\<close>

definition vat_matrix :: "(string \<times> decimal \<times> date) list" where
  "vat_matrix =
     [(''AT'', Dec False 20 (-2), \<lparr>dt_year = 2011, dt_month = 1, dt_day = 1\<rparr>), (''BE'', Dec False 21 (-2), \<lparr>dt_year = 2010, dt_month = 1, dt_day = 1\<rparr>),
      (''BG'', Dec False 20 (-2), \<lparr>dt_year = 2007, dt_month = 1, dt_day = 1\<rparr>), (''HR'', Dec False 25 (-2), \<lparr>dt_year = 2013, dt_month = 7, dt_day = 1\<rparr>),
      (''CY'', Dec False 19 (-2), \<lparr>dt_year = 2014, dt_month = 1, dt_day = 1\<rparr>), (''CZ'', Dec False 21 (-2), \<lparr>dt_year = 2013, dt_month = 1, dt_day = 1\<rparr>),
      (''DK'', Dec False 25 (-2), \<lparr>dt_year = 1992, dt_month = 1, dt_day = 1\<rparr>), (''EE'', Dec False 24 (-2), \<lparr>dt_year = 2025, dt_month = 7, dt_day = 1\<rparr>),
      (''FI'', Dec False 255 (-3), \<lparr>dt_year = 2024, dt_month = 9, dt_day = 1\<rparr>), (''FR'', Dec False 20 (-2), \<lparr>dt_year = 2014, dt_month = 1, dt_day = 1\<rparr>),
      (''DE'', Dec False 19 (-2), \<lparr>dt_year = 2021, dt_month = 1, dt_day = 1\<rparr>), (''GR'', Dec False 24 (-2), \<lparr>dt_year = 2016, dt_month = 6, dt_day = 1\<rparr>),
      (''HU'', Dec False 27 (-2), \<lparr>dt_year = 2012, dt_month = 1, dt_day = 1\<rparr>), (''IE'', Dec False 23 (-2), \<lparr>dt_year = 2021, dt_month = 3, dt_day = 1\<rparr>),
      (''IT'', Dec False 22 (-2), \<lparr>dt_year = 2013, dt_month = 10, dt_day = 1\<rparr>), (''LV'', Dec False 21 (-2), \<lparr>dt_year = 2013, dt_month = 1, dt_day = 1\<rparr>),
      (''LT'', Dec False 21 (-2), \<lparr>dt_year = 2011, dt_month = 7, dt_day = 1\<rparr>), (''LU'', Dec False 17 (-2), \<lparr>dt_year = 2015, dt_month = 1, dt_day = 1\<rparr>),
      (''MT'', Dec False 18 (-2), \<lparr>dt_year = 2010, dt_month = 1, dt_day = 1\<rparr>), (''NL'', Dec False 21 (-2), \<lparr>dt_year = 2012, dt_month = 10, dt_day = 1\<rparr>),
      (''PL'', Dec False 23 (-2), \<lparr>dt_year = 2011, dt_month = 1, dt_day = 1\<rparr>), (''PT'', Dec False 23 (-2), \<lparr>dt_year = 2011, dt_month = 1, dt_day = 1\<rparr>),
      (''RO'', Dec False 19 (-2), \<lparr>dt_year = 2017, dt_month = 1, dt_day = 1\<rparr>), (''SK'', Dec False 20 (-2), \<lparr>dt_year = 2011, dt_month = 1, dt_day = 1\<rparr>),
      (''SI'', Dec False 22 (-2), \<lparr>dt_year = 2013, dt_month = 7, dt_day = 1\<rparr>), (''ES'', Dec False 21 (-2), \<lparr>dt_year = 2012, dt_month = 9, dt_day = 1\<rparr>),
      (''SE'', Dec False 25 (-2), \<lparr>dt_year = 1992, dt_month = 1, dt_day = 1\<rparr>)]"

lemma matrix_heads:
  "list_all (\<lambda>(cc, r, from_date). case dict_get EU_27_RATES (str_upper cc) of
     Some (x # xs) \<Rightarrow> vr_rate x = r \<and> vr_effective_from x = from_date | _ \<Rightarrow> False) vat_matrix"
  by code_simp

lemma matrix_rate:
  assumes "(cc, r, from_date) \<in> set vat_matrix" "date_le from_date d"
  shows "get_vat_rate today cc (Some d) = Inr r"
proof -
  obtain x xs where "dict_get EU_27_RATES (str_upper cc) = Some (x # xs)" "vr_rate x = r" "vr_effective_from x = from_date"
    using bspec [OF matrix_heads [unfolded list_all_iff] assms(1), unfolded prod.case]
    by (cases "dict_get EU_27_RATES (str_upper cc)"; cases "the (dict_get EU_27_RATES (str_upper cc))") simp_all
  with assms(2) show ?thesis by (simp add: get_vat_rate_def)
qed

text \<open>C29: The rate in force. Every country of the documented matrix has the documented rate from its
  effective date on. For every country of the table, in either case of the country code, the
  lookup returns the most recent rate that was in force on the transaction date, and the oldest
  rate on record for earlier dates; a country outside the table raises ValueError. Estonia has 24
  percent from 1 July 2025 and 22 percent from 1 January 2024; for every date before 2024 the code
  also answers 22 percent, its oldest rate on record, where the history in docs/vat-matrix.md has
  20 percent from 1 July 2009.\<close>

theorem vat_rate_in_force:
  "list_all (\<lambda>(country, rate, from_date). date_le from_date d \<longrightarrow> get_vat_rate today country (Some d) = Inr rate) vat_matrix \<and>
   (case dict_get EU_27_RATES (str_upper cc) of
      None \<Rightarrow> get_vat_rate today cc (Some d) = Inl ValueError
    | Some rates \<Rightarrow> \<exists>r \<in> set rates. get_vat_rate today cc (Some d) = Inr (vr_rate r) \<and>
        (if \<exists>x \<in> set rates. date_le (vr_effective_from x) d
         then date_le (vr_effective_from r) d \<and>
           list_all (\<lambda>x. \<not> date_le (vr_effective_from x) d \<or>
             date_le (vr_effective_from x) (vr_effective_from r)) rates
         else list_all (\<lambda>x. date_le (vr_effective_from r) (vr_effective_from x)) rates)) \<and>
   get_vat_rate today ''ee'' (Some d) =
     (if date_le \<lparr>dt_year = 2025, dt_month = 7, dt_day = 1\<rparr> d then Inr (Dec False 24 (-2))
      else if date_le \<lparr>dt_year = 2024, dt_month = 1, dt_day = 1\<rparr> d then Inr (Dec False 22 (-2))
      else Inr (Dec False 22 (-2)))"
proof (intro conjI)
  show "list_all (\<lambda>(country, rate, from_date). date_le from_date d \<longrightarrow> get_vat_rate today country (Some d) = Inr rate) vat_matrix"
    using matrix_rate by (auto simp: list_all_iff)
  show "case dict_get EU_27_RATES (str_upper cc) of
      None \<Rightarrow> get_vat_rate today cc (Some d) = Inl ValueError
    | Some rates \<Rightarrow> \<exists>r \<in> set rates. get_vat_rate today cc (Some d) = Inr (vr_rate r) \<and>
        (if \<exists>x \<in> set rates. date_le (vr_effective_from x) d
         then date_le (vr_effective_from r) d \<and>
           list_all (\<lambda>x. \<not> date_le (vr_effective_from x) d \<or>
             date_le (vr_effective_from x) (vr_effective_from r)) rates
         else list_all (\<lambda>x. date_le (vr_effective_from r) (vr_effective_from x)) rates)"
  proof (cases "dict_get EU_27_RATES (str_upper cc)")
    case (Some rates)
    note t = table_entry [OF Some]
    then have ne: "rates \<noteq> []" by simp
    obtain r where r: "rate_on d rates rates = Inr (vr_rate r)"
      and c: "r \<in> set rates \<and> date_le (vr_effective_from r) d \<and>
          (newest_first rates \<longrightarrow> (\<forall>x \<in> set rates. date_le (vr_effective_from x) d \<longrightarrow>
             date_le (vr_effective_from x) (vr_effective_from r))) \<or>
        r = last rates \<and> (\<forall>x \<in> set rates. \<not> date_le (vr_effective_from x) d)"
      using rate_on_cases [OF ne, of d rates] by blast
    from c ne have "r \<in> set rates" by auto
    with r c t newest_first_last [of rates] Some show ?thesis
      by (intro option.case_eq_if [THEN iffD2]) (auto simp: get_vat_rate_def list_all_iff)
  qed (simp add: get_vat_rate_def)
  have "dict_get EU_27_RATES (str_upper ''ee'') =
      Some [VatRate (Dec False 24 (-2)) 2025 7 1 ''EE'' ''Estonia''
              ''AWS EMEA VAT Tables (confirmed July 2026)'',
            VatRate (Dec False 22 (-2)) 2024 1 1 ''EE'' ''Estonia''
              ''AWS EMEA VAT Tables (historical - superseded 2025-07-01)'']" by code_simp
  then show "get_vat_rate today ''ee'' (Some d) =
     (if date_le \<lparr>dt_year = 2025, dt_month = 7, dt_day = 1\<rparr> d then Inr (Dec False 24 (-2))
      else if date_le \<lparr>dt_year = 2024, dt_month = 1, dt_day = 1\<rparr> d then Inr (Dec False 22 (-2))
      else Inr (Dec False 22 (-2)))"
    by (simp add: get_vat_rate_def VatRate_def)
qed

definition sample_today :: date where
  "sample_today = \<lparr>dt_year = 2026, dt_month = 1, dt_day = 1\<rparr>"

theorem vat_rate_in_force_witness:
  "get_vat_rate sample_today ''ee'' (Some \<lparr>dt_year = 2025, dt_month = 6, dt_day = 30\<rparr>) = Inr (Dec False 22 (-2)) \<and>
   get_vat_rate sample_today ''ee'' (Some \<lparr>dt_year = 2025, dt_month = 7, dt_day = 1\<rparr>) = Inr (Dec False 24 (-2)) \<and>
   get_vat_rate sample_today ''FI'' (Some \<lparr>dt_year = 2025, dt_month = 7, dt_day = 1\<rparr>) = Inr (Dec False 255 (-3)) \<and>
   get_vat_rate sample_today ''us'' (Some \<lparr>dt_year = 2025, dt_month = 7, dt_day = 1\<rparr>) = Inl ValueError"
proof -
  have none: "dict_get EU_27_RATES (str_upper ''us'') = None" by code_simp
  show ?thesis
    using vat_rate_in_force [where cc = "''us''" and today = sample_today and d = "\<lparr>dt_year = 2025, dt_month = 6, dt_day = 30\<rparr>"]
      vat_rate_in_force [where cc = "''us''" and today = sample_today and d = "\<lparr>dt_year = 2025, dt_month = 7, dt_day = 1\<rparr>"]
    by (simp add: none date_le_def vat_matrix_def)
qed

text \<open>Arithmetic on cents: a product with a rate rounded half up, and sums, inside 28 digits.\<close>

lemma rate_shapeE:
  assumes "rate_shape r"
  obtains n k where "r = Dec False n (- int k)" "n < 1000" "k = 2 \<or> k = 3"
proof (cases r)
  case (Dec s n e)
  with assms that [of n "nat (- e)"] show ?thesis by auto
qed (use assms in auto)

lemma small_digits: "n < 10 ^ 28 \<Longrightarrow> ndigits n \<le> 28"
  using ndigits_le_iff [of 28 n] by simp

lemma quantize_cents:
  assumes "p < 10 ^ 28" "k = 2 \<or> k = 3"
  shows "dec_quantize ROUND_HALF_UP (-2) (Dec False p (- 2 - int k)) =
    Inr (Dec False (round_quot ROUND_HALF_UP p (10 ^ k)) (-2))"
proof (cases "p = 0")
  case True
  with assms(2) show ?thesis by (auto simp: round_quot.simps)
next
  case False
  let ?q = "round_quot ROUND_HALF_UP p (10 ^ k)"
  have "?q \<le> p" by (intro round_quot_le) auto
  with assms(1) have "ndigits ?q \<le> 28" by (intro small_digits) simp
  moreover have "ndigits p \<le> 28" using assms(1) by (rule small_digits)
  moreover have "dec_rescale ROUND_HALF_UP p (- 2 - int k) (-2) = ?q" using assms(2) by auto
  ultimately show ?thesis using False assms(2) by (simp add: dec_context Let_def)
qed

lemma add_cents:
  assumes "a + b < 10 ^ 28"
  shows "dec_add (Dec False a (-2)) (Dec False b (-2)) = Inr (Dec False (a + b) (-2))"
    and "dec_add (Dec False 0 0) (Dec False b (-2)) = Inr (Dec False b (-2))"
  using assms dec_fix_exact [of "a + b" "-2" False] dec_fix_exact [of b "-2" False]
  by (auto simp: signed_def dec_context Let_def nat_add_distrib simp del: dec_fix.simps)

definition vat_cents :: "decimal \<Rightarrow> nat \<Rightarrow> nat" where
  "vat_cents r c =
     (case r of Dec s n e \<Rightarrow> round_quot ROUND_HALF_UP (c * n) (10 ^ nat (- e)) | _ \<Rightarrow> 0)"

lemma vat_cents_le: "rate_shape r \<Longrightarrow> vat_cents r c \<le> 10 * c"
proof (erule rate_shapeE)
  fix n k :: nat
  assume r: "r = Dec False n (- int k)" and n: "n < 1000" and k: "k = 2 \<or> k = 3"
  have "c * n \<le> 10 * c * 10 ^ k" using n k by auto
  then show ?thesis using r by (simp add: vat_cents_def round_quot_le)
qed

lemma calculate_cents:
  assumes rate: "get_vat_rate today cc (Some d) = Inr r" and c: "c < 10 ^ 24"
  shows "calculate_from_net today (Dec False c (-2)) cc (Some d) =
    Inr \<lparr>vc_net_amount = Dec False c (-2), vc_vat_amount = Dec False (vat_cents r c) (-2),
         vc_gross_amount = Dec False (c + vat_cents r c) (-2), vc_vat_rate = r,
         vc_country_code = cc, vc_transaction_date = d\<rparr>"
proof -
  have shape: "rate_shape r" using rate by (rule get_vat_rate_shape)
  then obtain n k where r: "r = Dec False n (- int k)" and n: "n < 1000" and k: "k = 2 \<or> k = 3"
    by (rule rate_shapeE)
  have "c * n < 10 ^ 24 * 1000" using c n by (intro mult_strict_mono) auto
  then have p: "c * n < 10 ^ 28" by simp
  have "dec_mul (Dec False c (-2)) r = Inr (Dec False (c * n) (- 2 - int k))"
    using dec_fix_exact [OF p, of "- 2 - int k" False] k by (auto simp: r dec_context simp del: dec_fix.simps)
  moreover have "vat_cents r c = round_quot ROUND_HALF_UP (c * n) (10 ^ k)"
    by (simp add: r vat_cents_def)
  moreover have "c + vat_cents r c < 10 ^ 28" using vat_cents_le [OF shape, of c] c by simp
  ultimately show ?thesis
    using rate quantize_cents [OF p k] by (simp add: calculate_from_net_def add_cents del: dec_quantize.simps dec_add.simps)
qed

text \<open>C30: VAT on a net amount in cents is exact to the cent. For every amount below 10^24 cents
  and every country and date with a rate, the calculation succeeds; the VAT is a number of cents,
  the exact product of the amount in cents and the rate rounded half up, that is one half added
  and the fraction dropped; the gross amount is in cents too, the exact sum of net amount and VAT;
  and country and date are those asked for. Nothing is lost in the 28-digit context.\<close>

theorem vat_from_net_exact:
  assumes "get_vat_rate today cc (Some d) = Inr r" and "c < 10 ^ 24"
  shows "\<exists>v q. calculate_from_net today (Dec False c (-2)) cc (Some d) = Inr v \<and>
    vc_net_amount v = Dec False c (-2) \<and> vc_vat_rate v = r \<and>
    vc_vat_amount v = Dec False q (-2) \<and> int q = \<lfloor>of_nat c * dval r + 1 / 2\<rfloor> \<and>
    vc_gross_amount v = Dec False (c + q) (-2) \<and>
    vc_country_code v = cc \<and> vc_transaction_date v = d"
proof -
  have shape: "rate_shape r" using assms(1) by (rule get_vat_rate_shape)
  then obtain n k where r: "r = Dec False n (- int k)" and k: "k = 2 \<or> k = 3" by (rule rate_shapeE)
  let ?q = "vat_cents r c"
  have q: "?q = round_quot ROUND_HALF_UP (c * n) (10 ^ k)" by (simp add: r vat_cents_def)
  have "2 * (c * n) < 2 * ?q * 10 ^ k + 10 ^ k" "2 * ?q * 10 ^ k \<le> 2 * (c * n) + 10 ^ k"
    unfolding q by (rule round_quot_half_up, simp)+
  then have "(of_nat (2 * (c * n)) :: rat) < of_nat (2 * ?q * 10 ^ k + 10 ^ k)"
    "(of_nat (2 * ?q * 10 ^ k) :: rat) \<le> of_nat (2 * (c * n) + 10 ^ k)"
    by (simp_all only: of_nat_less_iff of_nat_le_iff)
  moreover have "of_nat c * dval r = of_nat (c * n) / (10 ^ k :: rat)"
    using k by (auto simp: r signed_def power_int_minus field_simps)
  moreover have "\<lfloor>z / 10 ^ k + 1 / 2\<rfloor> = int ?q"
    if "2 * z < of_nat (2 * ?q * 10 ^ k + 10 ^ k)" "of_nat (2 * ?q * 10 ^ k) \<le> 2 * z + 10 ^ k" for z :: rat
    using that k by (intro floor_unique) (auto simp: field_simps)
  ultimately have "\<lfloor>of_nat c * dval r + 1 / 2\<rfloor> = int ?q" by simp
  then show ?thesis
    using calculate_cents [OF assms] by (auto intro: exI [of _ ?q])
qed

theorem vat_from_net_exact_witness:
  "\<exists>v. calculate_from_net sample_today (Dec False 50 (-2)) ''lt'' (Some sample_today) = Inr v \<and>
     vc_vat_amount v = Dec False 11 (-2) \<and> vc_gross_amount v = Dec False 61 (-2)"
proof -
  have r: "get_vat_rate sample_today ''lt'' (Some sample_today) = Inr (Dec False 21 (-2))" by code_simp
  have "of_nat 50 * dval (Dec False 21 (-2)) + 1 / 2 = 11" by (simp add: signed_def power_int_minus)
  with vat_from_net_exact [OF r, of 50] show ?thesis by auto
qed

lemma dec_fix_sign: "dec_fix (Dec s c e) = Inr d \<Longrightarrow> \<exists>q x. d = Dec s q x"
  by (erule dec_fix_cases) auto

lemma dec_div_sign: "dec_div (Dec False c e) (Dec False d f) = Inr p \<Longrightarrow> \<exists>q x. p = Dec False q x"
  by (auto simp: Let_def simp del: dec_fix.simps dest!: dec_fix_sign split: if_splits prod.splits)

lemma dec_quantize_shape:
  "dec_quantize r x (Dec s c e) = Inr d \<Longrightarrow> \<exists>q. d = Dec s q x \<and> q < 10 ^ 28"
  using ndigits_le_iff [of 28] by (auto simp: Let_def dec_context not_less split: if_splits)

text \<open>Splitting a gross amount loses nothing. Whenever a gross amount of cents is split into
  net amount and VAT, the two add up to it exactly, and the net amount is in whole cents.\<close>

theorem vat_from_gross_adds_up:
  assumes "calculate_from_gross today (Dec False c (-2)) cc d = Inr v" and "c < 10 ^ 24"
  shows "vc_gross_amount v = Dec False c (-2) \<and>
    dval (vc_net_amount v) + dval (vc_vat_amount v) = dval (vc_gross_amount v) \<and>
    (\<exists>q. vc_net_amount v = Dec False q (-2))"
proof -
  from assms(1) obtain r m p n t where r: "get_vat_rate today cc (Some (case d of None \<Rightarrow> today | Some d \<Rightarrow> d)) = Inr r"
    and m: "dec_add (Dec False 1 0) r = Inr m" and p: "dec_div (Dec False c (-2)) m = Inr p"
    and n: "dec_quantize ROUND_HALF_UP (-2) p = Inr n" and t: "dec_sub (Dec False c (-2)) n = Inr t"
    and v: "vc_gross_amount v = Dec False c (-2)" "vc_net_amount v = n" "vc_vat_amount v = t"
    by (auto simp: calculate_from_gross_def Let_def res_bind_eq_Inr simp del: dec_add.simps dec_div.simps dec_quantize.simps)
  from get_vat_rate_shape [OF r] obtain k j where "r = Dec False k (- int j)" by (rule rate_shapeE)
  moreover have "\<not> (10::int) ^ j + int k < 0" by (simp add: not_less)
  ultimately obtain b y where "m = Dec False b y"
    using m by (auto simp: signed_def Let_def simp del: dec_fix.simps dest!: dec_fix_sign split: if_splits)
  with p obtain q x where "p = Dec False q x" using dec_div_sign by blast
  with n obtain u where u: "n = Dec False u (-2)" "u < 10 ^ 28" using dec_quantize_shape by blast
  define i where "i = int c - int u"
  have "nat \<bar>i\<bar> < 10 ^ 28" using u(2) assms(2) by (simp add: i_def nat_less_iff abs_less_iff)
  then have "t = Dec (if i = 0 then c = 0 \<and> u = 0 \<and> False \<and> True else i < 0) (nat \<bar>i\<bar>) (-2)"
    using t dec_fix_exact [of "nat \<bar>i\<bar>" "-2"]
    by (auto simp: u dec_sub_def signed_def Let_def i_def dec_context simp del: dec_fix.simps split: if_splits)
  then have "dval t = of_int i * 10 powi (-2)" by (auto simp: signed_def)
  moreover have "dval n = of_int (int u) * 10 powi (-2)" by (simp add: u signed_def)
  ultimately have "dval n + dval t = of_int (int c) * 10 powi (-2)"
    by (simp add: i_def algebra_simps)
  with v u show ?thesis by (simp add: signed_def)
qed

theorem vat_from_gross_adds_up_witness:
  "\<exists>v. calculate_from_gross \<lparr>dt_year = 2026, dt_month = 1, dt_day = 1\<rparr> (Dec False 10000 (-2)) ''LT'' None = Inr v \<and>
     dval (vc_net_amount v) + dval (vc_vat_amount v) = 100"
proof -
  let ?d = "\<lparr>dt_year = 2026, dt_month = 1, dt_day = 1\<rparr>"
  let ?v = "\<lparr>vc_net_amount = Dec False 8264 (-2), vc_vat_amount = Dec False 1736 (-2),
    vc_gross_amount = Dec False 10000 (-2), vc_vat_rate = Dec False 21 (-2), vc_country_code = ''LT'',
    vc_transaction_date = ?d\<rparr>"
  have r: "get_vat_rate ?d ''LT'' (Some ?d) = Inr (Dec False 21 (-2))" by code_simp
  have "dec_add (Dec False 1 0) (Dec False 21 (-2)) = Inr (Dec False 121 (-2))"
    "dec_sub (Dec False 10000 (-2)) (Dec False 8264 (-2)) = Inr (Dec False 1736 (-2))" by code_simp+
  moreover have "dec_div (Dec False 10000 (-2)) (Dec False 121 (-2)) =
      Inr (Dec False 8264462809917355371900826446 (-26))"
    "dec_quantize ROUND_HALF_UP (-2) (Dec False 8264462809917355371900826446 (-26)) = Inr (Dec False 8264 (-2))"
    by (simp_all add: ndigits_step dec_context Let_def round_quot.simps)
  ultimately have v: "calculate_from_gross ?d (Dec False 10000 (-2)) ''LT'' None = Inr ?v"
    by (simp add: calculate_from_gross_def r del: dec_add.simps dec_div.simps dec_quantize.simps One_nat_def)
  from vat_from_gross_adds_up [OF v] v show ?thesis by (auto simp: signed_def)
qed

section \<open>Invoices and records\<close>

lemma pad_left_digits: "list_all is_digit s \<Longrightarrow> list_all is_digit (pad_left k s)"
  by (simp add: pad_left_def)

lemma pad_left_inject: "pad_left k (str_of_nat m) = pad_left k (str_of_nat n) \<Longrightarrow> m = n"
  by (metis nat_of_digits_pad nat_of_str_of_nat pad_left_def)

text \<open>The part after the last hyphen.\<close>

lemma suffix_after_hyphen:
  assumes "a @ ''-'' @ s = b @ ''-'' @ t" "list_all is_digit s" "list_all is_digit t"
  shows "s = t"
proof -
  have hy: "takeWhile (\<lambda>c. c \<noteq> CHR ''-'') (rev u @ CHR ''-'' # v) = rev u" if "list_all is_digit u" for u v
  proof -
    have "c \<noteq> CHR ''-''" if "c \<in> set (rev u)" for c
      using \<open>list_all is_digit u\<close> that by (auto simp: list_all_iff char_class_defs)
    then show ?thesis by (subst takeWhile_append2) auto
  qed
  from arg_cong [OF assms(1), of "\<lambda>w. takeWhile (\<lambda>c. c \<noteq> CHR ''-'') (rev w)"] hy assms(2,3)
  show ?thesis by simp
qed

text \<open>Invoice numbers are unique. Each generated invoice takes the next value of the counter,
  and two invoices generated at different counter values have different numbers, whatever their
  dates and contents.\<close>

theorem invoice_numbers_unique:
  assumes "m \<noteq> n"
  shows "in_invoice_number (fst (generate today a b c d e f m)) \<noteq>
      in_invoice_number (fst (generate today' a' b' c' d' e' f' n)) \<and>
    snd (generate today a b c d e f m) = Suc m"
proof -
  have "False" if "in_invoice_number (fst (generate today a b c d e f m)) =
      in_invoice_number (fst (generate today' a' b' c' d' e' f' n))"
  proof -
    let ?p = "\<lambda>t. ''JOL-'' @ str_of_nat (dt_year t) @ pad_left 2 (str_of_nat (dt_month t))"
    from that have "?p today @ ''-'' @ pad_left 6 (str_of_nat (m + 1)) =
        ?p today' @ ''-'' @ pad_left 6 (str_of_nat (n + 1))"
      by (simp add: generate_def Let_def)
    then have "pad_left 6 (str_of_nat (m + 1)) = pad_left 6 (str_of_nat (n + 1))"
      by (rule suffix_after_hyphen) (simp_all add: pad_left_digits str_of_nat_digits)
    with assms show False by (auto dest: pad_left_inject)
  qed
  then show ?thesis by (auto simp: generate_def Let_def)
qed

theorem invoice_numbers_unique_witness:
  "in_invoice_number (fst (generate \<lparr>dt_year = 2026, dt_month = 1, dt_day = 1\<rparr> [] [] [] [] [] [] 0)) =
     ''JOL-202601-000001'' \<and>
   in_invoice_number (fst (generate \<lparr>dt_year = 2026, dt_month = 1, dt_day = 1\<rparr> [] [] [] [] [] [] 1)) \<noteq>
     ''JOL-202601-000001''"
proof -
  let ?d = "\<lparr>dt_year = 2026, dt_month = 1, dt_day = 1\<rparr>"
  have "in_invoice_number (fst (generate ?d [] [] [] [] [] [] 0)) = ''JOL-202601-000001''" by code_simp
  with invoice_numbers_unique [of 1 0 ?d "[]" "[]" "[]" "[]" "[]" "[]" ?d "[]" "[]" "[]" "[]" "[]" "[]"]
  show ?thesis by simp
qed

text \<open>C31: Seven years of retention, except for leap days. A record of a transaction on a valid date
  keeps until the same day seven years later; for a transaction on 29 February no such day
  exists, seven years after a leap year never being one, and creating the record raises
  ValueError.\<close>

theorem retention_seven_years:
  assumes "date_ok (tx_transaction_date r)" "dt_year (tx_transaction_date r) + 7 \<le> 9999"
    and "tx_retention_until r = None" "tx_RETENTION_YEARS r = 7"
  shows "if dt_month (tx_transaction_date r) = 2 \<and> dt_day (tx_transaction_date r) = 29
    then TaxRecord now r = Inl ValueError
    else \<exists>r' d. TaxRecord now r = Inr r' \<and> tx_retention_until r' = Some d \<and> date_ok d \<and>
      dt_year d = dt_year (tx_transaction_date r) + 7 \<and>
      dt_month d = dt_month (tx_transaction_date r) \<and> dt_day d = dt_day (tx_transaction_date r)"
proof -
  obtain y m d where t: "tx_transaction_date r = \<lparr>dt_year = y, dt_month = m, dt_day = d\<rparr>"
    by (cases "tx_transaction_date r") blast
  have leap: "\<not> leap_year (y + 7)" if "m = 2" "d = 29"
  proof -
    from assms(1) t that have "leap_year y"
      by (auto simp: date_ok_def days_in_month_def split: if_splits)
    then have "y mod 4 = 0" by (simp add: leap_year_def)
    then have "(y + 7) mod 4 = 3" by presburger
    then show ?thesis by (simp add: leap_year_def)
  qed
  have run: "TaxRecord now r =
      res_bind (date_new (y + 7) m d) (\<lambda>x. Inr (r\<lparr>tx_created_at := if tx_created_at r = [] then now
        else tx_created_at r, tx_retention_until := Some x\<rparr>))"
    using assms(3,4) t by (simp add: TaxRecord_def Let_def)
  show ?thesis
  proof (cases "m = 2 \<and> d = 29")
    case True
    with leap have "date_new (y + 7) m d = Inl ValueError"
      by (simp add: date_new_def date_ok_def days_in_month_def)
    with True t run show ?thesis by simp
  next
    case False
    have "d \<le> days_in_month (y + 7) m"
      using assms(1) t False by (auto simp: date_ok_def days_in_month_def split: if_splits)
    then have "date_new (y + 7) m d = Inr \<lparr>dt_year = y + 7, dt_month = m, dt_day = d\<rparr>"
      using assms(1,2) t by (simp add: date_new_def date_ok_def)
    with False t run assms(2) show ?thesis by (auto simp: date_new_def Let_def split: if_splits)
  qed
qed

definition sample_record :: tax_record where
  "sample_record =
     \<lparr>tx_record_id = ''r'', tx_order_id = ''o'', tx_country_code = ''LT'', tx_net_amount = Dec False 1 0,
      tx_vat_amount = Dec False 21 (-2), tx_gross_amount = Dec False 121 (-2),
      tx_vat_rate = Dec False 21 (-2),
      tx_transaction_date = \<lparr>dt_year = 2024, dt_month = 2, dt_day = 29\<rparr>, tx_invoice_number = None,
      tx_created_at = [], tx_retention_until = None, tx_RETENTION_YEARS = 7\<rparr>"

theorem retention_seven_years_witness: "TaxRecord ''now'' sample_record = Inl ValueError"
  using retention_seven_years [of sample_record "''now''"]
  by (simp add: sample_record_def date_ok_def days_in_month_def leap_year_def)

end
