(* ===== verification/Catalog.thy ===== *)
theory Catalog
  imports Tenancy
begin

text \<open>
  The catalog of a tenant: \<open>catalog/catalog.py\<close> and the route \<open>api/routes_catalog.py\<close>. Which
  service types and product kinds a vertical may sell is a pair of tables; the repository refuses
  everything else, and seeding fills a repository with one item of each permitted kind.
\<close>

section \<open>Taxonomy\<close>

datatype catalog_item_kind = SERVICE | PRODUCT

datatype service_type =
  MEMORIAL_MASS | BLESSING | FUNERAL_PACKAGE | BEREAVEMENT_COUNSELING | GRAVE_CLEANING
| MONUMENT_RESTORATION | FLOWER_DELIVERY

fun service_type_value :: "service_type \<Rightarrow> string" where
  "service_type_value MEMORIAL_MASS = ''memorial_mass''"
| "service_type_value BLESSING = ''blessing''"
| "service_type_value FUNERAL_PACKAGE = ''funeral_package''"
| "service_type_value BEREAVEMENT_COUNSELING = ''bereavement_counseling''"
| "service_type_value GRAVE_CLEANING = ''grave_cleaning''"
| "service_type_value MONUMENT_RESTORATION = ''monument_restoration''"
| "service_type_value FLOWER_DELIVERY = ''flower_delivery''"

fun vertical_value :: "tenant_vertical \<Rightarrow> string" where
  "vertical_value FAITH_COMMUNITY = ''faith_community''"
| "vertical_value FUNERAL_HOME = ''funeral_home''"
| "vertical_value CEMETERY_CARE = ''cemetery_care''"

text \<open>The sets of the two tables, as lists without repetition.\<close>

fun VERTICAL_SERVICE_TYPES :: "tenant_vertical \<Rightarrow> service_type list" where
  "VERTICAL_SERVICE_TYPES FAITH_COMMUNITY = [MEMORIAL_MASS, BLESSING]"
| "VERTICAL_SERVICE_TYPES FUNERAL_HOME = [FUNERAL_PACKAGE, BEREAVEMENT_COUNSELING, FLOWER_DELIVERY]"
| "VERTICAL_SERVICE_TYPES CEMETERY_CARE = [GRAVE_CLEANING, MONUMENT_RESTORATION, FLOWER_DELIVERY]"

fun VERTICAL_PRODUCT_KINDS :: "tenant_vertical \<Rightarrow> string list" where
  "VERTICAL_PRODUCT_KINDS FAITH_COMMUNITY = [''cross'', ''candle'', ''flowers'']"
| "VERTICAL_PRODUCT_KINDS FUNERAL_HOME = [''casket'', ''flowers'', ''clothing'']"
| "VERTICAL_PRODUCT_KINDS CEMETERY_CARE = [''flowers'', ''monument_plaque'']"

record service =
  sv_service_id :: string
  sv_service_type :: service_type
  sv_name :: string
  sv_unit_price_cents :: int
  sv_currency :: string

record product =
  pr_product_id :: string
  pr_product_kind :: string
  pr_name :: string
  pr_unit_price_cents :: int
  pr_currency :: string

definition service_kind :: "service \<Rightarrow> catalog_item_kind" where
  "service_kind s = SERVICE"

definition product_item_kind :: "product \<Rightarrow> catalog_item_kind" where
  "product_item_kind p = PRODUCT"

section \<open>Repository\<close>

record catalog_repository =
  cr_vertical :: tenant_vertical
  cr_services :: "(string, service) dict"
  cr_products :: "(string, product) dict"

definition CatalogRepository :: "tenant_vertical \<Rightarrow> catalog_repository" where
  "CatalogRepository v = \<lparr>cr_vertical = v, cr_services = [], cr_products = []\<rparr>"

definition add_service :: "service \<Rightarrow> (catalog_repository, service) op" where
  "add_service s r =
     (if sv_service_type s \<notin> set (VERTICAL_SERVICE_TYPES (cr_vertical r)) then (Inl ValueError, r)
      else (Inr s, r\<lparr>cr_services := dict_set (sv_service_id s) s (cr_services r)\<rparr>))"

definition add_product :: "product \<Rightarrow> (catalog_repository, product) op" where
  "add_product p r =
     (if pr_product_kind p \<notin> set (VERTICAL_PRODUCT_KINDS (cr_vertical r)) then (Inl ValueError, r)
      else (Inr p, r\<lparr>cr_products := dict_set (pr_product_id p) p (cr_products r)\<rparr>))"

definition get_service :: "string \<Rightarrow> catalog_repository \<Rightarrow> service option" where
  "get_service i r = dict_get (cr_services r) i"

definition get_product :: "string \<Rightarrow> catalog_repository \<Rightarrow> product option" where
  "get_product i r = dict_get (cr_products r) i"

definition services :: "catalog_repository \<Rightarrow> service list" where
  "services r = dict_values (cr_services r)"

definition products :: "catalog_repository \<Rightarrow> product list" where
  "products r = dict_values (cr_products r)"

section \<open>Seeding\<close>

text \<open>\<open>str.title()\<close>: a letter after a non-letter becomes a capital, every other letter small.\<close>

fun title_from :: "bool \<Rightarrow> string \<Rightarrow> string" where
  "title_from inside [] = []"
| "title_from inside (c # s) =
     (if is_letter c then (if inside then to_lower c else to_upper c) # title_from True s
      else c # title_from False s)"

definition str_title :: "string \<Rightarrow> string" where
  "str_title = title_from False"

definition DEFAULT_SERVICE_PRICE_CENTS :: int where
  "DEFAULT_SERVICE_PRICE_CENTS = 10000"

definition DEFAULT_PRODUCT_PRICE_CENTS :: int where
  "DEFAULT_PRODUCT_PRICE_CENTS = 5000"

definition short_id :: "string \<Rightarrow> string" where
  "short_id tenant_id = take 8 (str_replace ''-'' [] tenant_id)"

definition seed_service :: "string \<Rightarrow> string \<Rightarrow> service_type \<Rightarrow> service" where
  "seed_service short currency t =
     \<lparr>sv_service_id = ''svc-'' @ short @ ''-'' @ service_type_value t, sv_service_type = t,
      sv_name = str_title (str_replace ''_'' '' '' (service_type_value t)),
      sv_unit_price_cents = DEFAULT_SERVICE_PRICE_CENTS, sv_currency = currency\<rparr>"

definition seed_product :: "string \<Rightarrow> string \<Rightarrow> string \<Rightarrow> product" where
  "seed_product short currency k =
     \<lparr>pr_product_id = ''prd-'' @ short @ ''-'' @ k, pr_product_kind = k,
      pr_name = str_title (str_replace ''_'' '' '' k),
      pr_unit_price_cents = DEFAULT_PRODUCT_PRICE_CENTS, pr_currency = currency\<rparr>"

definition seed_default_catalog :: "string \<Rightarrow> string \<Rightarrow> (catalog_repository, nat) op" where
  "seed_default_catalog tenant_id currency r =
     (let short = short_id tenant_id;
          types = sort_key service_type_value (VERTICAL_SERVICE_TYPES (cr_vertical r));
          kinds = sort (VERTICAL_PRODUCT_KINDS (cr_vertical r)) in
      op_bind (op_each (\<lambda>t. op_bind (add_service (seed_service short currency t)) (\<lambda>_. op_return ())) types) (\<lambda>_.
      op_bind (op_each (\<lambda>k. op_bind (add_product (seed_product short currency k)) (\<lambda>_. op_return ())) kinds) (\<lambda>_.
      op_return (length types + length kinds))) r)"

section \<open>The capabilities route\<close>

record catalog_capabilities =
  cc_vertical :: string
  cc_service_types :: "string list"
  cc_product_kinds :: "string list"

datatype capabilities_answer = NoTenant400 | Capabilities catalog_capabilities

definition get_catalog_capabilities :: "('a scope, capabilities_answer) op" where
  "get_catalog_capabilities s =
     (case current_tenant s of
        Inl e \<Rightarrow> (Inr NoTenant400, s)
      | Inr context \<Rightarrow>
          let vertical = tn_vertical (tc_tenant context) in
          (Inr (Capabilities
             \<lparr>cc_vertical = vertical_value vertical,
              cc_service_types = sort (map service_type_value (VERTICAL_SERVICE_TYPES vertical)),
              cc_product_kinds = sort (VERTICAL_PRODUCT_KINDS vertical)\<rparr>), s))"

section \<open>The repository as two keyed stores\<close>

definition governed :: "catalog_repository \<Rightarrow> bool" where
  "governed r \<longleftrightarrow>
     dict_ok (cr_services r) \<and> dict_ok (cr_products r) \<and>
     (\<forall>k s. dict_get (cr_services r) k = Some s \<longrightarrow>
        sv_service_id s = k \<and> sv_service_type s \<in> set (VERTICAL_SERVICE_TYPES (cr_vertical r))) \<and>
     (\<forall>k p. dict_get (cr_products r) k = Some p \<longrightarrow>
        pr_product_id p = k \<and> pr_product_kind p \<in> set (VERTICAL_PRODUCT_KINDS (cr_vertical r)))"

lemma governed_new [simp]: "governed (CatalogRepository v)"
  by (simp add: governed_def CatalogRepository_def)

datatype catalog_call = AddService service | AddProduct product | Seed string string

fun catalog_step :: "catalog_call \<Rightarrow> catalog_repository \<Rightarrow> catalog_repository" where
  "catalog_step (AddService s) r = snd (add_service s r)"
| "catalog_step (AddProduct p) r = snd (add_product p r)"
| "catalog_step (Seed t c) r = snd (seed_default_catalog t c r)"

definition governed_for :: "tenant_vertical \<Rightarrow> catalog_repository \<Rightarrow> bool" where
  "governed_for v r \<longleftrightarrow> governed r \<and> cr_vertical r = v"

lemma keeps_add_service [op_keeps_intros]: "op_keeps (governed_for v) (add_service s)"
  by (rule op_keepsI) (auto simp: governed_for_def governed_def add_service_def dict_get_set distinct_update
      simp del: map_of_eq_Some_iff)

lemma keeps_add_product [op_keeps_intros]: "op_keeps (governed_for v) (add_product p)"
  by (rule op_keepsI) (auto simp: governed_for_def governed_def add_product_def dict_get_set distinct_update
      simp del: map_of_eq_Some_iff)

lemma keeps_seed: "op_keeps (governed_for v) (seed_default_catalog t c)"
proof (rule op_keepsI)
  fix r
  assume "governed_for v r"
  then show "governed_for v (snd (seed_default_catalog t c r))"
    unfolding seed_default_catalog_def Let_def
    by (rule op_keepsD [rotated]) (intro op_keeps_intros)
qed

interpretation catalog: inv_machine catalog_step governed "\<lambda>r r'. cr_vertical r' = cr_vertical r"
proof
  have "governed_for (cr_vertical r) (catalog_step e r)" if "governed r" for e r
    using that keeps_add_service keeps_add_product keeps_seed
    by (cases e) (auto simp: governed_for_def op_keeps_def)
  then show "governed r \<Longrightarrow> governed (catalog_step e r)"
    and "governed r \<Longrightarrow> cr_vertical (catalog_step e r) = cr_vertical r" for e r
    by (auto simp: governed_for_def)
qed simp_all

section \<open>Seeding, in closed form\<close>

definition put_seeds :: "('x \<Rightarrow> string) \<Rightarrow> ('x \<Rightarrow> 'v) \<Rightarrow> 'x list \<Rightarrow> (string, 'v) dict \<Rightarrow> (string, 'v) dict" where
  "put_seeds key item xs d = fold (\<lambda>x. dict_set (key x) (item x)) xs d"

lemma seed_services_apply:
  assumes "set ts \<subseteq> set (VERTICAL_SERVICE_TYPES (cr_vertical r))"
  shows "op_each (\<lambda>t. op_bind (add_service (seed_service short cur t)) (\<lambda>_. op_return ())) ts r =
    (Inr (), r\<lparr>cr_services := put_seeds (\<lambda>t. sv_service_id (seed_service short cur t)) (seed_service short cur) ts
       (cr_services r)\<rparr>)"
  using assms
  by (induction ts arbitrary: r) (simp_all add: put_seeds_def op_return_def op_bind_apply add_service_def seed_service_def)

lemma seed_products_apply:
  assumes "set ks \<subseteq> set (VERTICAL_PRODUCT_KINDS (cr_vertical r))"
  shows "op_each (\<lambda>k. op_bind (add_product (seed_product short cur k)) (\<lambda>_. op_return ())) ks r =
    (Inr (), r\<lparr>cr_products := put_seeds (\<lambda>k. pr_product_id (seed_product short cur k)) (seed_product short cur) ks
       (cr_products r)\<rparr>)"
  using assms
  by (induction ks arbitrary: r) (simp_all add: put_seeds_def op_return_def op_bind_apply add_product_def seed_product_def)

definition seeded :: "string \<Rightarrow> string \<Rightarrow> catalog_repository \<Rightarrow> catalog_repository" where
  "seeded tenant_id cur r =
     (let short = short_id tenant_id in
      r\<lparr>cr_services := put_seeds (\<lambda>t. sv_service_id (seed_service short cur t)) (seed_service short cur)
          (sort_key service_type_value (VERTICAL_SERVICE_TYPES (cr_vertical r))) (cr_services r),
        cr_products := put_seeds (\<lambda>k. pr_product_id (seed_product short cur k)) (seed_product short cur)
          (sort (VERTICAL_PRODUCT_KINDS (cr_vertical r))) (cr_products r)\<rparr>)"

lemma seed_apply:
  "seed_default_catalog tenant_id cur r =
     (Inr (length (VERTICAL_SERVICE_TYPES (cr_vertical r)) + length (VERTICAL_PRODUCT_KINDS (cr_vertical r))),
      seeded tenant_id cur r)"
  by (simp add: seed_default_catalog_def Let_def op_bind_apply seed_services_apply seed_products_apply
      op_return_def seeded_def)

lemma put_seeds_other:
  "k \<notin> key ` set xs \<Longrightarrow> dict_get (put_seeds key item xs d) k = dict_get d k"
  by (induction xs arbitrary: d) (auto simp: put_seeds_def dict_get_set)

lemma put_seeds_member:
  "inj_on key (set xs) \<Longrightarrow> x \<in> set xs \<Longrightarrow> dict_get (put_seeds key item xs d) (key x) = Some (item x)"
proof (induction xs arbitrary: d)
  case (Cons y xs)
  show ?case
  proof (cases "x \<in> set xs")
    case True
    with Cons show ?thesis by (simp add: put_seeds_def)
  next
    case False
    with Cons.prems have "x = y" "key x \<notin> key ` set xs" by (auto simp: inj_on_def)
    with put_seeds_other [of "key x" key xs item "dict_set (key x) (item x) d"]
    show ?thesis by (simp add: put_seeds_def dict_get_set)
  qed
qed simp

lemma dict_set_same: "dict_get d k = Some v \<Longrightarrow> dict_set k v d = d"
  by (induction d) (auto split: if_splits)

lemma put_seeds_again:
  assumes "\<And>x. x \<in> set xs \<Longrightarrow> dict_get d (key x) = Some (item x)"
  shows "put_seeds key item xs d = d"
  using assms by (induction xs) (simp_all add: put_seeds_def dict_set_same)

lemma put_seeds_length:
  assumes "inj_on key (set xs)" "distinct xs" "\<And>x. x \<in> set xs \<Longrightarrow> \<not> dict_has d (key x)"
  shows "length (put_seeds key item xs d) = length d + length xs"
  using assms
proof (induction xs arbitrary: d)
  case (Cons x xs)
  let ?d = "dict_set (key x) (item x) d"
  have "?d = d @ [(key x, item x)]" using Cons.prems(3) by (intro dict_set_new) simp
  moreover have "\<not> dict_has ?d (key y)" if "y \<in> set xs" for y
    using Cons.prems that by (auto simp: calculation inj_on_def)
  ultimately show ?case using Cons by (simp add: put_seeds_def)
qed (simp add: put_seeds_def)

lemma service_type_value_inject [simp]: "service_type_value a = service_type_value b \<longleftrightarrow> a = b"
  by (cases a; cases b) simp_all

lemma seed_ids_inj:
  "inj_on (\<lambda>t. sv_service_id (seed_service short cur t)) A"
  "inj_on (\<lambda>k. pr_product_id (seed_product short cur k)) B"
  by (simp_all add: inj_on_def seed_service_def seed_product_def)

lemma seeded_get:
  "t \<in> set (VERTICAL_SERVICE_TYPES (cr_vertical r)) \<Longrightarrow>
     get_service (sv_service_id (seed_service (short_id i) cur t)) (seeded i cur r) =
       Some (seed_service (short_id i) cur t)"
  "k \<in> set (VERTICAL_PRODUCT_KINDS (cr_vertical r)) \<Longrightarrow>
     get_product (pr_product_id (seed_product (short_id i) cur k)) (seeded i cur r) =
       Some (seed_product (short_id i) cur k)"
  using put_seeds_member [OF seed_ids_inj(1), of t "sort_key service_type_value (VERTICAL_SERVICE_TYPES (cr_vertical r))"
      "short_id i" cur "seed_service (short_id i) cur" "cr_services r"]
    put_seeds_member [OF seed_ids_inj(2), of k "sort (VERTICAL_PRODUCT_KINDS (cr_vertical r))"
      "short_id i" cur "seed_product (short_id i) cur" "cr_products r"]
  by (simp_all add: get_service_def get_product_def seeded_def Let_def)

lemma seeded_vertical [simp]: "cr_vertical (seeded i cur r) = cr_vertical r"
  by (simp add: seeded_def Let_def)

lemma seeded_again: "seeded i cur (seeded i cur r) = seeded i cur r"
proof -
  let ?r = "seeded i cur r"
  have "put_seeds (\<lambda>t. sv_service_id (seed_service (short_id i) cur t)) (seed_service (short_id i) cur)
      (sort_key service_type_value (VERTICAL_SERVICE_TYPES (cr_vertical ?r))) (cr_services ?r) = cr_services ?r"
    using seeded_get(1) by (intro put_seeds_again) (simp add: get_service_def)
  moreover have "put_seeds (\<lambda>k. pr_product_id (seed_product (short_id i) cur k)) (seed_product (short_id i) cur)
      (sort (VERTICAL_PRODUCT_KINDS (cr_vertical ?r))) (cr_products ?r) = cr_products ?r"
    using seeded_get(2) by (intro put_seeds_again) (simp add: get_product_def)
  ultimately show ?thesis by (simp add: seeded_def [of i cur ?r] Let_def)
qed

section \<open>Properties\<close>

text \<open>C32: Catalog governance. Whatever is added to the repository of a vertical or seeded into it,
  in any order, every service in it is of a type and every product of a kind that the vertical
  may sell, and each is found under its own identifier; an item outside the vertical raises
  ValueError and leaves the repository as it was.\<close>

theorem catalog_governed:
  assumes "r = fold catalog_step calls (CatalogRepository v)"
  shows "(\<forall>s \<in> set (services r). sv_service_type s \<in> set (VERTICAL_SERVICE_TYPES v) \<and>
      get_service (sv_service_id s) r = Some s) \<and>
    (\<forall>p \<in> set (products r). pr_product_kind p \<in> set (VERTICAL_PRODUCT_KINDS v) \<and>
      get_product (pr_product_id p) r = Some p) \<and>
    (\<forall>s. sv_service_type s \<notin> set (VERTICAL_SERVICE_TYPES v) \<longrightarrow> add_service s r = (Inl ValueError, r)) \<and>
    (\<forall>p. pr_product_kind p \<notin> set (VERTICAL_PRODUCT_KINDS v) \<longrightarrow> add_product p r = (Inl ValueError, r))"
proof -
  have g: "governed r" unfolding assms by (rule catalog.inv_run) simp
  have v: "cr_vertical r = v"
    using catalog.leq_run [OF governed_new, of calls v] by (simp add: assms CatalogRepository_def)
  have "sv_service_type s \<in> set (VERTICAL_SERVICE_TYPES v) \<and> get_service (sv_service_id s) r = Some s"
    if "s \<in> set (services r)" for s
    using that g v by (auto simp: governed_def services_def get_service_def dict_get_values
        simp del: map_of_eq_Some_iff)
  moreover have "pr_product_kind p \<in> set (VERTICAL_PRODUCT_KINDS v) \<and> get_product (pr_product_id p) r = Some p"
    if "p \<in> set (products r)" for p
    using that g v by (auto simp: governed_def products_def get_product_def dict_get_values
        simp del: map_of_eq_Some_iff)
  ultimately show ?thesis using v by (simp add: add_service_def add_product_def)
qed

theorem catalog_governed_witness:
  "add_service (seed_service ''ab'' ''EUR'' MEMORIAL_MASS)
     (fold catalog_step [Seed ''ab'' ''EUR''] (CatalogRepository FUNERAL_HOME)) =
   (Inl ValueError, fold catalog_step [Seed ''ab'' ''EUR''] (CatalogRepository FUNERAL_HOME))"
  using catalog_governed [OF refl, of "[Seed ''ab'' ''EUR'']" FUNERAL_HOME]
  by (simp add: seed_service_def)

text \<open>Seeding is complete and idempotent. It never raises, also on a repository already in
  use; afterwards the repository offers one item of each service type and product kind of its
  vertical under an identifier derived from the tenant; seeding again changes nothing; and a new
  repository then holds exactly the reported number of items.\<close>

theorem catalog_seeding:
  "\<exists>n r'. seed_default_catalog tenant_id currency r = (Inr n, r') \<and>
     seed_default_catalog tenant_id currency r' = (Inr n, r') \<and>
     list_all (\<lambda>t. get_service (''svc-'' @ short_id tenant_id @ ''-'' @ service_type_value t) r' =
       Some (seed_service (short_id tenant_id) currency t)) (VERTICAL_SERVICE_TYPES (cr_vertical r)) \<and>
     list_all (\<lambda>k. get_product (''prd-'' @ short_id tenant_id @ ''-'' @ k) r' =
       Some (seed_product (short_id tenant_id) currency k)) (VERTICAL_PRODUCT_KINDS (cr_vertical r)) \<and>
     length (services (seeded tenant_id currency (CatalogRepository (cr_vertical r)))) +
       length (products (seeded tenant_id currency (CatalogRepository (cr_vertical r)))) = n"
proof -
  let ?v = "cr_vertical r"
  have d: "distinct (VERTICAL_SERVICE_TYPES ?v)" "distinct (VERTICAL_PRODUCT_KINDS ?v)"
    by (cases ?v; simp)+
  then have "length (services (seeded tenant_id currency (CatalogRepository ?v))) +
       length (products (seeded tenant_id currency (CatalogRepository ?v))) =
     length (VERTICAL_SERVICE_TYPES ?v) + length (VERTICAL_PRODUCT_KINDS ?v)"
    by (simp add: services_def products_def dict_values_def seeded_def Let_def CatalogRepository_def
        put_seeds_length seed_ids_inj)
  moreover have "sv_service_id (seed_service s c t) = ''svc-'' @ s @ ''-'' @ service_type_value t"
    "pr_product_id (seed_product s c k) = ''prd-'' @ s @ ''-'' @ k" for s c t k
    by (simp_all add: seed_service_def seed_product_def)
  ultimately show ?thesis
    using seeded_get [of _ r] by (auto simp: seed_apply seeded_again list_all_iff)
qed

text \<open>The capabilities route answers for the caller's tenant alone. Below the tenant
  middleware a catalog request of a resolved tenant returns exactly the service types and product
  kinds of that tenant's vertical, each sorted; a request whose tenant is not resolved is
  rejected with 400, and neither changes anything.\<close>

theorem catalog_capabilities_scoped:
  assumes "\<not> exempt rq" "sc_current_tenant s = None"
  shows "dispatch reg (\<lambda>_. get_catalog_capabilities) rq s =
    (case resolve reg rq of
       Inl e \<Rightarrow> (Inr (TenantRejected 400), s)
     | Inr context \<Rightarrow>
         (Inr (Downstream (Capabilities
            \<lparr>cc_vertical = vertical_value (tn_vertical (tc_tenant context)),
             cc_service_types = sort (map service_type_value (VERTICAL_SERVICE_TYPES (tn_vertical (tc_tenant context)))),
             cc_product_kinds = sort (VERTICAL_PRODUCT_KINDS (tn_vertical (tc_tenant context)))\<rparr>)), s))"
proof -
  have "e = TenantNotFoundError" if "resolve reg rq = Inl e" for e
    using that
    by (auto simp: resolve_def Let_def get_by_slug_def get_by_id_def res_bind_def
        split: if_splits option.splits sum.splits prod.splits)
  moreover have "s\<lparr>sc_current_tenant := None\<rparr> = s" using assms(2) by (cases s) simp
  ultimately show ?thesis
    using assms
    by (auto simp: dispatch_def call_downstream_def op_bind_apply op_return_def get_catalog_capabilities_def
        current_tenant_def set_current_tenant_def Let_def split: sum.split)
qed

theorem catalog_capabilities_scoped_witness:
  "dispatch sample_registry (\<lambda>_. get_catalog_capabilities) sample_request
     \<lparr>sc_current_tenant = None, sc_app = ()\<rparr> =
   (Inr (Downstream (Capabilities
      \<lparr>cc_vertical = ''faith_community'', cc_service_types = [''blessing'', ''memorial_mass''],
       cc_product_kinds = [''candle'', ''cross'', ''flowers'']\<rparr>)), \<lparr>sc_current_tenant = None, sc_app = ()\<rparr>)"
proof -
  have ex: "\<not> exempt sample_request" by code_simp
  have r: "resolve sample_registry sample_request =
      Inr \<lparr>tc_tenant = sample_tenant 7 ''st-anna'', tc_resolved_from = Subdomain\<rparr>" by code_simp
  have v: "tn_vertical (sample_tenant 7 ''st-anna'') = FAITH_COMMUNITY" by code_simp
  have s: "sort [''memorial_mass'', ''blessing''] = [''blessing'', ''memorial_mass'']"
    "sort [''cross'', ''candle'', ''flowers''] = [''candle'', ''cross'', ''flowers'']" by code_simp+
  show ?thesis
    using catalog_capabilities_scoped [OF ex, of "\<lparr>sc_current_tenant = None, sc_app = ()\<rparr>" sample_registry]
    by (simp add: r v s)
qed

end
