(* ===== verification/Web_App.thy ===== *)
theory Web_App
  imports Order_API Payments Webhooks Tax Catalog Security "HOL-Library.Sublist"
begin

text \<open>
  The whole application as \<open>api/app.py\<close> assembles it: the tenant middleware outside, the security
  header middleware inside, the order, payment, catalog and tax routers and the health route
  below, over the shared state of \<open>api/state.py\<close> and the services \<open>api/routes_payment.py\<close> holds.
  The response headers of the web framework are a parameter, an abstract type with its assignment
  and lookup; the documented law of that mapping is the hypothesis \<open>header_laws\<close>. The nonce drawn
  for a request and the time of day are arguments. Cross-origin handling is the framework's own
  middleware, which runs outermost: a parameter that gets the configuration the program gives it and
  either answers a request itself or passes it on (\<open>cors_law\<close>).
\<close>

section \<open>Requests, responses and state\<close>

record 'h web_env =
  we_externals :: externals
  we_gateway :: gateway
  we_construct_event :: "string \<Rightarrow> string \<Rightarrow> string \<Rightarrow> gateway_event result"
  we_today :: date
  we_no_headers :: 'h
  we_header_set :: "string \<Rightarrow> string \<Rightarrow> 'h \<Rightarrow> 'h"
  we_header_get :: "'h \<Rightarrow> string \<Rightarrow> string option"

text \<open>The body of \<open>POST /refunds\<close>.\<close>

record refund_body =
  rb_payment_intent_id :: string
  rb_amount_cents :: "int option"
  rb_reason :: "string option"
  rb_idempotency_key :: "string option"

datatype api_call =
    OrderCall order_call
  | CreateIntent intent_request
  | CreateRefund refund_body
  | StripeWebhook "string result" "string option" int delivery
  | CatalogCapabilities
  | CalculateVat vat_request
  | HealthCheck

datatype api_body =
    OrderBody order_response
  | JsonBody "(string, pyval) dict"
  | VatBody "(string, string) dict"
  | CapabilitiesBody catalog_capabilities
  | WebhookBody string
  | HealthBody "(string, string) dict"
  | ErrorBody

record 'h web_response =
  wr_status :: nat
  wr_headers :: 'h
  wr_body :: api_body

text \<open>The state of the process: the shared objects of \<open>api/state.py\<close>, and the intent service, the refund
  service and the webhook handler that \<open>api/routes_payment.py\<close> creates at import. No flow service and no
  token store is part of the application.\<close>

record web_app =
  wa_orders :: order_app
  wa_payments :: payment_services
  wa_webhooks :: webhook_handler

definition ok_response :: "'h web_env \<Rightarrow> api_body \<Rightarrow> 'h web_response" where
  "ok_response env b = \<lparr>wr_status = 200, wr_headers = we_no_headers env, wr_body = b\<rparr>"

definition error_response :: "'h web_env \<Rightarrow> nat \<Rightarrow> 'h web_response" where
  "error_response env n = \<lparr>wr_status = n, wr_headers = we_no_headers env, wr_body = ErrorBody\<rparr>"

section \<open>Routing\<close>

fun call_path :: "api_call \<Rightarrow> string" where
  "call_path (OrderCall c) = route_path c"
| "call_path (CreateIntent q) = ''/api/v1/payments/intents''"
| "call_path (CreateRefund b) = ''/api/v1/payments/refunds''"
| "call_path (StripeWebhook p g t d) = ''/api/v1/payments/webhooks/stripe''"
| "call_path CatalogCapabilities = ''/api/v1/catalog/capabilities''"
| "call_path (CalculateVat q) = ''/api/v1/tax/calculate''"
| "call_path HealthCheck = ''/health''"

definition health_check :: "(string, string) dict" where
  "health_check = [(''status'', ''healthy''), (''service'', ''jol-commerce-engine'')]"

text \<open>A handler of one component run on its part of the state.\<close>

definition on_orders :: "(order_app, 'a) op \<Rightarrow> (web_app scope, 'a) op" where
  "on_orders m s =
     (case m (wa_orders (sc_app s)) of (r, a) \<Rightarrow> (r, s\<lparr>sc_app := (sc_app s)\<lparr>wa_orders := a\<rparr>\<rparr>))"

definition on_payments :: "(payment_services, 'a) op \<Rightarrow> (web_app scope, 'a) op" where
  "on_payments m s =
     (case m (wa_payments (sc_app s)) of (r, a) \<Rightarrow> (r, s\<lparr>sc_app := (sc_app s)\<lparr>wa_payments := a\<rparr>\<rparr>))"

definition on_webhooks :: "(webhook_handler, 'a) op \<Rightarrow> (web_app scope, 'a) op" where
  "on_webhooks m s =
     (case m (wa_webhooks (sc_app s)) of (r, a) \<Rightarrow> (r, s\<lparr>sc_app := (sc_app s)\<lparr>wa_webhooks := a\<rparr>\<rparr>))"

fun http_response :: "'h web_env \<Rightarrow> order_response http \<Rightarrow> 'h web_response" where
  "http_response env (Answer r) = ok_response env (OrderBody r)"
| "http_response env (HttpError n) = error_response env n"

definition body_or_422 :: "'h web_env \<Rightarrow> ('b \<Rightarrow> api_body) \<Rightarrow> 'b option \<Rightarrow> 'h web_response" where
  "body_or_422 env f r = (case r of None \<Rightarrow> error_response env 422 | Some b \<Rightarrow> ok_response env (f b))"

fun app_route :: "'h web_env \<Rightarrow> api_call \<Rightarrow> request \<Rightarrow> (web_app scope, 'h web_response) op" where
  "app_route env (OrderCall c) rq =
     (\<lambda>s. op_bind (on_orders (order_route (we_externals env) (sc_current_tenant s) c))
        (\<lambda>r. op_return (http_response env r)) s)"
| "app_route env (CreateIntent q) rq =
     op_bind (on_payments (create_payment_intent_route (we_externals env) (we_gateway env) q))
       (\<lambda>r. op_return (body_or_422 env JsonBody r))"
| "app_route env (CreateRefund b) rq =
     op_bind (on_payments (create_refund_route (we_externals env) (we_gateway env) (rb_payment_intent_id b)
       (rb_amount_cents b) (rb_reason b) (rb_idempotency_key b)))
       (\<lambda>r. op_return (ok_response env (JsonBody r)))"
| "app_route env (StripeWebhook payload sig unix_time d) rq =
     (case sig of
        None \<Rightarrow> op_return (error_response env 422)
      | Some g \<Rightarrow>
          op_bind (on_webhooks (handle_stripe_webhook (sha256 (we_externals env)) (we_construct_event env)
            payload g unix_time d))
            (\<lambda>r. op_return (case r of Http400 \<Rightarrow> error_response env 400
               | WebhookEventResponse st \<Rightarrow> ok_response env (WebhookBody st))))"
| "app_route env CatalogCapabilities rq =
     op_bind get_catalog_capabilities
       (\<lambda>r. op_return (case r of NoTenant400 \<Rightarrow> error_response env 400
          | Capabilities c \<Rightarrow> ok_response env (CapabilitiesBody c)))"
| "app_route env (CalculateVat q) rq =
     op_bind (op_lift (calculate_vat (we_today env) q)) (\<lambda>r. op_return (body_or_422 env VatBody r))"
| "app_route env HealthCheck rq = op_return (ok_response env (HealthBody health_check))"

section \<open>The middleware stack\<close>

definition add_security_headers :: "'h web_env \<Rightarrow> string \<Rightarrow> 'h web_response \<Rightarrow> 'h web_response" where
  "add_security_headers env nonce r =
     r\<lparr>wr_headers := fold (\<lambda>(k, v). we_header_set env k v) (security_headers (CSPPolicy nonce)) (wr_headers r)\<rparr>"

definition security_dispatch ::
    "'h web_env \<Rightarrow> string \<Rightarrow> (request \<Rightarrow> ('s, 'h web_response) op) \<Rightarrow> request \<Rightarrow> ('s, 'h web_response) op" where
  "security_dispatch env nonce call_next rq =
     op_bind (call_next rq) (\<lambda>response. op_return (add_security_headers env nonce response))"

text \<open>A request as it arrives, with the call it carries and the nonce that is drawn for it.\<close>

record web_request =
  wq_request :: request
  wq_call :: api_call
  wq_nonce :: string

definition web_serve ::
    "'h web_env \<Rightarrow> tenant_registry \<Rightarrow> web_request \<Rightarrow> (web_app scope, 'h web_response response) op" where
  "web_serve env reg w =
     dispatch reg (security_dispatch env (wq_nonce w) (app_route env (wq_call w)))
       ((wq_request w)\<lparr>rq_path := call_path (wq_call w)\<rparr>)"

definition web_step ::
    "'h web_env \<Rightarrow> tenant_registry \<Rightarrow> web_request \<Rightarrow> web_app scope \<Rightarrow> web_app scope" where
  "web_step env reg w s = snd (web_serve env reg w s)"

text \<open>Creating the application reads the settings, and so do the services made at import time.\<close>

definition create_app :: "settings \<Rightarrow> web_app scope result" where
  "create_app environment =
     res_bind (get_settings environment) (\<lambda>settings.
     res_bind (WebhookEventStore MINIMUM_RETENTION) (\<lambda>st.
     Inr \<lparr>sc_current_tenant = None,
       sc_app = \<lparr>wa_orders = initial_app, wa_payments = initial_services,
         wa_webhooks = StripeWebhookHandler (st_stripe_webhook_secret settings) st\<rparr>\<rparr>))"

text \<open>The configuration of the CORS middleware, and the stack with that middleware outermost. It is the
  framework's own: \<open>cors\<close> is given the configuration, the application below it and a request.\<close>

record cors_policy =
  cp_allow_origins :: "string list"
  cp_allow_credentials :: bool
  cp_allow_methods :: "string list"
  cp_allow_headers :: "string list"

definition cors_config :: "settings \<Rightarrow> cors_policy" where
  "cors_config settings =
     \<lparr>cp_allow_origins = st_cors_allowed_origins settings, cp_allow_credentials = True,
      cp_allow_methods = [''GET'', ''POST'', ''PUT'', ''DELETE''],
      cp_allow_headers =
        [''Authorization'', ''Content-Type'', ''Stripe-Signature'', ''Idempotency-Key'', TENANT_HEADER]\<rparr>"

type_synonym 'h web_handler = "web_request \<Rightarrow> (web_app scope, 'h web_response response) op"

type_synonym 'h cors_middleware = "cors_policy \<Rightarrow> 'h web_handler \<Rightarrow> 'h web_handler"

definition web_stack :: "'h cors_middleware \<Rightarrow> settings \<Rightarrow> 'h web_env \<Rightarrow> tenant_registry \<Rightarrow> 'h web_handler" where
  "web_stack cors settings env reg = cors (cors_config settings) (web_serve env reg)"

definition stack_step ::
    "'h cors_middleware \<Rightarrow> settings \<Rightarrow> 'h web_env \<Rightarrow> tenant_registry \<Rightarrow> web_request \<Rightarrow> web_app scope \<Rightarrow> web_app scope" where
  "stack_step cors settings env reg w s = snd (web_stack cors settings env reg w s)"

section \<open>What a request does\<close>

lemma exempt_calls:
  "exempt (rq\<lparr>rq_path := call_path c\<rparr>) \<longleftrightarrow> (case c of StripeWebhook p g t d \<Rightarrow> True | HealthCheck \<Rightarrow> True | _ \<Rightarrow> False)"
  using route_not_exempt by (cases c) (simp_all add: exempt_def EXEMPT_PATH_PREFIXES_def str_startswith_def)

text \<open>The order application as the order endpoint sees it.\<close>

definition orders_view :: "web_app scope \<Rightarrow> order_app scope" where
  "orders_view s = \<lparr>sc_current_tenant = sc_current_tenant s, sc_app = wa_orders (sc_app s)\<rparr>"

definition order_request :: "web_request \<Rightarrow> (request \<times> order_call) list" where
  "order_request w = (case wq_call w of OrderCall c \<Rightarrow> [(wq_request w, c)] | _ \<Rightarrow> [])"

lemma route_keeps_tenant: "sc_current_tenant (snd (app_route env c rq s)) = sc_current_tenant s"
  by (cases c)
    (auto simp: op_bind_def op_return_def on_orders_def on_payments_def on_webhooks_def get_catalog_capabilities_def
      op_lift_def Let_def split: prod.split sum.split option.split)

lemma route_orders:
  "wa_orders (sc_app (snd (app_route env c rq s))) =
     (case c of OrderCall q \<Rightarrow> snd (order_route (we_externals env) (sc_current_tenant s) q (wa_orders (sc_app s)))
      | _ \<Rightarrow> wa_orders (sc_app s))"
  by (cases c)
    (auto simp: op_bind_def op_return_def on_orders_def on_payments_def on_webhooks_def get_catalog_capabilities_def
      op_lift_def Let_def split: prod.split sum.split option.split)

lemma web_step_apply:
  "web_step env reg w s =
     (let rq = (wq_request w)\<lparr>rq_path := call_path (wq_call w)\<rparr> in
      if exempt rq then snd (app_route env (wq_call w) rq s)
      else (case resolve reg rq of
          Inl e \<Rightarrow> s
        | Inr c \<Rightarrow> (snd (app_route env (wq_call w) rq (s\<lparr>sc_current_tenant := Some c\<rparr>)))\<lparr>sc_current_tenant := None\<rparr>))"
  using resolve_error [of reg "(wq_request w)\<lparr>rq_path := call_path (wq_call w)\<rparr>"]
  by (auto simp: web_step_def web_serve_def dispatch_def call_downstream_def security_dispatch_def Let_def
      set_current_tenant_def op_bind_def op_return_def split: prod.split sum.split)

lemma web_step_orders:
  assumes "sc_current_tenant s = None"
  shows "sc_current_tenant (web_step env reg w s) = None \<and>
    orders_view (web_step env reg w s) = fold (serve_step (we_externals env) reg) (order_request w) (orders_view s)"
proof (cases "\<exists>c. wq_call w = OrderCall c")
  case True
  then obtain c where c: "wq_call w = OrderCall c" by blast
  show ?thesis
    using assms c route_not_exempt [of c "wq_request w"]
    by (auto simp: web_step_apply Let_def order_request_def serve_step_def serve_apply orders_view_def route_orders
        simp del: app_route.simps split: sum.split prod.split)
next
  case False
  then have "order_request w = []" by (auto simp: order_request_def split: api_call.split)
  moreover have "wa_orders (sc_app (snd (app_route env (wq_call w) rq s'))) = wa_orders (sc_app s')" for rq s'
    using False by (auto simp: route_orders split: api_call.split)
  ultimately show ?thesis
    using assms by (auto simp: web_step_apply Let_def orders_view_def route_keeps_tenant split: sum.split)
qed


lemma orders_of_run:
  "sc_current_tenant s = None \<Longrightarrow> orders_view (fold (web_step env reg) ws s) =
     fold (serve_step (we_externals env) reg) (concat (map order_request ws)) (orders_view s)"
  by (induction ws arbitrary: s) (simp_all add: web_step_orders)

text \<open>The references of the payment intents the gateway accepted, in the order they were sent: the gateway
  answers each request with its number.\<close>

definition accepted_intents :: "gateway \<Rightarrow> gateway_request list \<Rightarrow> string list" where
  "accepted_intents gw qs =
     concat (map (\<lambda>(n, q). case gw q n of
         Inr obj \<Rightarrow> if gq_method q = PaymentIntent_create then [go_id obj] else []
       | Inl e \<Rightarrow> []) (enumerate 0 qs))"

lemma accepted_intents_snoc:
  "accepted_intents gw (qs @ [q]) = accepted_intents gw qs @
     (case gw q (length qs) of Inr obj \<Rightarrow> if gq_method q = PaymentIntent_create then [go_id obj] else [] | Inl e \<Rightarrow> [])"
  by (simp add: accepted_intents_def enumerate_append_eq)

definition services_ok :: "'h web_env \<Rightarrow> payment_services \<Rightarrow> bool" where
  "services_ok env s \<longleftrightarrow>
     list_all request_tokenised (ps_sent s) \<and>
     list_all (\<lambda>q. gq_method q \<in> {PaymentIntent_create, Refund_create}) (ps_sent s) \<and>
     logger_ok (sha256 (we_externals env)) (ps_intent_audit s) \<and>
     list_all (\<lambda>e. ae_event_type e = ''payment.created'') (al_entries (ps_intent_audit s)) \<and>
     map ae_transaction_ref (al_entries (ps_intent_audit s)) = accepted_intents (we_gateway env) (ps_sent s)"

text \<open>One request sent, and an audit entry for an accepted intent.\<close>

lemma services_ok_sent:
  assumes "services_ok env s" "request_tokenised q" "gq_method q \<in> {PaymentIntent_create, Refund_create}"
    and "ps_sent s' = ps_sent s @ [q]"
    and "case we_gateway env q (length (ps_sent s)) of
        Inr obj \<Rightarrow> if gq_method q = PaymentIntent_create
          then \<exists>c. ps_intent_audit s' = audit_log (sha256 (we_externals env)) c (ps_intent_audit s) \<and>
            lc_event_type c = ''payment.created'' \<and> lc_transaction_ref c = go_id obj
          else ps_intent_audit s' = ps_intent_audit s
      | Inl e \<Rightarrow> ps_intent_audit s' = ps_intent_audit s"
  shows "services_ok env s'"
  using assms
  by (auto simp: services_ok_def accepted_intents_snoc al_entries_log logged_entry_def logger_ok_log
      split: sum.splits if_splits)

lemma intent_route_ok:
  assumes "services_ok env s"
  shows "services_ok env (snd (create_payment_intent_route (we_externals env) (we_gateway env) q s))"
proof (cases "intent_request_valid q")
  case True
  then have tok: "is_token (iq_payment_method_id q)" by (simp add: intent_request_valid_def)
  let ?q = "\<lparr>gq_method = PaymentIntent_create,
    gq_params = put_metadata (Some (dict_set ''order_id'' (iq_order_id q) [])) (put_str ''customer'' (iq_customer_id q)
      [(''amount'', PInt (iq_amount_cents q)), (''currency'', PStr (iq_currency q)),
       (''payment_method'', PStr (iq_payment_method_id q)), (''confirm'', PBool True),
       (''automatic_payment_methods'', PDict [(''enabled'', PBool True), (''allow_redirects'', PStr ''never'')]),
       (''stripe_account'', PNone)]),
    gq_headers = idempotency_headers (iq_idempotency_key q)\<rparr>"
  have "request_tokenised ?q" using tok by (simp add: request_tokenised_def)
  then show ?thesis
    by (rule services_ok_sent [OF assms, where q = ?q])
      (use True tok in \<open>auto simp: create_payment_intent_route_def create_intent_def create_payment_intent_def send_def
        intent_log_def pay_call_def pay_now_def op_bind_apply op_simps Let_def split: sum.split\<close>)
qed (use assms in \<open>simp add: create_payment_intent_route_def op_return_def\<close>)

lemma refund_route_ok:
  assumes "services_ok env s"
  shows "services_ok env (snd (create_refund_route (we_externals env) (we_gateway env) i a r k s))"
proof -
  have "services_ok env (snd (process_refund (we_externals env) (we_gateway env) x s))" for x
    by (cases "rq_amount_cents x"; rule services_ok_sent [OF assms])
      (auto simp: process_refund_def create_refund_def send_def pay_now_def op_bind_apply op_simps request_tokenised_def
        split: sum.split)
  with assms show ?thesis
    by (simp add: create_refund_route_def op_bind_apply op_simps split: sum.split)
qed

lemma claim_store_ok: "store_ok st \<Longrightarrow> store_ok (snd (claim i m st))"
  by (auto simp: claim_def purge_expired_def op_bind_def Let_def store_ok_def dict_ok_del_all)

lemma dispatch_event_store: "wh_event_store (snd (dispatch_event ty n h)) = wh_event_store h"
  by (simp add: dispatch_event_def handle_payment_succeeded_def handle_payment_failed_def handle_charge_refunded_def
      receipt_put_def op_return_def Let_def)

lemma handle_event_store: "wh_event_store (snd (handle_event sha d h)) = snd (claim (ev_id (wd_event d)) (wd_moment d) (wh_event_store h))"
  by (auto simp: handle_event_def Let_def dispatch_event_store split: prod.split sum.split bool.split)

text \<open>What holds of the running application: each component's own invariant.\<close>

definition web_ok :: "'h web_env \<Rightarrow> tenant_registry \<Rightarrow> web_app scope \<Rightarrow> bool" where
  "web_ok env reg s \<longleftrightarrow>
     endpoint_ok (we_externals env) reg (orders_view s) \<and> services_ok env (wa_payments (sc_app s)) \<and>
     store_ok (wh_event_store (wa_webhooks (sc_app s))) \<and> sc_current_tenant s = None"

definition web_le :: "web_app scope \<Rightarrow> web_app scope \<Rightarrow> bool" where
  "web_le s s' \<longleftrightarrow> endpoint_le (orders_view s) (orders_view s')"

lemma snd_bind_return: "snd (op_bind m (\<lambda>r. op_return (f r)) s) = snd (m s)"
  by (simp add: op_bind_apply op_return_def split: sum.split)

lemma webhook_route_store:
  "store_ok (wh_event_store h) \<Longrightarrow>
     store_ok (wh_event_store (snd (handle_stripe_webhook sha cons_ev payload g t d h)))"
  by (auto simp: handle_stripe_webhook_def snd_bind_return handle_event_store claim_store_ok split: sum.split)

lemma route_components:
  assumes "services_ok env (wa_payments (sc_app s))" "store_ok (wh_event_store (wa_webhooks (sc_app s)))"
  shows "services_ok env (wa_payments (sc_app (snd (app_route env c rq s)))) \<and>
    store_ok (wh_event_store (wa_webhooks (sc_app (snd (app_route env c rq s)))))"
proof (cases c)
  case (CreateIntent q)
  with assms intent_route_ok [OF assms(1)] show ?thesis by (simp add: snd_bind_return on_payments_def split_beta)
next
  case (CreateRefund b)
  with assms refund_route_ok [OF assms(1)] show ?thesis by (simp add: snd_bind_return on_payments_def split_beta)
next
  case (StripeWebhook p g t d)
  with assms webhook_route_store [OF assms(2)] show ?thesis
    by (auto simp: snd_bind_return on_webhooks_def split_beta op_return_def split: option.split)
qed (use assms in \<open>simp_all add: snd_bind_return on_orders_def split_beta get_catalog_capabilities_def Let_def
    op_lift_def op_return_def split: sum.split\<close>)

lemma web_step_ok:
  assumes "web_ok env reg s"
  shows "web_ok env reg (web_step env reg w s) \<and> web_le s (web_step env reg w s)"
proof -
  let ?s = "web_step env reg w s"
  have orders: "sc_current_tenant ?s = None"
    "orders_view ?s = fold (serve_step (we_externals env) reg) (order_request w) (orders_view s)"
    using assms web_step_orders by (auto simp: web_ok_def)
  have ep: "endpoint_ok (we_externals env) reg (orders_view s)" using assms by (simp add: web_ok_def)
  have "services_ok env (wa_payments (sc_app s))" "store_ok (wh_event_store (wa_webhooks (sc_app s)))"
    using assms by (simp_all add: web_ok_def)
  with route_components [of env s] route_components [of env "s\<lparr>sc_current_tenant := Some c\<rparr>" for c]
  have "services_ok env (wa_payments (sc_app ?s)) \<and> store_ok (wh_event_store (wa_webhooks (sc_app ?s)))"
    by (auto simp: web_step_apply Let_def simp del: app_route.simps split: sum.split)
  with orders endpoint.inv_run [OF ep] endpoint.leq_run [OF ep] show ?thesis
    by (simp add: web_ok_def web_le_def)
qed

interpretation web: inv_machine "web_step env reg" "web_ok env reg" web_le for env reg
  using web_step_ok by unfold_locales (auto simp: web_le_def endpoint_le_def intro: app_le_trans)


section \<open>Properties\<close>

text \<open>The documented behaviour of the CORS middleware: a preflight request is answered without calling
  the application, any other request is passed on once. So the stack serves some of the requests,
  in their order.\<close>

definition cors_law :: "'h cors_middleware \<Rightarrow> bool" where
  "cors_law cors \<longleftrightarrow> (\<forall>p h w s. snd (cors p h w s) = s \<or> snd (cors p h w s) = snd (h w s))"

lemma stack_serves:
  assumes "cors_law cors"
  shows "\<exists>ws'. subseq ws' ws \<and> fold (stack_step cors settings env reg) ws s = fold (web_step env reg) ws' s"
proof (induction ws arbitrary: s)
  case Nil
  show ?case by (intro exI [of _ "[]"]) simp
next
  case (Cons w ws)
  let ?s = "stack_step cors settings env reg w s"
  obtain ws' where ws': "subseq ws' ws" "fold (stack_step cors settings env reg) ws ?s = fold (web_step env reg) ws' ?s"
    using Cons by blast
  consider "?s = s" | "?s = web_step env reg w s"
    using assms unfolding cors_law_def stack_step_def web_stack_def web_step_def by blast
  then show ?case
  proof cases
    case 1
    with ws' show ?thesis by (intro exI [of _ ws']) (simp add: list_emb_Cons)
  next
    case 2
    with ws' show ?thesis by (intro exI [of _ "w # ws'"]) simp
  qed
qed

lemma create_app_cases:
  "create_app environment =
     (if st_app_secret_key environment = [] \<or> st_stripe_secret_key environment = [] \<or> st_stripe_webhook_secret environment = []
      then Inl ValueError
      else Inr \<lparr>sc_current_tenant = None, sc_app = \<lparr>wa_orders = initial_app, wa_payments = initial_services,
        wa_webhooks = StripeWebhookHandler (st_stripe_webhook_secret environment)
          \<lparr>es_retention = MINIMUM_RETENTION, es_processed = []\<rparr>\<rparr>\<rparr>)"
  by (simp add: create_app_def get_settings_def validate_required_secrets_def missing_secrets_def WebhookEventStore_def)

lemma create_app_start:
  assumes "create_app environment = Inr s"
  shows "sc_current_tenant s = None" "orders_view s = initial_scope" "registry_named reg \<Longrightarrow> web_ok env reg s"
proof -
  from assms have s: "s = \<lparr>sc_current_tenant = None, sc_app = \<lparr>wa_orders = initial_app, wa_payments = initial_services,
        wa_webhooks = StripeWebhookHandler (st_stripe_webhook_secret environment)
          \<lparr>es_retention = MINIMUM_RETENTION, es_processed = []\<rparr>\<rparr>\<rparr>"
    by (simp add: create_app_cases split: if_splits)
  then show "sc_current_tenant s = None" and v: "orders_view s = initial_scope"
    by (simp_all add: orders_view_def initial_scope_def)
  show "registry_named reg \<Longrightarrow> web_ok env reg s"
    using v endpoint_ok_initial [of reg] s
    by (simp add: web_ok_def store_ok_def StripeWebhookHandler_def services_ok_def initial_services_def accepted_intents_def
      AuditLogger_def logger_ok_def)
qed

text \<open>C3: The application refines the order endpoint. Started from its creation and given any mix of
  order, payment, webhook, catalog, tax and health requests, valid or not, the order state is at
  every moment the one the order endpoint alone reaches on the order requests among them, in their
  order: no other route touches an order, the ledger or the order audit trail, so what is proved
  of the order endpoint holds of the application.\<close>

theorem web_refines_orders:
  assumes "create_app environment = Inr s0"
  shows "orders_view (fold (web_step env reg) ws s0) =
    fold (serve_step (we_externals env) reg) (concat (map order_request ws)) initial_scope"
  using orders_of_run [OF create_app_start(1) [OF assms]] create_app_start(2) [OF assms] by simp

text \<open>C24: All books at once. Whatever sequence of requests the application gets behind its CORS
  middleware, whatever the payment gateway answers: the order audit chain verifies and every
  commission entry balances; the application sends nothing to the gateway but payment intents and
  refunds, and every payment method it sends is a token; the audit chain of the intent service
  verifies and has exactly one entry, payment.created with the gateway's reference, for each intent
  the gateway accepted, in the order sent, also when the request then fails; webhook event
  identifiers are remembered once; and no tenant stays bound between requests. The audit log of
  the webhook handler is not among the chains that verify.\<close>

theorem web_books:
  assumes "registry_named reg" "create_app environment = Inr s0" "cors_law cors"
    and "s = fold (stack_step cors environment env reg) ws s0" "a = sc_app s"
  shows "verify_chain_integrity (sha256 (we_externals env)) (oa_audit (wa_orders a)) \<and>
    list_all (\<lambda>e. le_platform_fee_cents e + le_tenant_settlement_cents e = le_gross_amount_cents e)
      (cl_entries (oa_ledger (wa_orders a))) \<and>
    list_all (\<lambda>q. gq_method q \<in> {PaymentIntent_create, Refund_create} \<and> request_tokenised q) (ps_sent (wa_payments a)) \<and>
    verify_chain_integrity (sha256 (we_externals env)) (ps_intent_audit (wa_payments a)) \<and>
    list_all (\<lambda>e. ae_event_type e = ''payment.created'') (al_entries (ps_intent_audit (wa_payments a))) \<and>
    map ae_transaction_ref (al_entries (ps_intent_audit (wa_payments a))) =
      accepted_intents (we_gateway env) (ps_sent (wa_payments a)) \<and>
    distinct (map fst (es_processed (wh_event_store (wa_webhooks a)))) \<and>
    sc_current_tenant s = None"
proof -
  obtain ws' where "s = fold (web_step env reg) ws' s0" using stack_serves [OF assms(3)] assms(4) by blast
  then have ok: "web_ok env reg s"
    using create_app_start(3) [OF assms(2,1)] web.inv_run by metis
  then have "app_ok (we_externals env) (wa_orders a)" "services_ok env (wa_payments a)"
    by (simp_all add: web_ok_def endpoint_ok_def orders_view_def assms(5))
  then show ?thesis
    using ok by (auto simp: app_ok_def services_ok_def verify_chain_integrity_def logger_ok_def ledger_balanced_def
        balanced_entry_def list_all_iff web_ok_def store_ok_def assms(5))
qed

text \<open>The seven headers of a hardened response, written out; the policy admits scripts with the nonce.\<close>

definition seven_headers :: "string \<Rightarrow> (string \<times> string) list" where
  "seven_headers nonce =
     (let q = (\<lambda>s. CHR 0x27 # s @ [CHR 0x27]) in
      [(''Content-Security-Policy'',
        ''default-src '' @ q ''self'' @
        ''; script-src '' @ q ''self'' @ '' '' @ q (''nonce-'' @ nonce) @ '' https://js.stripe.com https://*.stripe.com'' @
        ''; style-src '' @ q ''self'' @ '' '' @ q ''unsafe-inline'' @
        ''; frame-src https://js.stripe.com https://*.stripe.com'' @
        ''; connect-src '' @ q ''self'' @ '' https://*.stripe.com'' @
        ''; img-src '' @ q ''self'' @ '' data:; font-src '' @ q ''self'' @ ''; object-src '' @ q ''none'' @
        ''; base-uri '' @ q ''self'' @ ''; form-action '' @ q ''self''),
       (''X-Content-Type-Options'', ''nosniff''),
       (''X-Frame-Options'', ''DENY''),
       (''X-XSS-Protection'', ''0''),
       (''Referrer-Policy'', ''strict-origin-when-cross-origin''),
       (''Permissions-Policy'', ''camera=(), microphone=(), geolocation=()''),
       (''Strict-Transport-Security'', ''max-age=63072000; includeSubDomains; preload'')])"

lemma security_headers_seven: "security_headers (CSPPolicy nonce) = seven_headers nonce"
  by (simp add: security_headers_def seven_headers_def to_header_def directives_def script_src_def frame_src_def
      connect_src_def CSPPolicy_def quoted_def)

text \<open>The documented behaviour of the framework's header mapping: names are case-insensitive, an
  assignment replaces, and a new response has none of the security headers.\<close>

definition header_laws :: "'h web_env \<Rightarrow> bool" where
  "header_laws env \<longleftrightarrow>
     (\<forall>k v h x. we_header_get env (we_header_set env k v h) x =
        (if str_lower x = str_lower k then Some v else we_header_get env h x)) \<and>
     list_all (\<lambda>(k, v). we_header_get env (we_no_headers env) k = None) (seven_headers [])"

text \<open>The response the client gets; the tenant middleware makes the rejection itself.\<close>

fun web_answer :: "'h web_env \<Rightarrow> 'h web_response response \<Rightarrow> 'h web_response" where
  "web_answer env (TenantRejected n) = error_response env n"
| "web_answer env (Downstream r) = r"

lemma headers_set:
  assumes "\<And>k v h x. get (put k v h) x = (if str_lower x = str_lower k then Some v else get h x)"
    and "distinct (map (str_lower \<circ> fst) kvs)" "(k, v) \<in> set kvs"
  shows "get (fold (\<lambda>(k, v). put k v) kvs h) k = Some v"
proof -
  have other: "get (fold (\<lambda>(k, v). put k v) kvs h) k = get h k" if "str_lower k \<notin> (str_lower \<circ> fst) ` set kvs" for kvs h
    using that by (induction kvs arbitrary: h) (auto simp: assms(1))
  show ?thesis
    using assms(2,3)
  proof (induction kvs arbitrary: h)
    case (Cons p kvs)
    show ?case
    proof (cases "p = (k, v)")
      case True
      with Cons.prems(1) have "str_lower k \<notin> (str_lower \<circ> fst) ` set kvs" by auto
      with True show ?thesis by (simp add: other assms(1))
    next
      case False
      with Cons show ?thesis by (cases p) auto
    qed
  qed simp
qed

lemma seven_header_names: "map fst (seven_headers nonce) = map fst (seven_headers [])"
  by (simp add: seven_headers_def)

lemma seven_headers_distinct: "distinct (map (str_lower \<circ> fst) (seven_headers nonce))"
proof -
  have "map (str_lower \<circ> fst) (seven_headers nonce) = map str_lower (map fst (seven_headers []))"
    unfolding seven_header_names [of nonce, symmetric] by simp
  moreover have "distinct (map str_lower (map fst (seven_headers [])))" by code_simp
  ultimately show ?thesis by metis
qed

text \<open>C26: Security headers. Every response that a route produces, errors included, carries the seven
  headers written out in seven_headers: a content security policy that admits scripts from the
  origin, with the nonce drawn for that request and from the two gateway origins, nosniff, DENY for
  frames, the disabled legacy filter, the referrer and permissions policies, and two years of strict
  transport security with subdomains and preload. A request the tenant middleware rejects is
  answered before the header middleware runs: its response has status 400, none of the seven
  headers, and the state is unchanged.\<close>

theorem web_security_headers:
  assumes "header_laws env"
    and "rq = (wq_request w)\<lparr>rq_path := call_path (wq_call w)\<rparr>"
  shows "if exempt rq \<or> (\<exists>c. resolve reg rq = Inr c)
    then (case web_serve env reg w s of
        (Inl e, s') \<Rightarrow> True
      | (Inr r, s') \<Rightarrow> list_all (\<lambda>(k, v). we_header_get env (wr_headers (web_answer env r)) k = Some v)
          (seven_headers (wq_nonce w)))
    else web_serve env reg w s = (Inr (TenantRejected 400), s) \<and>
      list_all (\<lambda>(k, v). we_header_get env (wr_headers (web_answer env (TenantRejected 400))) k = None)
        (seven_headers (wq_nonce w))"
proof -
  let ?h = "seven_headers (wq_nonce w)"
  have set: "we_header_get env (we_header_set env k v h) x = (if str_lower x = str_lower k then Some v else we_header_get env h x)"
    for k v h x using assms(1) by (simp add: header_laws_def)
  have all: "list_all (\<lambda>(k, v). we_header_get env (wr_headers (add_security_headers env (wq_nonce w) r)) k = Some v) ?h" for r
    using headers_set [of "we_header_get env" "we_header_set env", OF set seven_headers_distinct]
    by (fastforce simp: add_security_headers_def list_all_iff security_headers_seven)
  have "list_all (\<lambda>k. we_header_get env (we_no_headers env) k = None) (map fst (seven_headers []))"
    using assms(1) by (simp add: header_laws_def list_all_iff split_beta)
  then have none: "list_all (\<lambda>(k, v). we_header_get env (we_no_headers env) k = None) ?h"
    unfolding seven_header_names [of "wq_nonce w", symmetric] by (auto simp: list_all_iff)
  have ran: "list_all (\<lambda>(k, v). we_header_get env (wr_headers (web_answer env r)) k = Some v) ?h"
    if "call_downstream (security_dispatch env (wq_nonce w) (app_route env (wq_call w))) rq x = (Inr r, s')" for x r s'
    using that all by (auto simp: call_downstream_def security_dispatch_def op_bind_def op_return_def split: prod.splits sum.splits)
  show ?thesis
    using ran none resolve_error [of reg rq]
    by (auto simp: web_serve_def assms(2) [symmetric] dispatch_def error_response_def split: sum.split prod.split)
qed

section \<open>A concrete application\<close>

definition sample_web_env :: "(string, string) dict web_env" where
  "sample_web_env =
     \<lparr>we_externals = sample_externals, we_gateway = sample_gateway, we_construct_event = (\<lambda>_ _ _. Inl ValueError),
      we_today = sample_today, we_no_headers = [], we_header_set = (\<lambda>k. dict_set (str_lower k)),
      we_header_get = (\<lambda>h k. dict_get h (str_lower k))\<rparr>"

definition sample_settings :: settings where
  "sample_settings = default_settings\<lparr>st_app_secret_key := ''a'', st_stripe_secret_key := ''b'', st_stripe_webhook_secret := ''c''\<rparr>"

definition sample_web_request :: "request \<Rightarrow> web_request" where
  "sample_web_request rq = \<lparr>wq_request = rq, wq_call = CatalogCapabilities, wq_nonce = ''n''\<rparr>"

lemma sample_header_laws: "header_laws sample_web_env"
  by (simp add: header_laws_def sample_web_env_def dict_get_set list_all_iff)

lemma sample_app: "\<exists>s. create_app sample_settings = Inr s"
  by (simp add: create_app_cases sample_settings_def)

lemma sample_routed:
  assumes "c = CatalogCapabilities \<or> c = CreateIntent sample_intent"
  shows "\<not> exempt (sample_request\<lparr>rq_path := call_path c\<rparr>)"
    "resolve sample_registry (sample_request\<lparr>rq_path := call_path c\<rparr>) = Inr sample_context"
proof -
  show "\<not> exempt (sample_request\<lparr>rq_path := call_path c\<rparr>)" using assms by (auto simp: exempt_calls)
  have "resolve reg (rq\<lparr>rq_path := p\<rparr>) = resolve reg rq" for reg rq p
    by (simp add: resolve_def subdomain_slug_def cong: if_cong)
  with sample_resolve show "resolve sample_registry (sample_request\<lparr>rq_path := call_path c\<rparr>) = Inr sample_context" by simp
qed

theorem web_refines_orders_witness:
  "\<exists>s0. create_app sample_settings = Inr s0 \<and>
     orders_view (fold (web_step sample_web_env sample_registry) [sample_web_request sample_request] s0) = initial_scope"
proof -
  obtain s0 where s0: "create_app sample_settings = Inr s0" using sample_app by blast
  from web_refines_orders [OF s0, of sample_web_env sample_registry "[sample_web_request sample_request]"] s0 show ?thesis
    by (simp add: order_request_def sample_web_request_def)
qed

lemma capabilities_answer: "\<exists>r s'. app_route env CatalogCapabilities rq s = (Inr r, s')"
  by (cases "current_tenant s") (simp_all add: op_bind_def op_return_def get_catalog_capabilities_def Let_def)

theorem web_security_headers_witness:
  "\<forall>s. \<exists>r s'. web_serve sample_web_env sample_registry (sample_web_request sample_request) s = (Inr r, s') \<and>
     we_header_get sample_web_env (wr_headers (web_answer sample_web_env r)) ''Strict-Transport-Security'' =
       Some ''max-age=63072000; includeSubDomains; preload''"
proof
  fix s
  let ?w = "sample_web_request sample_request"
  let ?rq = "(wq_request ?w)\<lparr>rq_path := call_path (wq_call ?w)\<rparr>"
  have rq: "\<not> exempt ?rq" "resolve sample_registry ?rq = Inr sample_context"
    using sample_routed [of CatalogCapabilities] by (simp_all add: sample_web_request_def)
  obtain r0 s0 where "app_route sample_web_env (wq_call ?w) ?rq (set_current_tenant (Some sample_context) s) = (Inr r0, s0)"
    using capabilities_answer by (fastforce simp: sample_web_request_def simp del: app_route.simps)
  then obtain r s' where run: "web_serve sample_web_env sample_registry ?w s = (Inr r, s')"
    using rq by (auto simp: web_serve_def dispatch_def call_downstream_def security_dispatch_def op_bind_apply op_return_def
        simp del: app_route.simps)
  moreover have "(''Strict-Transport-Security'', ''max-age=63072000; includeSubDomains; preload'') \<in> set (seven_headers (wq_nonce ?w))"
    by (simp add: seven_headers_def)
  ultimately show "\<exists>r s'. web_serve sample_web_env sample_registry ?w s = (Inr r, s') \<and>
      we_header_get sample_web_env (wr_headers (web_answer sample_web_env r)) ''Strict-Transport-Security'' =
        Some ''max-age=63072000; includeSubDomains; preload''"
    using web_security_headers [OF sample_header_laws refl, of ?w sample_registry s] rq(2)
    by (fastforce simp: list_all_iff)
qed

text \<open>A payment intent of a registered tenant, whose accepted charge has a status the service does not know.\<close>

definition sample_charge :: web_request where
  "sample_charge = \<lparr>wq_request = sample_request, wq_call = CreateIntent sample_intent, wq_nonce = ''n''\<rparr>"

lemma intent_sent:
  assumes "intent_request_valid q"
  shows "map gq_method (ps_sent (snd (create_payment_intent_route ext gw q s))) = map gq_method (ps_sent s) @ [PaymentIntent_create]"
  using assms
  by (auto simp: create_payment_intent_route_def create_intent_def create_payment_intent_def send_def intent_request_valid_def
      intent_log_def pay_call_def pay_now_def op_bind_apply op_simps Let_def split: sum.split)

lemma route_payments:
  "wa_payments (sc_app (snd (app_route env CatalogCapabilities rq s))) = wa_payments (sc_app s)"
  "wa_payments (sc_app (snd (app_route env (CreateIntent q) rq s))) =
     snd (create_payment_intent_route (we_externals env) (we_gateway env) q (wa_payments (sc_app s)))"
  by (simp_all add: snd_bind_return on_payments_def split_beta get_catalog_capabilities_def Let_def split: sum.split)

lemma sample_steps:
  "wa_payments (sc_app (web_step env sample_registry (sample_web_request sample_request) s)) = wa_payments (sc_app s)"
  "map gq_method (ps_sent (wa_payments (sc_app (web_step env sample_registry sample_charge s)))) =
     map gq_method (ps_sent (wa_payments (sc_app s))) @ [PaymentIntent_create]"
proof -
  have "intent_request_valid sample_intent" by code_simp
  then show "wa_payments (sc_app (web_step env sample_registry (sample_web_request sample_request) s)) = wa_payments (sc_app s)"
    and "map gq_method (ps_sent (wa_payments (sc_app (web_step env sample_registry sample_charge s)))) =
      map gq_method (ps_sent (wa_payments (sc_app s))) @ [PaymentIntent_create]"
    using sample_routed [of CatalogCapabilities] sample_routed [of "CreateIntent sample_intent"]
    by (simp_all add: web_step_apply route_payments sample_web_request_def sample_charge_def intent_sent del: app_route.simps)
qed

theorem web_books_witness:
  "\<exists>s0 a. create_app sample_settings = Inr s0 \<and>
     a = sc_app (fold (stack_step (\<lambda>_ h. h) sample_settings sample_web_env sample_registry)
       [sample_charge, sample_web_request sample_request] s0) \<and>
     length (ps_sent (wa_payments a)) = 1 \<and>
     verify_chain_integrity (sha256 sample_externals) (ps_intent_audit (wa_payments a)) \<and>
     map ae_transaction_ref (al_entries (ps_intent_audit (wa_payments a))) = [go_id sample_reply]"
proof -
  obtain s0 where s0: "create_app sample_settings = Inr s0" using sample_app by blast
  let ?ws = "[sample_charge, sample_web_request sample_request]"
  define a where "a = sc_app (fold (stack_step (\<lambda>_ h. h) sample_settings sample_web_env sample_registry) ?ws s0)"
  have "ps_sent (wa_payments (sc_app s0)) = []"
    using s0 by (auto simp: create_app_cases initial_services_def split: if_splits)
  then have sent: "map gq_method (ps_sent (wa_payments a)) = [PaymentIntent_create]"
    by (simp add: a_def stack_step_def web_stack_def web_step_def [symmetric] sample_steps)
  have "cors_law (\<lambda>_ h. h)" by (simp add: cors_law_def)
  note books = web_books [OF sample_registry_named s0 this refl a_def]
  have env: "we_externals sample_web_env = sample_externals" "we_gateway sample_web_env = sample_gateway"
    by (simp_all add: sample_web_env_def)
  have chain: "verify_chain_integrity (sha256 sample_externals) (ps_intent_audit (wa_payments a))"
    and refs: "map ae_transaction_ref (al_entries (ps_intent_audit (wa_payments a))) =
      accepted_intents sample_gateway (ps_sent (wa_payments a))"
    using books unfolding env by blast+
  from sent obtain q where q: "ps_sent (wa_payments a) = [q]" "gq_method q = PaymentIntent_create" by auto
  with refs have entry: "map ae_transaction_ref (al_entries (ps_intent_audit (wa_payments a))) = [go_id sample_reply]"
    by (simp add: accepted_intents_def sample_gateway_def)
  have one: "length (ps_sent (wa_payments a)) = 1" using q by simp
  show ?thesis by (intro exI [of _ s0] exI [of _ a] conjI) (fact s0 a_def one chain entry)+
qed

end
