(* ===== verification/Json_Reader.thy ===== *)
theory Json_Reader
  imports Py_Json
begin

text \<open>
  \<open>json.loads\<close> on the values of \<open>Py_Json\<close>, and the theorem that it reads back what \<open>json.dumps\<close>
  wrote, with the members of every dict in key order. The outcome of reading is an option of a
  result: \<open>Some (Inl ValueError)\<close> is \<open>JSONDecodeError\<close>, \<open>None\<close> says that the text holds a value
  the model has no type for (a fractional number, \<open>NaN\<close>, a code point above 255). The recursion
  on nested values is bounded by the length of the text, since each nested call has consumed at
  least one character.
\<close>

section \<open>Outcomes\<close>

type_synonym 'a reading = "'a result option"

definition read_ok :: "'a \<Rightarrow> 'a reading" where
  "read_ok a = Some (Inr a)"

definition malformed :: "'a reading" where
  "malformed = Some (Inl ValueError)"

definition read_bind :: "'a reading \<Rightarrow> ('a \<Rightarrow> 'b reading) \<Rightarrow> 'b reading" where
  "read_bind m f = (case m of None \<Rightarrow> None | Some (Inl e) \<Rightarrow> Some (Inl e) | Some (Inr a) \<Rightarrow> f a)"

lemma read_bind_simps [simp]:
  "read_bind (read_ok a) f = f a" "read_bind malformed f = malformed" "read_bind None f = None"
  "read_bind (Some (Inl e)) f = Some (Inl e)"
  by (simp_all add: read_bind_def read_ok_def malformed_def)

lemma read_ok_inject [simp]: "read_ok a = read_ok b \<longleftrightarrow> a = b"
  by (simp add: read_ok_def)

section \<open>Tokens\<close>

definition is_json_ws :: "char \<Rightarrow> bool" where
  "is_json_ws c \<longleftrightarrow> c \<in> {CHR '' '', CHR 0x09, CHR 0x0A, CHR 0x0D}"

definition skip_ws :: "string \<Rightarrow> string" where
  "skip_ws = dropWhile is_json_ws"

definition is_hex_char :: "char \<Rightarrow> bool" where
  "is_hex_char c \<longleftrightarrow> is_digit c \<or> in_range 97 102 c \<or> in_range 65 70 c"

definition hex_char_val :: "char \<Rightarrow> nat" where
  "hex_char_val c = (if is_digit c then of_char c - 48 else if in_range 97 102 c then of_char c - 87 else of_char c - 55)"

definition escape_of :: "char \<Rightarrow> char option" where
  "escape_of e =
     (if e = CHR 0x22 \<or> e = CHR 0x5C \<or> e = CHR ''/'' then Some e
      else if e = CHR ''b'' then Some (CHR 0x08)
      else if e = CHR ''f'' then Some (CHR 0x0C)
      else if e = CHR ''n'' then Some (CHR 0x0A)
      else if e = CHR ''r'' then Some (CHR 0x0D)
      else if e = CHR ''t'' then Some (CHR 0x09)
      else None)"

definition read_cons :: "char \<Rightarrow> (string \<times> string) reading \<Rightarrow> (string \<times> string) reading" where
  "read_cons c m = read_bind m (\<lambda>(s, r). read_ok (c # s, r))"

text \<open>The rest of a string literal after its opening quote.\<close>

fun read_string :: "string \<Rightarrow> (string \<times> string) reading" where
  "read_string [] = malformed"
| "read_string (c # s) =
     (if c = json_quote then read_ok ([], s)
      else if c = CHR 0x5C then
        (case s of
           [] \<Rightarrow> malformed
         | e # t \<Rightarrow>
             if e = CHR ''u'' then
               (case t of
                  h1 # h2 # h3 # h4 # r \<Rightarrow>
                    if list_all is_hex_char [h1, h2, h3, h4] then
                      let n = ((hex_char_val h1 * 16 + hex_char_val h2) * 16 + hex_char_val h3) * 16 + hex_char_val h4 in
                      if n < 256 then read_cons (char_of n) (read_string r) else None
                    else malformed
                | _ \<Rightarrow> malformed)
             else (case escape_of e of None \<Rightarrow> malformed | Some d \<Rightarrow> read_cons d (read_string t)))
      else if (of_char c :: nat) < 32 then malformed
      else read_cons c (read_string s))"

definition float_tail :: "string \<Rightarrow> bool" where
  "float_tail s =
     (case s of
        c # d # t \<Rightarrow> (c = CHR ''.'' \<and> is_digit d) \<or>
          ((c = CHR ''e'' \<or> c = CHR ''E'') \<and>
           (is_digit d \<or> ((d = CHR ''+'' \<or> d = CHR ''-'') \<and> t \<noteq> [] \<and> is_digit (hd t))))
      | _ \<Rightarrow> False)"

text \<open>A number without its sign: one zero, or digits that do not start with zero.\<close>

definition read_nat :: "string \<Rightarrow> (nat \<times> string) reading" where
  "read_nat s =
     (let digits = (if s \<noteq> [] \<and> hd s = CHR ''0'' then [CHR ''0''] else takeWhile is_digit s);
          rest = drop (length digits) s in
      if digits = [] then malformed
      else if float_tail rest then None
      else read_ok (nat_of_digits digits, rest))"

definition read_int :: "string \<Rightarrow> (pyval \<times> string) reading" where
  "read_int s =
     (if s \<noteq> [] \<and> hd s = CHR ''-'' then read_bind (read_nat (tl s)) (\<lambda>(n, r). read_ok (PInt (- int n), r))
      else read_bind (read_nat s) (\<lambda>(n, r). read_ok (PInt (int n), r)))"

section \<open>Values\<close>

fun read_value :: "nat \<Rightarrow> string \<Rightarrow> (pyval \<times> string) reading"
  and read_elements :: "nat \<Rightarrow> string \<Rightarrow> (pyval list \<times> string) reading"
  and read_members :: "nat \<Rightarrow> string \<Rightarrow> ((string \<times> pyval) list \<times> string) reading" where
  "read_value 0 s = None"
| "read_value (Suc n) s =
     (if s = [] then malformed
      else if hd s = json_quote then read_bind (read_string (tl s)) (\<lambda>(x, r). read_ok (PStr x, r))
      else if hd s = CHR ''{'' then
        (let t = skip_ws (tl s) in
         if t \<noteq> [] \<and> hd t = CHR ''}'' then read_ok (PDict [], tl t)
         else read_bind (read_members n t) (\<lambda>(ms, r). read_ok (PDict (fold (\<lambda>(k, v). dict_set k v) ms []), r)))
      else if hd s = CHR ''['' then
        (let t = skip_ws (tl s) in
         if t \<noteq> [] \<and> hd t = CHR '']'' then read_ok (PList [], tl t)
         else read_bind (read_elements n t) (\<lambda>(vs, r). read_ok (PList vs, r)))
      else if str_startswith s ''null'' then read_ok (PNone, drop 4 s)
      else if str_startswith s ''true'' then read_ok (PBool True, drop 4 s)
      else if str_startswith s ''false'' then read_ok (PBool False, drop 5 s)
      else if str_startswith s ''NaN'' \<or> str_startswith s ''Infinity'' \<or> str_startswith s ''-Infinity'' then None
      else read_int s)"
| "read_elements 0 s = None"
| "read_elements (Suc n) s =
     read_bind (read_value n s) (\<lambda>(v, r).
       let t = skip_ws r in
       if t \<noteq> [] \<and> hd t = CHR '']'' then read_ok ([v], tl t)
       else if t \<noteq> [] \<and> hd t = CHR '','' then
         read_bind (read_elements n (skip_ws (tl t))) (\<lambda>(vs, u). read_ok (v # vs, u))
       else malformed)"
| "read_members 0 s = None"
| "read_members (Suc n) s =
     (if s = [] \<or> hd s \<noteq> json_quote then malformed
      else read_bind (read_string (tl s)) (\<lambda>(k, r).
        let c = skip_ws r in
        if c = [] \<or> hd c \<noteq> CHR '':'' then malformed
        else read_bind (read_value n (skip_ws (tl c))) (\<lambda>(v, r).
          let t = skip_ws r in
          if t \<noteq> [] \<and> hd t = CHR ''}'' then read_ok ([(k, v)], tl t)
          else if t \<noteq> [] \<and> hd t = CHR '','' then
            read_bind (read_members n (skip_ws (tl t))) (\<lambda>(ms, u). read_ok ((k, v) # ms, u))
          else malformed)))"

definition json_loads :: "string \<Rightarrow> pyval reading" where
  "json_loads s =
     read_bind (read_value (Suc (length s)) (skip_ws s)) (\<lambda>(v, r).
       if skip_ws r = [] then read_ok v else malformed)"

section \<open>What is written can be read\<close>

text \<open>The values that \<open>json.dumps\<close> without a default accepts, with the distinct keys every Python
  dict has, and their form after reading: members in key order.\<close>

fun json_plain :: "pyval \<Rightarrow> bool" where
  "json_plain (POther s) = False"
| "json_plain (PList vs) = list_all json_plain vs"
| "json_plain (PDict ms) = (dict_ok ms \<and> list_all (\<lambda>(k, v). json_plain v) ms)"
| "json_plain v = True"

fun sorted_keys :: "pyval \<Rightarrow> pyval" where
  "sorted_keys (PList vs) = PList (map sorted_keys vs)"
| "sorted_keys (PDict ms) = PDict (sort_members (map (\<lambda>(k, v). (k, sorted_keys v)) ms))"
| "sorted_keys v = v"

lemma hex_digit_char: "n < 16 \<Longrightarrow> is_hex_char (hex_digit n) \<and> hex_char_val (hex_digit n) = n"
  by (auto simp: is_hex_char_def hex_char_val_def hex_digit_def char_class_defs of_char_of)

lemma read_string_char: "read_string (json_char c @ s) = read_cons c (read_string s)"
proof -
  have h: "(of_char c :: nat) div 16 < 16" "(of_char c :: nat) mod 16 < 16"
    using of_char_less [of c] by (simp_all add: less_mult_imp_div_less)
  have z: "is_hex_char CHR ''0''" "hex_char_val CHR ''0'' = 0" by code_simp+
  have "read_string ([CHR 0x5C, CHR ''u'', CHR ''0'', CHR ''0'',
      hex_digit (of_char c div 16), hex_digit (of_char c mod 16)] @ s) = read_cons c (read_string s)"
    using hex_digit_char [OF h(1)] hex_digit_char [OF h(2)] of_char_less [of c]
    by (simp add: json_quote_def z Let_def)
  then show ?thesis
    by (simp add: json_char_def Let_def json_quote_def escape_of_def)
qed

lemma read_string_body: "read_string (concat (map json_char s) @ json_quote # r) = read_ok (s, r)"
  by (induction s) (simp_all add: read_string_char read_cons_def)

definition delimited :: "string \<Rightarrow> bool" where
  "delimited r \<longleftrightarrow> r = [] \<or> hd r \<in> {CHR '','', CHR '']'', CHR ''}''} \<or> is_json_ws (hd r)"

lemma hd_str_of_nat: "n \<noteq> 0 \<Longrightarrow> hd (str_of_nat n) \<noteq> CHR ''0''"
proof (induction n rule: str_of_nat.induct)
  case (1 n)
  show ?case
  proof (cases "n < 10")
    case True
    moreover have "digit_val (CHR ''0'') = 0" by (simp add: digit_val_def)
    then have "digit_char n \<noteq> CHR ''0''" using 1 True digit_val_char [of n] by metis
    ultimately show ?thesis by (simp add: str_of_nat.simps [of n])
  next
    case False
    with 1 have "hd (str_of_nat (n div 10)) \<noteq> CHR ''0''" by simp
    with False show ?thesis by (simp add: str_of_nat.simps [of n])
  qed
qed


lemma takeWhile_digits:
  assumes "list_all is_digit ds" "delimited r"
  shows "takeWhile is_digit (ds @ r) = ds"
proof -
  have "r = [] \<or> \<not> is_digit (hd r)" using assms(2) by (auto simp: delimited_def is_json_ws_def char_class_defs)
  with assms(1) show ?thesis by (cases r) (auto simp: list_all_iff takeWhile_append)
qed

lemma float_tail_delimited: "delimited r \<Longrightarrow> \<not> float_tail r"
  by (cases r) (auto simp: delimited_def float_tail_def is_json_ws_def split: list.splits)

lemma read_nat_str: "delimited r \<Longrightarrow> read_nat (str_of_nat n @ r) = read_ok (n, r)"
proof (cases "n = 0")
  case True
  assume r: "delimited r"
  have "str_of_nat 0 = ''0''" by code_simp
  with True r show ?thesis by (simp add: read_nat_def float_tail_delimited digit_val_def)
next
  case False
  assume r: "delimited r"
  have "str_of_nat n @ r \<noteq> []" "hd (str_of_nat n @ r) \<noteq> CHR ''0''"
    using hd_str_of_nat [OF False] by simp_all
  with r takeWhile_digits [OF str_of_nat_digits r] show ?thesis
    by (simp add: read_nat_def Let_def float_tail_delimited)
qed

lemma hd_digits: "is_digit (hd (str_of_nat n @ r))"
  using str_of_nat_digits [of n] by (cases "str_of_nat n") simp_all

lemma hd_int: "is_digit (hd (str_of_int i @ r)) \<or> hd (str_of_int i @ r) = CHR ''-''" "str_of_int i \<noteq> []"
  using hd_digits by (auto simp: str_of_int_def)

lemma read_int_str: "delimited r \<Longrightarrow> read_int (str_of_int i @ r) = read_ok (PInt i, r)"
proof (cases "i < 0")
  case True
  assume "delimited r"
  with True show ?thesis by (simp add: str_of_int_def read_int_def read_nat_str)
next
  case False
  assume "delimited r"
  moreover have "hd (str_of_nat (nat i) @ r) \<noteq> CHR ''-''"
    using hd_digits [of "nat i" r] by (auto simp: char_class_defs)
  ultimately show ?thesis using False by (simp add: str_of_int_def read_int_def read_nat_str)
qed

lemma read_value_int:
  assumes "delimited r"
  shows "read_value (Suc n) (str_of_int i @ r) = read_ok (PInt i, r)"
proof -
  let ?s = "str_of_int i @ r"
  have "hd ?s \<noteq> json_quote \<and> hd ?s \<noteq> CHR ''{'' \<and> hd ?s \<noteq> CHR ''[''"
    using hd_int(1) [of i r] digit_plain [of "hd ?s"] by (auto simp: json_quote_def)
  moreover have "\<not> str_startswith ?s (c # cs)" if "c \<in> {CHR ''n'', CHR ''t'', CHR ''f'', CHR ''N'', CHR ''I''}" for c cs
    using that hd_int(1) [of i r] by (auto simp: str_startswith_iff char_class_defs)
  moreover have "\<not> str_startswith ?s ''-Infinity''"
  proof
    assume "str_startswith ?s ''-Infinity''"
    then obtain t where t: "?s = ''-Infinity'' @ t" by (auto simp: str_startswith_iff)
    then have "hd ?s = CHR ''-''" by simp
    then have "i < 0" using hd_digits [of "nat i" r] by (auto simp: str_of_int_def char_class_defs split: if_splits)
    with t have "hd (str_of_nat (nat (- i)) @ r) = CHR ''I''" by (simp add: str_of_int_def)
    with hd_digits [of "nat (- i)" r] show False by (auto simp: char_class_defs)
  qed
  ultimately show ?thesis
    using hd_int(2) [of i] assms by (simp add: read_int_str)
qed


section \<open>Grammar\<close>

text \<open>The texts of a value: white space may stand around brackets, commas and colons. Strings and
  numbers are in the form they are written in.\<close>

abbreviation blank :: "string \<Rightarrow> bool" where
  "blank w \<equiv> list_all is_json_ws w"

inductive json_text :: "pyval \<Rightarrow> string \<Rightarrow> bool"
  and elements_text :: "pyval list \<Rightarrow> string \<Rightarrow> bool"
  and members_text :: "(string \<times> pyval) list \<Rightarrow> string \<Rightarrow> bool" where
  NullText: "json_text PNone ''null''"
| BoolText: "json_text (PBool b) (if b then ''true'' else ''false'')"
| IntText: "json_text (PInt i) (str_of_int i)"
| StrText: "json_text (PStr s) (json_string s)"
| EmptyListText: "blank w \<Longrightarrow> json_text (PList []) (CHR ''['' # w @ '']'')"
| ListText: "blank w \<Longrightarrow> elements_text vs t \<Longrightarrow> json_text (PList vs) (CHR ''['' # w @ t)"
| LastElement: "json_text v t \<Longrightarrow> blank w \<Longrightarrow> elements_text [v] (t @ w @ '']'')"
| MoreElements: "json_text v t \<Longrightarrow> blank w \<Longrightarrow> blank w' \<Longrightarrow> elements_text vs u \<Longrightarrow>
    elements_text (v # vs) (t @ w @ CHR '','' # w' @ u)"
| EmptyDictText: "blank w \<Longrightarrow> json_text (PDict []) (CHR ''{'' # w @ ''}'')"
| DictText: "blank w \<Longrightarrow> members_text ms t \<Longrightarrow>
    json_text (PDict (fold (\<lambda>(k, v). dict_set k v) ms [])) (CHR ''{'' # w @ t)"
| LastMember: "blank x \<Longrightarrow> blank y \<Longrightarrow> json_text v t \<Longrightarrow> blank w \<Longrightarrow>
    members_text [(k, v)] (json_string k @ x @ CHR '':'' # y @ t @ w @ ''}'')"
| MoreMembers: "blank x \<Longrightarrow> blank y \<Longrightarrow> json_text v t \<Longrightarrow> blank w \<Longrightarrow> blank w' \<Longrightarrow> members_text ms u \<Longrightarrow>
    members_text ((k, v) # ms) (json_string k @ x @ CHR '':'' # y @ t @ w @ CHR '','' # w' @ u)"

lemma skip_ws_blank [simp]: "blank w \<Longrightarrow> skip_ws (w @ s) = skip_ws s"
  by (induction w) (simp_all add: skip_ws_def)

lemma skip_ws_head [simp]: "\<not> is_json_ws c \<Longrightarrow> skip_ws (c # s) = c # s"
  by (simp add: skip_ws_def)

lemma json_ws_marks [simp]:
  "\<not> is_json_ws CHR '',''" "\<not> is_json_ws CHR '':''" "\<not> is_json_ws CHR '']''" "\<not> is_json_ws CHR ''}''"
  "\<not> is_json_ws CHR ''[''" "\<not> is_json_ws CHR ''{''" "\<not> is_json_ws CHR ''n''" "\<not> is_json_ws CHR ''t''"
  "\<not> is_json_ws CHR ''f''" "\<not> is_json_ws json_quote"
  by (simp_all add: is_json_ws_def json_quote_def)

lemma delimited_blank [simp]:
  "blank w \<Longrightarrow> delimited (w @ CHR '','' # r)" "blank w \<Longrightarrow> delimited (w @ CHR '']'' # r)"
  "blank w \<Longrightarrow> delimited (w @ CHR ''}'' # r)" "blank w \<Longrightarrow> delimited w"
  by (cases w; simp add: delimited_def)+

text \<open>How texts start: never with white space or a closing bracket.\<close>

lemma text_start:
  "json_text v t \<Longrightarrow> t \<noteq> [] \<and> \<not> is_json_ws (hd t) \<and> hd t \<noteq> CHR '']''"
  "elements_text vs t \<Longrightarrow> t \<noteq> [] \<and> \<not> is_json_ws (hd t) \<and> hd t \<noteq> CHR '']''"
  "members_text ms t \<Longrightarrow> t \<noteq> [] \<and> hd t = json_quote"
proof (induction rule: json_text_elements_text_members_text.inducts)
  case (IntText i)
  with hd_int(1) [of i "[]"] hd_int(2) [of i] show ?case by (auto simp: is_json_ws_def char_class_defs)
qed (auto simp: json_string_def json_quote_def is_json_ws_def)

lemma skip_ws_text [simp]:
  "json_text v t \<Longrightarrow> skip_ws (t @ r) = t @ r" "elements_text vs t \<Longrightarrow> skip_ws (t @ r) = t @ r"
  "members_text ms t \<Longrightarrow> skip_ws (t @ r) = t @ r"
  by (auto dest!: text_start simp: neq_Nil_conv)

text \<open>One step of the loops over elements and members.\<close>

lemma read_elements_step:
  assumes "read_value n s = read_ok (v, r)" "skip_ws r = CHR '','' # t" "read_elements n (skip_ws t) = read_ok (vs, u)"
  shows "read_elements (Suc n) s = read_ok (v # vs, u)"
  using assms by (simp add: Let_def)

lemma read_members_step:
  assumes "read_string s = read_ok (k, c)" "skip_ws c = CHR '':'' # w" "read_value n (skip_ws w) = read_ok (v, r)"
  shows "skip_ws r = CHR ''}'' # t \<Longrightarrow> read_members (Suc n) (json_quote # s) = read_ok ([(k, v)], t)"
    and "skip_ws r = CHR '','' # t \<Longrightarrow> read_members n (skip_ws t) = read_ok (ms, u) \<Longrightarrow>
      read_members (Suc n) (json_quote # s) = read_ok ((k, v) # ms, u)"
  using assms by (simp_all add: Let_def)

text \<open>The reader reads every text of the grammar, whatever follows it; the length of the text is
  fuel enough.\<close>

lemma read_text:
  "json_text v t \<Longrightarrow> delimited r \<Longrightarrow> length t < n \<Longrightarrow> read_value n (t @ r) = read_ok (v, r)"
  "elements_text vs t \<Longrightarrow> length t < n \<Longrightarrow> read_elements n (t @ r) = read_ok (vs, r)"
  "members_text ms t \<Longrightarrow> length t < n \<Longrightarrow> read_members n (t @ r) = read_ok (ms, r)"
proof (induction arbitrary: n r and n r and n r rule: json_text_elements_text_members_text.inducts)
  case NullText
  then show ?case by (cases n) (simp_all add: json_quote_def str_startswith_def)
next
  case (BoolText b)
  then show ?case by (cases n) (auto simp: json_quote_def str_startswith_def)
next
  case (IntText i)
  then show ?case by (cases n) (simp_all add: read_value_int del: read_value.simps(2))
next
  case (StrText s)
  then show ?case by (cases n) (simp_all add: json_string_def read_string_body)
next
  case (EmptyListText w)
  then show ?case by (cases n) (simp_all add: json_quote_def)
next
  case (ListText w vs t)
  then obtain m where n: "n = Suc m" "length t < m" by (cases n) auto
  from text_start(2) [OF ListText(2)] have "hd (t @ r) \<noteq> CHR '']''" "t \<noteq> []" by simp_all
  with ListText n show ?case by (simp add: json_quote_def del: read_elements.simps)
next
  case (LastElement v t w)
  then obtain m where n: "n = Suc m" "length t < m" by (cases n) auto
  then show ?case using LastElement by simp
next
  case (MoreElements v t w w' vs u)
  then obtain m where n: "n = Suc m" "length t < m" "length u < m" by (cases n) auto
  have "read_value m (t @ w @ CHR '','' # w' @ u @ r) = read_ok (v, w @ CHR '','' # w' @ u @ r)"
    using MoreElements n by simp
  then show ?case
    using n MoreElements by (simp add: read_elements_step [where r = "w @ CHR '','' # w' @ u @ r"] del: read_elements.simps)
next
  case (EmptyDictText w)
  then show ?case by (cases n) (simp_all add: json_quote_def)
next
  case (DictText w ms t)
  then obtain m where n: "n = Suc m" "length t < m" by (cases n) auto
  from text_start(3) [OF DictText(2)] have "hd (t @ r) = json_quote" "t \<noteq> []" by simp_all
  with DictText n show ?case by (simp add: json_quote_def del: read_members.simps)
next
  case (LastMember x y v t w k)
  then obtain m where n: "n = Suc m" "length t < m" by (cases n) auto
  have "read_value m (t @ w @ CHR ''}'' # r) = read_ok (v, w @ CHR ''}'' # r)"
    using LastMember n by simp
  with LastMember n show ?case
    by (simp add: json_string_def read_members_step(1) [OF read_string_body] del: read_members.simps)
next
  case (MoreMembers x y v t w w' ms u k)
  then obtain m where n: "n = Suc m" "length t < m" "length u < m" by (cases n) auto
  have "read_value m (t @ w @ CHR '','' # w' @ u @ r) = read_ok (v, w @ CHR '','' # w' @ u @ r)"
    using MoreMembers n by simp
  with MoreMembers n show ?case
    by (simp add: json_string_def read_members_step(2) [OF read_string_body] del: read_members.simps)
qed

lemma json_loads_text:
  assumes "json_text v t" "blank w" "blank w'"
  shows "json_loads (w @ t @ w') = read_ok v"
proof -
  have "read_value (Suc (length (w @ t @ w'))) (t @ w') = read_ok (v, w')"
    using assms by (intro read_text(1)) simp_all
  moreover have "skip_ws w' = []" using skip_ws_blank [OF assms(3), of "[]"] by (simp add: skip_ws_def)
  ultimately show ?thesis using assms by (simp add: json_loads_def del: read_value.simps)
qed

section \<open>The compact writer\<close>

lemma insert_member_map:
  "insert_member (fst p, f (snd p)) (map (\<lambda>(k, v). (k, f v)) qs) = map (\<lambda>(k, v). (k, f v)) (insert_member p qs)"
  by (induction qs) (auto simp: split_beta)

lemma sort_members_map: "sort_members (map (\<lambda>(k, v). (k, f v)) ps) = map (\<lambda>(k, v). (k, f v)) (sort_members ps)"
proof (induction ps)
  case (Cons p ps)
  then show ?case using insert_member_map [of p f "sort_members ps"] by (cases p) (simp add: sort_members_def)
qed (simp add: sort_members_def)

lemma dict_ok_sort_members [simp]: "dict_ok (sort_members ps) = dict_ok ps"
proof -
  have "dict_ok qs \<longleftrightarrow> card (fst ` set qs) = length qs" for qs :: "(string \<times> 'a) list"
    by (metis card_distinct distinct_card length_map set_map)
  then show ?thesis by simp
qed

lemma fold_dict_set: "dict_ok (d @ ms) \<Longrightarrow> fold (\<lambda>(k, v). dict_set k v) ms d = d @ ms"
proof (induction ms arbitrary: d)
  case (Cons p ms)
  then have "dict_set (fst p) (snd p) d = d @ [p]" by (simp add: dict_set_new)
  with Cons show ?case by (simp add: split_beta)
qed simp

definition member_text :: "string \<times> pyval \<Rightarrow> string" where
  "member_text p = json_string (fst p) @ '': '' @ json_dumps (snd p)"

lemma json_dict_text: "json_dumps (PDict ms) = ''{'' @ str_join '', '' (map member_text (sort_members ms)) @ ''}''"
  by (simp add: json_members_map sort_members_map member_text_def [abs_def] split_beta comp_def)

lemma elements_join:
  assumes "vs \<noteq> []" "list_all2 json_text vs ts" "blank w" "blank w'"
  shows "elements_text vs (str_join (CHR '','' # w) ts @ w' @ '']'')"
  using assms(2,1)
proof (induction rule: list_all2_induct)
  case (Cons v vs t ts)
  show ?case
  proof (cases "ts = []")
    case True
    with Cons.hyps LastElement [OF Cons.hyps(1) assms(4)] show ?thesis by simp
  next
    case False
    then obtain t' ts' where ts: "ts = t' # ts'" by (cases ts) auto
    from False Cons.hyps have "vs \<noteq> []" by auto
    from MoreElements [OF Cons.hyps(1) _ assms(3) Cons.IH [OF this], of "[]"] ts show ?thesis by simp
  qed
qed simp

lemma members_join:
  assumes "ms \<noteq> []" "list_all2 (\<lambda>(k, v) (k', t). k' = k \<and> json_text v t) ms ts" "blank w" "blank w'"
  shows "members_text ms (str_join (CHR '','' # w) (map (\<lambda>(k, t). json_string k @ '': '' @ t) ts) @ w' @ ''}'')"
  using assms(2,1)
proof (induction rule: list_all2_induct)
  case (Cons m ms p ts)
  obtain k v t where m: "m = (k, v)" "p = (k, t)" "json_text v t" using Cons.hyps(1) by (cases m; cases p) auto
  have sp: "blank [CHR 0x20]" by (simp add: is_json_ws_def)
  show ?case
  proof (cases "ts = []")
    case True
    with Cons.hyps LastMember [OF _ sp m(3) assms(4), of "[]" k] m show ?thesis by simp
  next
    case False
    then obtain q ts' where ts: "ts = q # ts'" by (cases ts) auto
    from False Cons.hyps have "ms \<noteq> []" by auto
    from MoreMembers [OF _ sp m(3) _ assms(3) Cons.IH [OF this], of "[]" "[]" k] ts m show ?thesis by simp
  qed
qed simp

lemma json_dumps_text: "json_plain v \<Longrightarrow> json_text (sorted_keys v) (json_dumps v)"
proof (induction v)
  case (PBool b)
  show ?case using BoolText [of b] by simp
next
  case (PList vs)
  show ?case
  proof (cases "vs = []")
    case True
    then show ?thesis using EmptyListText [of "[]"] by simp
  next
    case False
    have "list_all2 json_text (map sorted_keys vs) (map json_dumps vs)"
      using PList by (simp add: list_all2_conv_all_nth list_all_length)
    from elements_join [OF _ this, of "'' ''" "[]"] False ListText [of "[]"] show ?thesis
      by (simp add: is_json_ws_def)
  qed
next
  case (PDict ms)
  let ?ms = "map (\<lambda>(k, v). (k, sorted_keys v)) (sort_members ms)"
  have ok: "dict_ok ?ms" using PDict.prems by (simp add: split_beta comp_def)
  show ?case
  proof (cases "ms = []")
    case True
    then show ?thesis using EmptyDictText [of "[]"] by (simp add: sort_members_def)
  next
    case False
    then have ne: "?ms \<noteq> []" by (metis length_0_conv length_sort_members map_is_Nil_conv)
    have "json_text (sorted_keys v) (json_dumps v)" if "(k, v) \<in> set (sort_members ms)" for k v
      using PDict.IH [of "(k, v)" v] PDict.prems that by (auto simp: list_all_iff)
    then have "list_all2 (\<lambda>(k, v) (k', t). k' = k \<and> json_text v t) ?ms (map (\<lambda>(k, v). (k, json_dumps v)) (sort_members ms))"
      by (auto simp: list.rel_map simp del: set_sort_members intro!: list.rel_refl_strong)
    from members_join [OF ne this, of "'' ''" "[]"] DictText [of "[]" ?ms] ok show ?thesis
      by (simp add: fold_dict_set json_members_map sort_members_map is_json_ws_def)
  qed
qed (auto intro: json_text_elements_text_members_text.intros)

lemma json_loads_dumps: "json_plain v \<Longrightarrow> json_loads (json_dumps v) = read_ok (sorted_keys v)"
  using json_loads_text [OF json_dumps_text, of v "[]" "[]"] by simp

text \<open>Sorting the keys does not change the text.\<close>

lemma insert_member_sorted:
  "sorted (map fst (p # qs)) \<Longrightarrow> insert_member p qs = p # qs"
  by (cases qs) auto

lemma sort_members_sorted: "sorted (map fst ps) \<Longrightarrow> sort_members ps = ps"
  by (induction ps) (simp_all add: sort_members_def insert_member_sorted del: insert_member.simps)

lemma json_dumps_sorted_keys: "json_dumps (sorted_keys v) = json_dumps v"
proof (induction v)
  case (PList vs)
  then show ?case by (simp cong: map_cong)
next
  case (PDict ms)
  have "map member_text (map (\<lambda>(k, v). (k, sorted_keys v)) (sort_members ms)) = map member_text (sort_members ms)"
    using PDict by (auto simp: member_text_def)
  then show ?case
    unfolding sorted_keys.simps sort_members_map json_dict_text
    by (simp only: sort_members_sorted [OF sorted_sort_members])
qed simp_all

section \<open>The indented writer\<close>

text \<open>\<open>json.dumps(value, indent=2)\<close>: one element or member per line, members in the order of the
  dict, empty lists and dicts as brackets only.\<close>

definition newline_indent :: "nat \<Rightarrow> string" where
  "newline_indent k = CHR 0x0A # replicate (2 * k) CHR 0x20"

fun json_indent :: "nat \<Rightarrow> pyval \<Rightarrow> string"
  and indent_elements :: "nat \<Rightarrow> pyval list \<Rightarrow> string list"
  and indent_members :: "nat \<Rightarrow> (string \<times> pyval) list \<Rightarrow> (string \<times> string) list" where
  "json_indent k PNone = ''null''"
| "json_indent k (PBool b) = (if b then ''true'' else ''false'')"
| "json_indent k (PInt i) = str_of_int i"
| "json_indent k (PStr s) = json_string s"
| "json_indent k (POther s) = json_string s"
| "json_indent k (PList vs) =
     (if vs = [] then ''[]''
      else CHR ''['' # newline_indent (Suc k) @
        str_join (CHR '','' # newline_indent (Suc k)) (indent_elements (Suc k) vs) @ newline_indent k @ '']'')"
| "json_indent k (PDict ms) =
     (if ms = [] then ''{}''
      else CHR ''{'' # newline_indent (Suc k) @
        str_join (CHR '','' # newline_indent (Suc k))
          (map (\<lambda>(key, t). json_string key @ '': '' @ t) (indent_members (Suc k) ms)) @
        newline_indent k @ ''}'')"
| "indent_elements k [] = []"
| "indent_elements k (v # vs) = json_indent k v # indent_elements k vs"
| "indent_members k [] = []"
| "indent_members k ((key, v) # ms) = (key, json_indent k v) # indent_members k ms"

lemma blank_newline [simp]: "blank (newline_indent k)"
  by (simp add: newline_indent_def is_json_ws_def list_all_iff)

lemma json_indent_text:
  "json_plain v \<Longrightarrow> json_text v (json_indent k v)"
  "list_all json_plain vs \<Longrightarrow> list_all2 json_text vs (indent_elements k vs)"
  "list_all (\<lambda>(key, v). json_plain v) ms \<Longrightarrow>
     list_all2 (\<lambda>(key, v) (key', t). key' = key \<and> json_text v t) ms (indent_members k ms)"
proof (induction k v and k vs and k ms rule: json_indent_indent_elements_indent_members.induct)
  case (2 k b)
  show ?case using BoolText [of b] by simp
next
  case (6 k vs)
  then show ?case
    using EmptyListText [of "[]"] ListText [OF blank_newline elements_join [OF _ 6(1) blank_newline blank_newline]]
    by simp
next
  case (7 k ms)
  then have "fold (\<lambda>(k, v). dict_set k v) ms [] = ms" by (simp add: fold_dict_set)
  with 7 show ?case
    using EmptyDictText [of "[]"] DictText [OF blank_newline members_join [OF _ 7(1) blank_newline blank_newline]]
    by (simp add: list_all_iff split_beta)
qed (auto intro: json_text_elements_text_members_text.intros)

lemma json_loads_indent:
  "json_plain v \<Longrightarrow> json_loads (json_indent 0 v) = read_ok v"
  "json_plain v \<Longrightarrow> json_loads (json_indent 0 v @ [CHR 0x0A]) = read_ok v"
  using json_loads_text [OF json_indent_text(1), of v "[]" "[]"]
    json_loads_text [OF json_indent_text(1), of v "[]" "[CHR 0x0A]"]
  by (simp_all add: is_json_ws_def)

end
