(* ===== verification/Api_Schemas.thy ===== *)
theory Api_Schemas
  imports Web_App Json_Reader
begin

text \<open>
  The response models of \<open>api/schemas.py\<close>: each model is a list of fields with their types, a typing
  relation says which JSON values a type has, and the typing theorem says that every successful
  answer of the application is an object of the model its route declares (\<open>response_model\<close>).
\<close>

section \<open>Types and models\<close>

text \<open>The field types the response models use; \<open>TOptional t\<close> is \<open>t | None\<close>.\<close>

datatype field_type = TStr | TInt | TList field_type | TOptional field_type

type_synonym model = "(string \<times> field_type) list"

inductive has_type :: "pyval \<Rightarrow> field_type \<Rightarrow> bool" where
  StrVal: "has_type (PStr s) TStr"
| IntVal: "has_type (PInt i) TInt"
| ListVal: "list_all (\<lambda>v. has_type v t) vs \<Longrightarrow> has_type (PList vs) (TList t)"
| NoneVal: "has_type PNone (TOptional t)"
| SomeVal: "has_type v t \<Longrightarrow> has_type v (TOptional t)"
  monos list.pred_mono_strong

inductive_simps has_type_simps [simp]:
  "has_type v TStr" "has_type v TInt" "has_type v (TList t)" "has_type v (TOptional t)"

text \<open>An object of a model: exactly its fields, in their order, each of its type.\<close>

definition instance_of :: "pyval \<Rightarrow> model \<Rightarrow> bool" where
  "instance_of v m \<longleftrightarrow>
     (\<exists>ms. v = PDict ms \<and> list_all2 (\<lambda>(k, x) (k', t). k = k' \<and> has_type x t) ms m)"

definition PaymentIntentResponse_model :: model where
  "PaymentIntentResponse_model =
     [(''payment_intent_id'', TStr), (''status'', TStr), (''amount_cents'', TInt), (''currency'', TStr), (''order_id'', TStr)]"

definition RefundResponse_model :: model where
  "RefundResponse_model =
     [(''refund_id'', TStr), (''payment_intent_id'', TStr), (''amount_cents'', TInt), (''status'', TStr)]"

definition WebhookEventResponse_model :: model where
  "WebhookEventResponse_model = [(''status'', TStr)]"

definition OrderResponse_model :: model where
  "OrderResponse_model =
     [(''order_id'', TStr), (''tenant_id'', TStr), (''status'', TStr), (''payment_mode'', TStr),
      (''total_amount_cents'', TInt), (''currency'', TStr), (''external_id'', TStr),
      (''commission_rate'', TOptional TStr), (''platform_fee_cents'', TOptional TInt)]"

definition CatalogCapabilitiesResponse_model :: model where
  "CatalogCapabilitiesResponse_model =
     [(''vertical'', TStr), (''service_types'', TList TStr), (''product_kinds'', TList TStr)]"

definition VatCalculationResponse_model :: model where
  "VatCalculationResponse_model =
     [(''net_amount'', TStr), (''vat_amount'', TStr), (''gross_amount'', TStr), (''vat_rate'', TStr),
      (''country_code'', TStr), (''transaction_date'', TStr)]"

text \<open>The model each route declares; the health route declares \<open>dict[str, str]\<close>.\<close>

fun response_model :: "api_call \<Rightarrow> model" where
  "response_model (OrderCall c) = OrderResponse_model"
| "response_model (CreateIntent q) = PaymentIntentResponse_model"
| "response_model (CreateRefund b) = RefundResponse_model"
| "response_model (StripeWebhook p g t d) = WebhookEventResponse_model"
| "response_model CatalogCapabilities = CatalogCapabilitiesResponse_model"
| "response_model (CalculateVat q) = VatCalculationResponse_model"
| "response_model HealthCheck = [(''status'', TStr), (''service'', TStr)]"

section \<open>Bodies as JSON values\<close>

definition optional :: "('a \<Rightarrow> pyval) \<Rightarrow> 'a option \<Rightarrow> pyval" where
  "optional f v = (case v of None \<Rightarrow> PNone | Some a \<Rightarrow> f a)"

definition order_response_json :: "order_response \<Rightarrow> pyval" where
  "order_response_json r =
     PDict
       [(''order_id'', PStr (rs_order_id r)), (''tenant_id'', PStr (rs_tenant_id r)), (''status'', PStr (rs_status r)),
        (''payment_mode'', PStr (rs_payment_mode r)), (''total_amount_cents'', PInt (rs_total_amount_cents r)),
        (''currency'', PStr (rs_currency r)), (''external_id'', PStr (rs_external_id r)),
        (''commission_rate'', optional PStr (rs_commission_rate r)),
        (''platform_fee_cents'', optional PInt (rs_platform_fee_cents r))]"

definition capabilities_json :: "catalog_capabilities \<Rightarrow> pyval" where
  "capabilities_json c =
     PDict
       [(''vertical'', PStr (cc_vertical c)), (''service_types'', PList (map PStr (cc_service_types c))),
        (''product_kinds'', PList (map PStr (cc_product_kinds c)))]"

fun body_json :: "api_body \<Rightarrow> pyval option" where
  "body_json (OrderBody r) = Some (order_response_json r)"
| "body_json (JsonBody ms) = Some (PDict ms)"
| "body_json (VatBody ms) = Some (PDict (map (\<lambda>(k, v). (k, PStr v)) ms))"
| "body_json (CapabilitiesBody c) = Some (capabilities_json c)"
| "body_json (WebhookBody st) = Some (PDict [(''status'', PStr st)])"
| "body_json (HealthBody ms) = Some (PDict (map (\<lambda>(k, v). (k, PStr v)) ms))"
| "body_json ErrorBody = None"

section \<open>Every answer has the type its route declares\<close>

lemma order_body_typed: "instance_of (order_response_json r) OrderResponse_model"
  by (simp add: instance_of_def order_response_json_def OrderResponse_model_def optional_def split: option.split)

lemma capabilities_typed: "instance_of (capabilities_json c) CatalogCapabilitiesResponse_model"
  by (simp add: instance_of_def capabilities_json_def CatalogCapabilitiesResponse_model_def list_all_iff)

text \<open>What every result of an operation satisfies.\<close>

definition op_yields :: "('a \<Rightarrow> bool) \<Rightarrow> ('s, 'a) op \<Rightarrow> bool" where
  "op_yields P m \<longleftrightarrow> (\<forall>s a s'. m s = (Inr a, s') \<longrightarrow> P a)"

lemma op_yieldsD: "op_yields P m \<Longrightarrow> m s = (Inr a, s') \<Longrightarrow> P a"
  by (auto simp: op_yields_def)

lemma yields_return: "P a \<Longrightarrow> op_yields P (op_return a)"
  by (simp add: op_yields_def op_simps)

lemma yields_then: "op_yields Q m \<Longrightarrow> (\<And>a. Q a \<Longrightarrow> op_yields P (f a)) \<Longrightarrow> op_yields P (op_bind m f)"
  unfolding op_yields_def by (blast elim: op_bind_InrE)

lemma yields_bind: "(\<And>a. op_yields P (f a)) \<Longrightarrow> op_yields P (op_bind m f)"
  by (rule yields_then [of "\<lambda>_. True"]) (simp_all add: op_yields_def)

lemma yields_focus:
  "op_yields P m \<Longrightarrow> op_yields P (on_orders m)"
  "op_yields P m' \<Longrightarrow> op_yields P (on_payments m')"
  "op_yields P m'' \<Longrightarrow> op_yields P (on_webhooks m'')"
  by (auto simp: op_yields_def on_orders_def on_payments_def on_webhooks_def split: prod.splits)

text \<open>The order routes never answer an error with the status of success.\<close>

fun proper :: "'a http \<Rightarrow> bool" where
  "proper (Answer a) = True"
| "proper (HttpError n) = (n \<noteq> 200)"

lemma or_conflict_proper: "op_yields proper (or_conflict m)"
  by (auto simp: op_yields_def or_conflict_def split: prod.splits sum.splits if_splits)

lemma on_order_proper: "op_yields proper (on_order cur i call)"
  unfolding on_order_def
  by (intro yields_bind)
    (auto split: option.split http.split intro!: yields_return yields_bind yields_then [OF or_conflict_proper])

lemma order_route_proper: "op_yields proper (order_route ext cur c)"
  by (cases c)
    (auto simp: checked_def create_order_cases get_order_def transition_order_def complete_order_def cancel_order_def
      split: option.split intro!: on_order_proper yields_return yields_bind)

text \<open>An answer has the declared type, or it is an error with no body of the model.\<close>

definition typed_answer :: "api_call \<Rightarrow> 'h web_response \<Rightarrow> bool" where
  "typed_answer c r \<longleftrightarrow>
     (if wr_status r = 200 then \<exists>v. body_json (wr_body r) = Some v \<and> instance_of v (response_model c)
      else wr_body r = ErrorBody)"

lemma typed_error: "n \<noteq> 200 \<Longrightarrow> typed_answer c (error_response env n)"
  by (simp add: typed_answer_def error_response_def)

lemma typed_ok: "body_json b = Some v \<Longrightarrow> instance_of v (response_model c) \<Longrightarrow> typed_answer c (ok_response env b)"
  by (simp add: typed_answer_def ok_response_def)

lemma payment_bodies_typed:
  "op_yields (\<lambda>r. \<forall>ms. r = Some ms \<longrightarrow> instance_of (PDict ms) PaymentIntentResponse_model) (create_payment_intent_route ext gw q)"
  "op_yields (\<lambda>ms. instance_of (PDict ms) RefundResponse_model) (create_refund_route ext gw p a r k)"
  by (auto simp: create_payment_intent_route_def create_refund_route_def instance_of_def PaymentIntentResponse_model_def
      RefundResponse_model_def intro!: yields_return yields_bind)

lemma vat_body_typed:
  "calculate_vat today q = Inr (Some ms) \<Longrightarrow>
     instance_of (PDict (map (\<lambda>(k, v). (k, PStr v)) ms)) VatCalculationResponse_model"
  by (auto simp: calculate_vat_def res_bind_def vat_to_dict_def instance_of_def VatCalculationResponse_model_def Let_def
      split: if_splits sum.splits option.splits)

lemma route_typed: "op_yields (typed_answer c) (app_route env c rq)"
proof (cases c)
  case (OrderCall oc)
  have "proper h \<Longrightarrow> typed_answer c (http_response env h)" for h
    using OrderCall by (cases h) (simp_all add: typed_answer_def ok_response_def error_response_def order_body_typed)
  then have "op_yields (typed_answer c) (op_bind (on_orders (order_route (we_externals env) cur oc))
      (\<lambda>r. op_return (http_response env r)))" for cur
    by (intro yields_then [OF yields_focus(1) [OF order_route_proper]] yields_return)
  then show ?thesis by (simp add: OrderCall op_yields_def)
next
  case (CreateIntent q)
  show ?thesis
    unfolding CreateIntent app_route.simps
    by (intro yields_then [OF yields_focus(2) [OF payment_bodies_typed(1)]] yields_return)
      (auto simp: body_or_422_def typed_error split: option.split intro: typed_ok)
next
  case (CreateRefund b)
  show ?thesis
    unfolding CreateRefund app_route.simps
    by (intro yields_then [OF yields_focus(2) [OF payment_bodies_typed(2)]] yields_return) (auto intro: typed_ok)
next
  case (StripeWebhook p g t d)
  show ?thesis
    unfolding StripeWebhook app_route.simps
    by (auto split: option.split webhook_answer.split intro!: yields_return yields_bind typed_error typed_ok
        simp: instance_of_def WebhookEventResponse_model_def)
next
  case CatalogCapabilities
  show ?thesis
    unfolding CatalogCapabilities app_route.simps
    by (auto split: capabilities_answer.split intro!: yields_return yields_bind typed_error typed_ok
        simp: capabilities_typed)
next
  case (CalculateVat q)
  show ?thesis
    unfolding CalculateVat app_route.simps
    by (rule yields_then [of "\<lambda>r. calculate_vat (we_today env) q = Inr r"])
      (auto simp: op_yields_def op_lift_def op_return_def body_or_422_def typed_answer_def error_response_def ok_response_def
        vat_body_typed split: option.split)
next
  case HealthCheck
  show ?thesis
    unfolding HealthCheck app_route.simps
    by (intro yields_return typed_ok) (auto simp: health_check_def instance_of_def)
qed

lemma typed_headers: "typed_answer c (add_security_headers env nonce r) \<longleftrightarrow> typed_answer c r"
  by (simp add: typed_answer_def add_security_headers_def)

lemma web_serve_typed:
  assumes "web_serve env reg w s = (Inr (Downstream r), s')"
  shows "typed_answer (wq_call w) r"
proof -
  have d: "op_yields (typed_answer (wq_call w)) (security_dispatch env (wq_nonce w) (app_route env (wq_call w)) rq)" for rq
    unfolding security_dispatch_def
    by (rule yields_then [OF route_typed], rule yields_return) (simp add: typed_headers)
  have "op_yields (\<lambda>a. \<forall>r. a = Downstream r \<longrightarrow> typed_answer (wq_call w) r)
      (call_downstream (security_dispatch env (wq_nonce w) (app_route env (wq_call w))) rq)" for rq
    unfolding call_downstream_def by (rule yields_then [OF d], rule yields_return) simp
  then show ?thesis
    using assms unfolding web_serve_def dispatch_def op_yields_def
    by (auto split: if_splits sum.splits prod.splits)
qed

text \<open>A typed object is plain JSON.\<close>

lemma has_type_plain: "has_type v t \<Longrightarrow> json_plain v"
  by (induction rule: has_type.induct) (auto simp: list_all_iff)

lemma instance_plain:
  assumes "instance_of v m" "distinct (map fst m)"
  shows "json_plain v"
proof -
  obtain ms where v: "v = PDict ms" and ms: "list_all2 (\<lambda>(k, x) (k', t). k = k' \<and> has_type x t) ms m"
    using assms(1) by (auto simp: instance_of_def)
  from ms have "map fst ms = map fst m" by (induction rule: list_all2_induct) auto
  moreover from ms have "list_all (\<lambda>(k, x). json_plain x) ms"
    by (induction rule: list_all2_induct) (auto intro: has_type_plain)
  ultimately show ?thesis using v assms(2) by simp
qed

lemma response_model_fields: "distinct (map fst (response_model c))"
  by (cases c) (simp_all add: PaymentIntentResponse_model_def RefundResponse_model_def WebhookEventResponse_model_def
      OrderResponse_model_def CatalogCapabilitiesResponse_model_def VatCalculationResponse_model_def)

text \<open>C25: Every answer has the type its route declares. Whatever the request, the state of the application,
  the gateway and the registry: when a route answers, an answer with status 200 has as its body an
  object with exactly the fields of the response model of that route, in their order, each of the
  declared type, and every JSON text of that object reads back as the object; an answer with
  another status carries an error and no object of the model.\<close>

theorem web_answers_typed:
  assumes "web_serve env reg w s = (Inr (Downstream r), s')"
  shows "if wr_status r = 200
    then \<exists>v. body_json (wr_body r) = Some v \<and> instance_of v (response_model (wq_call w)) \<and>
      json_plain v \<and> (\<forall>t. json_text v t \<longrightarrow> json_loads t = read_ok v)
    else wr_body r = ErrorBody"
proof -
  have "json_text v t \<Longrightarrow> json_loads t = read_ok v" for v t using json_loads_text [of v t "[]" "[]"] by simp
  with web_serve_typed [OF assms] instance_plain [OF _ response_model_fields] show ?thesis
    by (auto simp: typed_answer_def)
qed

theorem web_answers_typed_witness:
  "\<exists>s r s'. create_app sample_settings = Inr s \<and>
     web_serve sample_web_env sample_registry (sample_web_request sample_request) s = (Inr (Downstream r), s') \<and>
     wr_status r = 200 \<and>
     (\<exists>v. body_json (wr_body r) = Some v \<and> instance_of v CatalogCapabilitiesResponse_model)"
proof -
  let ?serve = "web_serve sample_web_env sample_registry (sample_web_request sample_request)"
  have "case create_app sample_settings of Inl e \<Rightarrow> False | Inr s \<Rightarrow>
      (case ?serve s of (Inr (Downstream r), s') \<Rightarrow> wr_status r = 200 | _ \<Rightarrow> False)"
    by code_simp
  then obtain s r s' where "create_app sample_settings = Inr s" "?serve s = (Inr (Downstream r), s')" "wr_status r = 200"
    by (auto split: sum.splits prod.splits response.splits)
  moreover from web_answers_typed [OF this(2)] this(3)
  have "\<exists>v. body_json (wr_body r) = Some v \<and> instance_of v CatalogCapabilitiesResponse_model"
    by (auto simp: sample_web_request_def)
  ultimately show ?thesis by blast
qed

end
