(* ===== verification/Interleaving.thy ===== *)
theory Interleaving
  imports Web_App "HOL-Library.Multiset"
begin

text \<open>
  Concurrent requests. The application serves each request in a task of its own on one event loop:
  a task runs until it awaits, and then any other task may run. The middlewares of
  \<open>tenancy/middleware.py\<close> and \<open>api/app.py\<close> await the application below them, so a request is four
  uninterrupted pieces: the tenant middleware up to \<open>call_next\<close> (\<open>enter\<close>), the route, whose handlers
  do not await once they have the body (\<open>route\<close>), the header middleware after its \<open>call_next\<close>
  (\<open>add_headers\<close>), and the \<open>finally\<close> clause of the tenant middleware (\<open>leave\<close>). The tenant is bound in a
  context variable (\<open>tenancy/tenant.py\<close>): every task has its own binding, and the task in which the
  route runs starts with a copy of it.
\<close>

section \<open>Tasks\<close>

datatype 'h phase =
    Arrived
  | Calling
  | Routed "'h web_response result"
  | Answered "'h web_response result"
  | Ended "'h web_response response result"

record 'h task =
  tk_request :: web_request
  tk_context :: "tenant_context option"
  tk_phase :: "'h phase"

definition new_task :: "web_request \<Rightarrow> 'h task" where
  "new_task w = \<lparr>tk_request = w, tk_context = None, tk_phase = Arrived\<rparr>"

definition http_request :: "web_request \<Rightarrow> request" where
  "http_request w = (wq_request w)\<lparr>rq_path := call_path (wq_call w)\<rparr>"

definition enter :: "tenant_registry \<Rightarrow> 'h task \<Rightarrow> 'h task" where
  "enter reg t =
     (let rq = http_request (tk_request t) in
      if exempt rq then t\<lparr>tk_phase := Calling\<rparr>
      else (case resolve reg rq of
          Inl e \<Rightarrow> t\<lparr>tk_phase := Ended (if e = TenantNotFoundError then Inr (TenantRejected 400) else Inl e)\<rparr>
        | Inr context \<Rightarrow> t\<lparr>tk_context := Some context, tk_phase := Calling\<rparr>))"

definition route :: "'h web_env \<Rightarrow> 'h task \<Rightarrow> web_app \<Rightarrow> 'h task \<times> web_app" where
  "route env t a =
     (case app_route env (wq_call (tk_request t)) (http_request (tk_request t))
          \<lparr>sc_current_tenant = tk_context t, sc_app = a\<rparr> of
        (r, s) \<Rightarrow> (t\<lparr>tk_phase := Routed r\<rparr>, sc_app s))"

definition add_headers :: "'h web_env \<Rightarrow> 'h task \<Rightarrow> 'h task" where
  "add_headers env t =
     (case tk_phase t of
        Routed r \<Rightarrow> t\<lparr>tk_phase := Answered (map_sum id (add_security_headers env (wq_nonce (tk_request t))) r)\<rparr>
      | _ \<Rightarrow> t)"

definition leave :: "'h task \<Rightarrow> 'h task" where
  "leave t =
     (case tk_phase t of
        Answered r \<Rightarrow>
          t\<lparr>tk_phase := Ended (map_sum id Downstream r),
            tk_context := (if exempt (http_request (tk_request t)) then tk_context t else None)\<rparr>
      | _ \<Rightarrow> t)"

section \<open>The event loop\<close>

text \<open>A step of one task; the list in the middle holds the request when the step decides its outcome:
  its route runs, or the middleware rejects it.\<close>

inductive task_step ::
    "'h web_env \<Rightarrow> tenant_registry \<Rightarrow> 'h task \<times> web_app \<Rightarrow> web_request list \<Rightarrow> 'h task \<times> web_app \<Rightarrow> bool"
  for env reg where
  Enter: "tk_phase t = Arrived \<Longrightarrow> tk_phase (enter reg t) = Calling \<Longrightarrow> task_step env reg (t, a) [] (enter reg t, a)"
| Reject: "tk_phase t = Arrived \<Longrightarrow> tk_phase (enter reg t) \<noteq> Calling \<Longrightarrow>
    task_step env reg (t, a) [tk_request t] (enter reg t, a)"
| Route: "tk_phase t = Calling \<Longrightarrow> task_step env reg (t, a) [tk_request t] (route env t a)"
| Headers: "tk_phase t = Routed r \<Longrightarrow> task_step env reg (t, a) [] (add_headers env t, a)"
| Leave: "tk_phase t = Answered r \<Longrightarrow> task_step env reg (t, a) [] (leave t, a)"

inductive_cases task_stepE: "task_step env reg (t, a) us (t', a')"

text \<open>Requests arrive at any time and any task may take the next step; the run keeps the requests in
  the order in which their outcomes were decided.\<close>

inductive server_run ::
    "'h web_env \<Rightarrow> tenant_registry \<Rightarrow> web_app \<Rightarrow> web_request list \<Rightarrow> web_app \<Rightarrow> 'h task list \<Rightarrow> bool"
  for env reg a0 where
  Start: "server_run env reg a0 [] a0 []"
| Arrive: "server_run env reg a0 ws a ts \<Longrightarrow> server_run env reg a0 ws a (ts @ [new_task w])"
| Schedule: "server_run env reg a0 ws a ts \<Longrightarrow> i < length ts \<Longrightarrow> task_step env reg (ts ! i, a) us (t', a') \<Longrightarrow>
    server_run env reg a0 (ws @ us) a' (ts[i := t'])"

section \<open>Pieces of one request\<close>

lemma enter_request [simp]: "tk_request (enter reg t) = tk_request t"
  by (simp add: enter_def Let_def split: sum.split)

lemma pieces_request [simp]:
  "tk_request (fst (route env t a)) = tk_request t" "tk_request (add_headers env t) = tk_request t"
  "tk_request (leave t) = tk_request t"
  by (simp_all add: route_def add_headers_def leave_def split: prod.split phase.split)

text \<open>The binding a task has while its route runs.\<close>

definition context_ok :: "tenant_registry \<Rightarrow> 'h task \<Rightarrow> bool" where
  "context_ok reg t \<longleftrightarrow>
     (let rq = http_request (tk_request t) in
      if exempt rq then tk_context t = None else \<exists>c. resolve reg rq = Inr c \<and> tk_context t = Some c)"

lemma context_ok_phase [simp]: "context_ok reg (t\<lparr>tk_phase := p\<rparr>) = context_ok reg t"
  by (simp add: context_ok_def Let_def)

text \<open>The pieces put together are the sequential application.\<close>

lemma serve_pieces:
  assumes "sc_current_tenant s = None" "context_ok reg t"
  shows "fst (web_serve env reg (tk_request t) s) =
      map_sum id (Downstream \<circ> add_security_headers env (wq_nonce (tk_request t)))
        (fst (app_route env (wq_call (tk_request t)) (http_request (tk_request t))
          \<lparr>sc_current_tenant = tk_context t, sc_app = sc_app s\<rparr>))"
    and "sc_app (snd (web_serve env reg (tk_request t) s)) = snd (route env t (sc_app s))"
proof -
  let ?rq = "http_request (tk_request t)"
  let ?s = "\<lparr>sc_current_tenant = tk_context t, sc_app = sc_app s\<rparr>"
  have d: "web_serve env reg (tk_request t) s =
      dispatch reg (security_dispatch env (wq_nonce (tk_request t)) (app_route env (wq_call (tk_request t)))) ?rq s"
    by (simp add: web_serve_def http_request_def)
  have s: "exempt ?rq \<Longrightarrow> ?s = s" "\<not> exempt ?rq \<Longrightarrow> set_current_tenant (tk_context t) s = ?s"
    using assms by (simp_all add: context_ok_def set_current_tenant_def Let_def)
  obtain c where c: "\<not> exempt ?rq \<Longrightarrow> resolve reg ?rq = Inr c \<and> tk_context t = Some c"
    using assms(2) by (auto simp: context_ok_def Let_def split: if_splits)
  have run: "call_downstream (security_dispatch env n (app_route env k)) rq s' =
      (map_sum id (Downstream \<circ> add_security_headers env n) (fst (app_route env k rq s')), snd (app_route env k rq s'))" for n k rq s'
    by (simp add: call_downstream_def security_dispatch_def op_bind_apply op_return_def split: sum.split)
  have "web_serve env reg (tk_request t) s =
      (map_sum id (Downstream \<circ> add_security_headers env (wq_nonce (tk_request t)))
         (fst (app_route env (wq_call (tk_request t)) ?rq ?s)),
       (if exempt ?rq then id else set_current_tenant None) (snd (app_route env (wq_call (tk_request t)) ?rq ?s)))"
  proof (cases "exempt ?rq")
    case True
    then show ?thesis unfolding d dispatch_def run s(1) [OF True] by simp
  next
    case False
    from c [OF False] s(2) [OF False] False show ?thesis unfolding d dispatch_def by (simp add: run)
  qed
  then show "fst (web_serve env reg (tk_request t) s) =
      map_sum id (Downstream \<circ> add_security_headers env (wq_nonce (tk_request t)))
        (fst (app_route env (wq_call (tk_request t)) ?rq ?s))"
    and "sc_app (snd (web_serve env reg (tk_request t) s)) = snd (route env t (sc_app s))"
    by (simp_all add: route_def split_beta set_current_tenant_def)
qed

lemma serve_rejected:
  assumes "tk_phase t = Arrived" "tk_phase (enter reg t) \<noteq> Calling"
  shows "\<exists>out. tk_phase (enter reg t) = Ended out \<and> tk_context (enter reg t) = tk_context t \<and>
    (\<forall>s. web_serve env reg (tk_request t) s = (out, s))"
  using assms
  by (auto simp: enter_def Let_def web_serve_def dispatch_def http_request_def [symmetric] split: if_splits sum.splits)

section \<open>The invariant of a run\<close>

text \<open>The outcome of a task, as the client will get it, once it is decided.\<close>

fun outcome :: "'h web_env \<Rightarrow> 'h task \<Rightarrow> 'h web_response response result option" where
  "outcome env t =
     (case tk_phase t of
        Routed r \<Rightarrow> Some (map_sum id (Downstream \<circ> add_security_headers env (wq_nonce (tk_request t))) r)
      | Answered r \<Rightarrow> Some (map_sum id Downstream r)
      | Ended out \<Rightarrow> Some out
      | _ \<Rightarrow> None)"

text \<open>The outcome a request has when the requests before it in the list are served one after the
  other.\<close>

definition served ::
    "'h web_env \<Rightarrow> tenant_registry \<Rightarrow> web_app scope \<Rightarrow> web_request list \<Rightarrow> web_request \<Rightarrow>
     'h web_response response result \<Rightarrow> bool" where
  "served env reg s0 ws w out \<longleftrightarrow>
     (\<exists>us vs. ws = us @ w # vs \<and> fst (web_serve env reg w (fold (web_step env reg) us s0)) = out)"

definition task_inv :: "'h web_env \<Rightarrow> tenant_registry \<Rightarrow> web_app scope \<Rightarrow> web_request list \<Rightarrow> 'h task \<Rightarrow> bool" where
  "task_inv env reg s0 ws t \<longleftrightarrow>
     (\<forall>out. outcome env t = Some out \<longrightarrow> served env reg s0 ws (tk_request t) out) \<and>
     (case tk_phase t of Arrived \<Rightarrow> tk_context t = None | Ended out \<Rightarrow> tk_context t = None | _ \<Rightarrow> context_ok reg t)"

definition decided :: "'h web_env \<Rightarrow> 'h task list \<Rightarrow> web_request multiset" where
  "decided env ts = image_mset tk_request (filter_mset (\<lambda>t. outcome env t \<noteq> None) (mset ts))"

lemma served_append: "served env reg s0 ws w out \<Longrightarrow> served env reg s0 (ws @ us) w out"
  unfolding served_def by (metis append_Cons append_assoc)

lemma served_last: "fst (web_serve env reg w (fold (web_step env reg) ws s0)) = out \<Longrightarrow> served env reg s0 (ws @ [w]) w out"
  by (auto simp: served_def)

lemma task_inv_append: "task_inv env reg s0 ws t \<Longrightarrow> task_inv env reg s0 (ws @ us) t"
  by (simp add: task_inv_def served_append)

text \<open>One step of a task: the application moves as it does sequentially, the invariant is kept, and
  the request is decided exactly when it is in the list of the step.\<close>

lemma task_step_inv:
  assumes "task_step env reg (t, a) us (t', a')" "task_inv env reg s0 ws t"
    and "s = fold (web_step env reg) ws s0" "a = sc_app s" "sc_current_tenant s = None"
  shows "a' = sc_app (fold (web_step env reg) us s)" "task_inv env reg s0 (ws @ us) t'"
    "tk_request t' = tk_request t"
    "us = (if outcome env t = None \<and> outcome env t' \<noteq> None then [tk_request t] else [])"
    "outcome env t \<noteq> None \<Longrightarrow> outcome env t' = outcome env t"
proof -
  have "a' = sc_app (fold (web_step env reg) us s) \<and> task_inv env reg s0 (ws @ us) t' \<and> tk_request t' = tk_request t \<and>
    us = (if outcome env t = None \<and> outcome env t' \<noteq> None then [tk_request t] else []) \<and>
    (outcome env t \<noteq> None \<longrightarrow> outcome env t' = outcome env t)"
    using assms(1)
  proof (rule task_stepE)
    assume e: "us = []" "t' = enter reg t" "a' = a" "tk_phase t = Arrived" "tk_phase (enter reg t) = Calling"
    with assms(2) have "context_ok reg (enter reg t)"
      by (auto simp: task_inv_def enter_def context_ok_def Let_def split: if_splits sum.splits)
    with e assms show ?thesis by (simp add: task_inv_def)
  next
    assume e: "us = [tk_request t]" "t' = enter reg t" "a' = a" "tk_phase t = Arrived" "tk_phase (enter reg t) \<noteq> Calling"
    from serve_rejected [OF e(4,5), of env] obtain out where out: "tk_phase (enter reg t) = Ended out"
      "tk_context (enter reg t) = tk_context t" "\<And>s. web_serve env reg (tk_request t) s = (out, s)" by blast
    with e assms show ?thesis by (auto simp: task_inv_def web_step_def intro: served_last)
  next
    assume e: "us = [tk_request t]" "(t', a') = route env t a" "tk_phase t = Calling"
    then have c: "context_ok reg t" using assms(2) by (simp add: task_inv_def)
    note r = serve_pieces [OF assms(5) c, of env]
    from e have t': "t' = fst (route env t a)" "a' = snd (route env t a)" by (metis fst_conv snd_conv)+
    then have "context_ok reg t'" using c by (simp add: route_def split_beta)
    moreover have "outcome env t' = Some (fst (web_serve env reg (tk_request t) s))"
      using r(1) assms(4) by (simp add: t' route_def split_beta)
    moreover have "a' = sc_app (web_step env reg (tk_request t) s)" using r(2) assms(4) t' by (simp add: web_step_def)
    moreover have "\<exists>r. tk_phase t' = Routed r" by (simp add: t' route_def split_beta)
    ultimately show ?thesis using e assms t' by (auto simp: task_inv_def intro: served_last)
  next
    fix r assume e: "us = []" "t' = add_headers env t" "a' = a" "tk_phase t = Routed r"
    then have "outcome env t' = outcome env t" by (cases r) (simp_all add: add_headers_def)
    with e assms show ?thesis by (auto simp: task_inv_def add_headers_def)
  next
    fix r assume e: "us = []" "t' = leave t" "a' = a" "tk_phase t = Answered r"
    then have "outcome env t' = outcome env t" by (simp add: leave_def)
    with e assms show ?thesis by (auto simp: task_inv_def leave_def context_ok_def Let_def)
  qed
  then show "a' = sc_app (fold (web_step env reg) us s)" "task_inv env reg s0 (ws @ us) t'"
    "tk_request t' = tk_request t"
    "us = (if outcome env t = None \<and> outcome env t' \<noteq> None then [tk_request t] else [])"
    "outcome env t \<noteq> None \<Longrightarrow> outcome env t' = outcome env t" by blast+
qed

lemma web_step_unbound: "sc_current_tenant s = None \<Longrightarrow> sc_current_tenant (fold (web_step env reg) ws s) = None"
  by (induction ws arbitrary: s) (simp_all add: web_step_orders)

lemma decided_update:
  assumes "i < length ts" "tk_request t' = tk_request (ts ! i)" "outcome env (ts ! i) \<noteq> None \<Longrightarrow> outcome env t' \<noteq> None"
  shows "decided env (ts[i := t']) = decided env ts +
    mset (if outcome env (ts ! i) = None \<and> outcome env t' \<noteq> None then [tk_request (ts ! i)] else [])"
proof -
  obtain R where R: "mset ts = add_mset (ts ! i) R" using assms(1) by (metis insert_DiffM nth_mem_mset)
  with assms(1) have "mset (ts[i := t']) = add_mset t' R" by (simp add: mset_update)
  with R assms(2,3) show ?thesis by (auto simp: decided_def simp del: outcome.simps)
qed

lemma server_run_inv:
  assumes "server_run env reg a0 ws a ts" "s0 = \<lparr>sc_current_tenant = None, sc_app = a0\<rparr>"
  shows "a = sc_app (fold (web_step env reg) ws s0) \<and> list_all (task_inv env reg s0 ws) ts \<and> mset ws = decided env ts"
  using assms(1)
proof (induction rule: server_run.induct)
  case Start
  show ?case by (simp add: assms(2) decided_def)
next
  case (Arrive ws a ts w)
  then show ?case by (simp add: task_inv_def new_task_def decided_def)
next
  case (Schedule ws a ts i us t' a')
  let ?s = "fold (web_step env reg) ws s0"
  from Schedule have t: "task_inv env reg s0 ws (ts ! i)" by (simp add: list_all_length)
  have "sc_current_tenant ?s = None" by (simp add: web_step_unbound assms(2))
  note step = task_step_inv [OF Schedule.hyps(3) t refl conjunct1 [OF Schedule.IH] this]
  have "list_all (task_inv env reg s0 (ws @ us)) (ts[i := t'])"
    using Schedule.IH step(2) by (auto simp: list_all_iff dest!: set_update_subset_insert [THEN subsetD] intro: task_inv_append)
  moreover have "decided env (ts[i := t']) = decided env ts + mset us"
    using decided_update [OF Schedule.hyps(2) step(3), of env] step(4,5) by auto
  ultimately show ?case using step(1) Schedule.IH by simp
qed

section \<open>Progress\<close>

text \<open>How many steps a task has left.\<close>

fun steps_left :: "'h phase \<Rightarrow> nat" where
  "steps_left Arrived = 4"
| "steps_left Calling = 3"
| "steps_left (Routed r) = 2"
| "steps_left (Answered r) = 1"
| "steps_left (Ended out) = 0"

definition work :: "'h task list \<Rightarrow> nat" where
  "work ts = sum_list (map (steps_left \<circ> tk_phase) ts)"

lemma steps_left_0: "steps_left p = 0 \<longleftrightarrow> (\<exists>out. p = Ended out)"
  by (cases p) simp_all

lemma task_step_left: "task_step env reg (t, a) us (t', a') \<Longrightarrow> steps_left (tk_phase t') < steps_left (tk_phase t)"
proof (erule task_stepE)
  assume "t' = enter reg t" "tk_phase t = Arrived" "tk_phase (enter reg t) \<noteq> Calling"
  with serve_rejected [of t reg env] show ?thesis by fastforce
qed (auto simp: route_def add_headers_def leave_def split: prod.splits)

lemma work_update:
  assumes "i < length ts" "steps_left (tk_phase t') < steps_left (tk_phase (ts ! i))"
  shows "work (ts[i := t']) < work ts"
proof -
  have "steps_left (tk_phase (ts ! i)) \<le> work ts"
    using assms(1) elem_le_sum_list [of i "map (steps_left \<circ> tk_phase) ts"] by (simp add: work_def)
  moreover have "work (ts[i := t']) = work ts + steps_left (tk_phase t') - steps_left (tk_phase (ts ! i))"
    using assms(1) by (simp add: work_def map_update sum_list_update)
  ultimately show ?thesis using assms(2) by simp
qed

lemma task_can_step:
  assumes "steps_left (tk_phase t) \<noteq> 0"
  shows "\<exists>us t' a'. task_step env reg (t, a) us (t', a')"
proof (cases "tk_phase t")
  case Arrived
  then show ?thesis by (meson task_step.Enter task_step.Reject)
next
  case Calling
  then show ?thesis using task_step.Route [of t env reg a] by (metis surj_pair)
qed (use assms in \<open>auto intro: task_step.Headers task_step.Leave\<close>)

lemma server_settles:
  assumes "server_run env reg a0 ws a ts"
  shows "\<exists>us a' ts'. server_run env reg a0 (ws @ us) a' ts' \<and> map tk_request ts' = map tk_request ts \<and> work ts' = 0"
  using assms
proof (induction "work ts" arbitrary: ws a ts rule: less_induct)
  case less
  show ?case
  proof (cases "work ts = 0")
    case True
    with less.prems show ?thesis by (intro exI [of _ "[]"]) auto
  next
    case False
    then obtain i where i: "i < length ts" "steps_left (tk_phase (ts ! i)) \<noteq> 0"
      by (auto simp: work_def in_set_conv_nth)
    with task_can_step obtain us t' a' where step: "task_step env reg (ts ! i, a) us (t', a')" by blast
    from server_run.Schedule [OF less.prems i(1) step] less.hyps [OF work_update [OF i(1) task_step_left [OF step]]]
    obtain vs a'' ts' where "server_run env reg a0 (ws @ us @ vs) a'' ts'"
      "map tk_request ts' = map tk_request (ts[i := t'])" "work ts' = 0" by fastforce
    moreover have "map tk_request (ts[i := t']) = map tk_request ts"
    proof -
      have "tk_request t' = tk_request (ts ! i)" using step by (rule task_stepE) (auto, metis fst_conv pieces_request(1))
      with i(1) show ?thesis by (metis list_update_id map_update nth_map)
    qed
    ultimately show ?thesis by metis
  qed
qed

section \<open>Properties\<close>

text \<open>C4: Concurrent requests are served as if one after the other. However the event loop interleaves the
  tasks of any number of requests, at every moment: the application is in the state that serving
  the decided requests sequentially, in the order of their decisions, leads to; each decided
  request is in that order once; every finished task has answered what the sequential application
  answers at its place, and has no tenant bound; and the orders are those the order endpoint alone
  reaches. So a request never sees the tenant of another, and what holds of all sequences of
  requests holds of all interleavings.\<close>

theorem concurrent_requests_serialise:
  assumes "create_app environment = Inr s0" "server_run env reg (sc_app s0) ws a ts"
  shows "a = sc_app (fold (web_step env reg) ws s0) \<and> mset ws = decided env ts \<and>
    list_all (\<lambda>t. case tk_phase t of
        Ended out \<Rightarrow> tk_context t = None \<and> served env reg s0 ws (tk_request t) out
      | _ \<Rightarrow> True) ts \<and>
    orders_view \<lparr>sc_current_tenant = None, sc_app = a\<rparr> =
      fold (serve_step (we_externals env) reg) (concat (map order_request ws)) initial_scope"
proof -
  from create_app_start(1) [OF assms(1)] have s0: "s0 = \<lparr>sc_current_tenant = None, sc_app = sc_app s0\<rparr>" by simp
  from server_run_inv [OF assms(2) s0] have a: "a = sc_app (fold (web_step env reg) ws s0)"
    and ts: "list_all (task_inv env reg s0 ws) ts" and ws: "mset ws = decided env ts" by blast+
  have "orders_view \<lparr>sc_current_tenant = None, sc_app = a\<rparr> = orders_view (fold (web_step env reg) ws s0)"
    using web_step_unbound [OF create_app_start(1) [OF assms(1)], of env reg ws] by (simp add: orders_view_def a)
  moreover have "orders_view (fold (web_step env reg) ws s0) =
      fold (serve_step (we_externals env) reg) (concat (map order_request ws)) (orders_view s0)"
    by (rule orders_of_run [OF create_app_start(1) [OF assms(1)]])
  ultimately show ?thesis
    using a ws ts create_app_start(2) [OF assms(1)]
    by (auto simp: task_inv_def list_all_iff split: phase.splits)
qed

section \<open>Concrete runs\<close>

lemma two_requests_run:
  "\<exists>us a ts. server_run sample_web_env TenantRegistry a0 us a ts \<and> length us = 2"
proof -
  let ?w = "sample_web_request sample_request"
  have two: "server_run sample_web_env TenantRegistry a0 [] a0 [new_task ?w, new_task ?w]"
    using server_run.Arrive [OF server_run.Arrive [OF server_run.Start]] by fastforce
  from server_settles [OF two] server_run_inv obtain us a ts where run: "server_run sample_web_env TenantRegistry a0 us a ts"
    "map tk_request ts = [?w, ?w]" "work ts = 0" by (auto simp: new_task_def)
  from run(3) have "filter_mset (\<lambda>t. outcome sample_web_env t \<noteq> None) (mset ts) = mset ts"
    by (auto simp: filter_mset_eq_conv work_def steps_left_0)
  with server_run_inv [OF run(1) refl] run(2) have "mset us = {#?w, ?w#}" by (simp add: decided_def flip: mset_map)
  then have "length us = 2" by (metis size_mset size_add_mset size_empty numeral_2_eq_2)
  with run(1) show ?thesis by blast
qed

theorem concurrent_requests_serialise_witness:
  "\<exists>s0 us a ts. create_app sample_settings = Inr s0 \<and> server_run sample_web_env TenantRegistry (sc_app s0) us a ts \<and>
     length us = 2 \<and> a = sc_app (fold (web_step sample_web_env TenantRegistry) us s0)"
proof -
  obtain s0 where s0: "create_app sample_settings = Inr s0" using sample_app by blast
  obtain us a ts where run: "server_run sample_web_env TenantRegistry (sc_app s0) us a ts" "length us = 2"
    using two_requests_run by blast
  with concurrent_requests_serialise [OF s0 run(1)] s0 show ?thesis by blast
qed

end
