(* ===== verification/Notifications.thy ===== *)
theory Notifications
  imports Jol_Prelude "HOL-Library.Multiset"
begin

text \<open>
  Outbound notifications: the channel policy (\<open>notifications/classification.py\<close>) and the delivery
  queue with its retries and dead-letter list (\<open>notifications/notification_service.py\<close>). The
  queue is also described by a step relation, over which the life of a notification is proved.
\<close>

section \<open>Channel policy\<close>

datatype classification = PUBLIC | INTERNAL | CONFIDENTIAL | RESTRICTED

datatype channel = PWA_PUSH | SMS | WHATSAPP | EMAIL | ENCRYPTED_EMAIL

fun CHANNEL_MATRIX :: "classification \<Rightarrow> channel set" where
  "CHANNEL_MATRIX PUBLIC = {PWA_PUSH, SMS, WHATSAPP}"
| "CHANNEL_MATRIX INTERNAL = {SMS, WHATSAPP, EMAIL}"
| "CHANNEL_MATRIX CONFIDENTIAL = {ENCRYPTED_EMAIL}"
| "CHANNEL_MATRIX RESTRICTED = {ENCRYPTED_EMAIL}"

definition assert_channel_allowed :: "classification \<Rightarrow> channel \<Rightarrow> unit result" where
  "assert_channel_allowed classification channel =
     (if channel \<notin> CHANNEL_MATRIX classification then Inl ChannelNotAllowedError else Inr ())"

section \<open>Queue\<close>

definition MAX_DELIVERY_ATTEMPTS :: int where
  "MAX_DELIVERY_ATTEMPTS = 3"

record notification =
  nt_tenant_id :: string
  nt_channel :: channel
  nt_classification :: classification
  nt_notification_id :: string
  nt_recipient_ref :: string
  nt_encrypted_payload :: string
  nt_queued_at :: string
  nt_attempts :: int

record notification_queue =
  nq_pending :: "notification list"
  nq_delivered :: "notification list"
  nq_dead_letter :: "notification list"

definition NotificationQueue :: notification_queue where
  "NotificationQueue = \<lparr>nq_pending = [], nq_delivered = [], nq_dead_letter = []\<rparr>"

definition enqueue :: "notification \<Rightarrow> (notification_queue, notification) op" where
  "enqueue n =
     op_bind (op_lift (assert_channel_allowed (nt_classification n) (nt_channel n))) (\<lambda>_ q.
       if nt_classification n \<in> {CONFIDENTIAL, RESTRICTED} \<and> nt_encrypted_payload n = []
       then (Inl ValueError, q)
       else (Inr n, q\<lparr>nq_pending := nq_pending q @ [n]\<rparr>))"

text \<open>The loop over the pending list that removes the first match.\<close>

fun pop_first :: "string \<Rightarrow> notification list \<Rightarrow> (notification \<times> notification list) option" where
  "pop_first i [] = None"
| "pop_first i (n # ns) =
     (if nt_notification_id n = i then Some (n, ns)
      else (case pop_first i ns of None \<Rightarrow> None | Some (m, ms) \<Rightarrow> Some (m, n # ms)))"

definition pop_pending :: "string \<Rightarrow> (notification_queue, notification) op" where
  "pop_pending i q =
     (case pop_first i (nq_pending q) of
        None \<Rightarrow> (Inl LookupError, q)
      | Some (n, ns) \<Rightarrow> (Inr n, q\<lparr>nq_pending := ns\<rparr>))"

definition mark_delivered :: "string \<Rightarrow> (notification_queue, unit) op" where
  "mark_delivered i =
     op_bind (pop_pending i) (\<lambda>n.
     op_modify (\<lambda>q. q\<lparr>nq_delivered := nq_delivered q @ [n]\<rparr>))"

definition mark_failed :: "string \<Rightarrow> (notification_queue, notification) op" where
  "mark_failed i =
     op_bind (pop_pending i) (\<lambda>n.
     let retried = n\<lparr>nt_attempts := nt_attempts n + 1\<rparr> in
     if MAX_DELIVERY_ATTEMPTS \<le> nt_attempts retried
     then op_bind (op_modify (\<lambda>q. q\<lparr>nq_dead_letter := nq_dead_letter q @ [retried]\<rparr>)) (\<lambda>_. op_return retried)
     else op_bind (op_modify (\<lambda>q. q\<lparr>nq_pending := nq_pending q @ [retried]\<rparr>)) (\<lambda>_. op_return retried))"

definition task_payload :: "notification \<Rightarrow> (string, string) dict" where
  "task_payload n = [(''notification_id'', nt_notification_id n)]"

definition pending_count :: "notification_queue \<Rightarrow> nat" where
  "pending_count q = length (nq_pending q)"

definition dead_letter_count :: "notification_queue \<Rightarrow> nat" where
  "dead_letter_count q = length (nq_dead_letter q)"

definition delivered_count :: "notification_queue \<Rightarrow> nat" where
  "delivered_count q = length (nq_delivered q)"

section \<open>Operations in closed form\<close>

lemma pop_first_SomeD:
  "pop_first i ns = Some (n, ms) \<Longrightarrow>
     \<exists>as bs. ns = as @ n # bs \<and> ms = as @ bs \<and> nt_notification_id n = i"
proof (induction ns arbitrary: n ms)
  case (Cons x ns)
  show ?case
  proof (cases "nt_notification_id x = i")
    case True
    with Cons.prems show ?thesis by (intro exI [of _ "[]"] exI [of _ ns]) simp
  next
    case False
    with Cons.prems obtain ms' where "pop_first i ns = Some (n, ms')" "ms = x # ms'"
      by (auto split: option.splits)
    moreover from this Cons.IH obtain as bs where
      "ns = as @ n # bs" "ms' = as @ bs" "nt_notification_id n = i" by blast
    ultimately show ?thesis by (intro exI [of _ "x # as"] exI [of _ bs]) simp
  qed
qed simp

lemma pop_first_None: "pop_first i ns = None \<longleftrightarrow> list_all (\<lambda>m. nt_notification_id m \<noteq> i) ns"
  by (induction ns) (auto split: option.splits)

definition retry :: "notification \<Rightarrow> notification_queue \<Rightarrow> notification_queue" where
  "retry n q =
     (let m = n\<lparr>nt_attempts := nt_attempts n + 1\<rparr> in
      if 3 \<le> nt_attempts m then q\<lparr>nq_dead_letter := nq_dead_letter q @ [m]\<rparr>
      else q\<lparr>nq_pending := nq_pending q @ [m]\<rparr>)"

lemma mark_failed_apply:
  "mark_failed i q =
     (case pop_first i (nq_pending q) of
        None \<Rightarrow> (Inl LookupError, q)
      | Some (n, ns) \<Rightarrow> (Inr (n\<lparr>nt_attempts := nt_attempts n + 1\<rparr>), retry n (q\<lparr>nq_pending := ns\<rparr>)))"
  by (simp add: mark_failed_def pop_pending_def retry_def MAX_DELIVERY_ATTEMPTS_def op_bind_apply op_simps Let_def
      split: option.split)

lemma mark_delivered_apply:
  "mark_delivered i q =
     (case pop_first i (nq_pending q) of
        None \<Rightarrow> (Inl LookupError, q)
      | Some (n, ns) \<Rightarrow> (Inr (), q\<lparr>nq_pending := ns, nq_delivered := nq_delivered q @ [n]\<rparr>))"
  by (simp add: mark_delivered_def pop_pending_def op_bind_apply op_simps split: option.split)

definition admissible :: "notification \<Rightarrow> bool" where
  "admissible n \<longleftrightarrow>
     nt_channel n \<in> CHANNEL_MATRIX (nt_classification n) \<and>
     (nt_classification n \<in> {CONFIDENTIAL, RESTRICTED} \<longrightarrow> nt_encrypted_payload n \<noteq> [])"

lemma enqueue_apply:
  "enqueue n q =
     (if admissible n then (Inr n, q\<lparr>nq_pending := nq_pending q @ [n]\<rparr>)
      else (Inl (if nt_channel n \<in> CHANNEL_MATRIX (nt_classification n) then ValueError
                 else ChannelNotAllowedError), q))"
  by (auto simp: enqueue_def admissible_def assert_channel_allowed_def op_bind_apply op_simps)

section \<open>The queue as a step relation\<close>

inductive queue_step :: "notification_queue \<Rightarrow> notification_queue \<Rightarrow> bool" where
  Enqueue: "admissible n \<Longrightarrow> queue_step q (q\<lparr>nq_pending := nq_pending q @ [n]\<rparr>)"
| Deliver: "nq_pending q = as @ n # bs \<Longrightarrow>
    queue_step q (q\<lparr>nq_pending := as @ bs, nq_delivered := nq_delivered q @ [n]\<rparr>)"
| Fail: "nq_pending q = as @ n # bs \<Longrightarrow> queue_step q (retry n (q\<lparr>nq_pending := as @ bs\<rparr>))"

inductive_cases queue_stepE: "queue_step q q'"

datatype queue_call = Enq notification | MarkDelivered string | MarkFailed string

fun queue_call_step :: "queue_call \<Rightarrow> notification_queue \<Rightarrow> notification_queue" where
  "queue_call_step (Enq n) q = snd (enqueue n q)"
| "queue_call_step (MarkDelivered i) q = snd (mark_delivered i q)"
| "queue_call_step (MarkFailed i) q = snd (mark_failed i q)"

text \<open>Every call is a step or changes nothing.\<close>

lemma queue_call_refines: "queue_call_step c q = q \<or> queue_step q (queue_call_step c q)"
proof (cases c)
  case (Enq n)
  then show ?thesis by (simp add: enqueue_apply queue_step.Enqueue)
next
  case (MarkDelivered i)
  then show ?thesis
    by (auto simp: mark_delivered_apply dest!: pop_first_SomeD intro!: queue_step.Deliver split: option.split)
next
  case (MarkFailed i)
  then show ?thesis
    by (auto simp: mark_failed_apply dest!: pop_first_SomeD intro!: queue_step.Fail split: option.split)
qed

section \<open>What every step keeps\<close>

definition all_items :: "notification_queue \<Rightarrow> notification list" where
  "all_items q = nq_pending q @ nq_delivered q @ nq_dead_letter q"

definition queue_ok :: "notification_queue \<Rightarrow> bool" where
  "queue_ok q \<longleftrightarrow> list_all admissible (all_items q) \<and> list_all (\<lambda>n. 3 \<le> nt_attempts n) (nq_dead_letter q)"

lemma admissible_attempts [simp]: "admissible (n\<lparr>nt_attempts := a\<rparr>) \<longleftrightarrow> admissible n"
  by (simp add: admissible_def)

lemma queue_step_ok: "queue_step q q' \<Longrightarrow> queue_ok q \<Longrightarrow> queue_ok q'"
  by (induction rule: queue_step.induct) (auto simp: queue_ok_def all_items_def retry_def Let_def)

text \<open>Steps forget neither notifications nor where they were settled.\<close>

definition settled_grows :: "notification_queue \<Rightarrow> notification_queue \<Rightarrow> bool" where
  "settled_grows q q' \<longleftrightarrow>
     (\<exists>ds es. nq_delivered q' = nq_delivered q @ ds \<and> nq_dead_letter q' = nq_dead_letter q @ es)"

lemma queue_step_grows: "queue_step q q' \<Longrightarrow> settled_grows q q'"
  by (induction rule: queue_step.induct) (auto simp: settled_grows_def retry_def Let_def)

lemma settled_grows_refl [simp]: "settled_grows q q"
  by (simp add: settled_grows_def)

interpretation queue: inv_machine queue_call_step queue_ok settled_grows
proof
  show "queue_ok q \<Longrightarrow> queue_ok (queue_call_step c q)" for c q
    using queue_call_refines [of c q] queue_step_ok by metis
  show "settled_grows q (queue_call_step c q)" for c q
    using queue_call_refines [of c q] queue_step_grows by (metis settled_grows_refl)
  show "settled_grows q q' \<Longrightarrow> settled_grows q' q'' \<Longrightarrow> settled_grows q q''" for q q' q''
    by (auto simp: settled_grows_def)
qed simp

text \<open>Identities: a notification without its attempt counter.\<close>

definition ident :: "notification \<Rightarrow> notification" where
  "ident n = n\<lparr>nt_attempts := 0\<rparr>"

definition idents :: "notification_queue \<Rightarrow> notification multiset" where
  "idents q = mset (map ident (all_items q))"

lemma ident_attempts [simp]: "ident (n\<lparr>nt_attempts := a\<rparr>) = ident n"
  by (simp add: ident_def)

fun accepted :: "queue_call \<Rightarrow> notification list" where
  "accepted (Enq n) = (if admissible n then [n] else [])"
| "accepted _ = []"

lemma idents_call: "idents (queue_call_step c q) = idents q + mset (map ident (accepted c))"
proof (cases c)
  case (Enq n)
  then show ?thesis by (simp add: enqueue_apply idents_def all_items_def)
next
  case (MarkDelivered i)
  then show ?thesis
    by (auto simp: mark_delivered_apply idents_def all_items_def dest!: pop_first_SomeD split: option.split)
next
  case (MarkFailed i)
  then show ?thesis
    by (auto simp: mark_failed_apply idents_def all_items_def retry_def Let_def dest!: pop_first_SomeD
        split: option.split)
qed

lemma idents_run: "idents (fold queue_call_step cs q) = idents q + mset (map ident (concat (map accepted cs)))"
  by (induction cs arbitrary: q) (simp_all add: idents_call add_ac)

text \<open>How many more delivery reports a queue can take.\<close>

definition reports_left :: "notification list \<Rightarrow> nat" where
  "reports_left ns = sum_list (map (\<lambda>n. nat (max 1 (3 - nt_attempts n))) ns)"

inductive report :: "notification_queue \<Rightarrow> notification_queue \<Rightarrow> bool" where
  Delivered: "mark_delivered i q = (Inr (), q') \<Longrightarrow> report q q'"
| Failed: "mark_failed i q = (Inr n, q') \<Longrightarrow> report q q'"

inductive_cases reportE: "report q q'"

lemma report_decreases: "report q q' \<Longrightarrow> reports_left (nq_pending q') < reports_left (nq_pending q)"
proof (induction rule: report.induct)
  case (Delivered i q q')
  then show ?case
    by (auto simp: mark_delivered_apply reports_left_def dest!: pop_first_SomeD split: option.splits)
next
  case (Failed i q n q')
  then show ?case
    by (auto simp: mark_failed_apply reports_left_def retry_def Let_def max_def dest!: pop_first_SomeD
        split: option.splits if_splits)
qed

section \<open>Properties\<close>

text \<open>Notification policy and bookkeeping. After any sequence of calls on a new queue, every
  notification it holds, pending, delivered or dead, travels on a channel its classification
  allows, and confidential and restricted ones carry an encrypted payload, so none of them is on
  push, SMS, WhatsApp or plain email; the dead-letter list holds only notifications that failed
  at least three times; and the notifications held are exactly those the queue accepted, none
  lost and none duplicated.\<close>

theorem notification_policy:
  assumes "q = fold queue_call_step calls NotificationQueue"
  shows "list_all (\<lambda>n. nt_channel n \<in> CHANNEL_MATRIX (nt_classification n) \<and>
      (nt_classification n \<notin> {CONFIDENTIAL, RESTRICTED} \<or>
       nt_channel n = ENCRYPTED_EMAIL \<and> nt_encrypted_payload n \<noteq> []))
      (nq_pending q @ nq_delivered q @ nq_dead_letter q) \<and>
    list_all (\<lambda>n. 3 \<le> nt_attempts n) (nq_dead_letter q) \<and>
    mset (map ident (nq_pending q @ nq_delivered q @ nq_dead_letter q)) =
      mset (map ident (concat (map accepted calls)))"
proof -
  have "queue_ok q"
    unfolding assms by (rule queue.inv_run) (simp add: queue_ok_def all_items_def NotificationQueue_def)
  moreover have "idents q = mset (map ident (concat (map accepted calls)))"
    unfolding assms idents_run by (simp add: idents_def all_items_def NotificationQueue_def)
  ultimately show ?thesis
    by (auto simp: queue_ok_def all_items_def idents_def admissible_def list_all_iff)
qed

definition sample_notification :: "channel \<Rightarrow> classification \<Rightarrow> string \<Rightarrow> notification" where
  "sample_notification ch cl payload =
     \<lparr>nt_tenant_id = ''t'', nt_channel = ch, nt_classification = cl, nt_notification_id = ''n1'',
      nt_recipient_ref = [], nt_encrypted_payload = payload, nt_queued_at = ''now'', nt_attempts = 0\<rparr>"

theorem notification_policy_witness:
  "let q = fold queue_call_step [Enq (sample_notification SMS RESTRICTED ''x''),
       Enq (sample_notification ENCRYPTED_EMAIL RESTRICTED ''x''), MarkFailed ''n1''] NotificationQueue in
   length (nq_pending q @ nq_delivered q @ nq_dead_letter q) = 1"
proof -
  let ?cs = "[Enq (sample_notification SMS RESTRICTED ''x''),
       Enq (sample_notification ENCRYPTED_EMAIL RESTRICTED ''x''), MarkFailed ''n1'']"
  let ?q = "fold queue_call_step ?cs NotificationQueue"
  have "mset (map ident (nq_pending ?q @ nq_delivered ?q @ nq_dead_letter ?q)) =
      mset (map ident (concat (map accepted ?cs)))"
    using notification_policy [OF refl, of ?cs] by blast
  from arg_cong [OF this, of size]
  have "length (nq_pending ?q @ nq_delivered ?q @ nq_dead_letter ?q) = length (concat (map accepted ?cs))"
    by simp
  then show ?thesis by (simp add: Let_def admissible_def sample_notification_def)
qed

lemma reports_bound:
  "(report ^^ k) q q' \<Longrightarrow> k + reports_left (nq_pending q') \<le> reports_left (nq_pending q)"
proof (induction k arbitrary: q')
  case (Suc k)
  then obtain r where "(report ^^ k) q r" "report r q'" by auto
  with Suc.IH [of r] report_decreases [of r q'] show ?case by simp
qed simp

lemma mark_head: "nq_pending q = n # ns \<Longrightarrow>
    mark_failed (nt_notification_id n) q =
      (Inr (n\<lparr>nt_attempts := nt_attempts n + 1\<rparr>), retry n (q\<lparr>nq_pending := ns\<rparr>))"
  by (simp add: mark_failed_apply)

text \<open>C16: Delivery settles. Of a queue whose pending notifications are new, at most three delivery
  reports per notification are accepted, in any order and with any outcome; as long as something
  is pending a further report is accepted; and every accepted report moves the queue along a
  well-founded order, so reporting comes to an end with nothing pending.\<close>

theorem delivery_settles:
  assumes "list_all (\<lambda>n. nt_attempts n = 0) (nq_pending q)" "(report ^^ k) q q'"
  shows "k \<le> 3 * pending_count q \<and> (nq_pending q' = [] \<or> (\<exists>q''. report q' q'')) \<and>
    wfp (\<lambda>later earlier. report earlier later)"
proof -
  have "reports_left ns = 3 * length ns" if "list_all (\<lambda>n. nt_attempts n = 0) ns" for ns
    using that by (induction ns) (simp_all add: reports_left_def)
  with assms(1) reports_bound [OF assms(2)] have "k \<le> 3 * pending_count q"
    by (simp add: pending_count_def)
  moreover have "nq_pending q' = [] \<or> (\<exists>q''. report q' q'')"
    by (cases "nq_pending q'") (auto dest: mark_head intro: report.Failed)
  moreover have "wfp (\<lambda>later earlier. report earlier later)"
    by (rule wfp_if_convertible_to_nat [of _ "\<lambda>q. reports_left (nq_pending q)"]) (rule report_decreases)
  ultimately show ?thesis by blast
qed

definition sample_queue :: notification_queue where
  "sample_queue = snd (enqueue (sample_notification SMS PUBLIC []) NotificationQueue)"

theorem delivery_settles_witness:
  "\<exists>q'. report sample_queue q' \<and> (1::nat) \<le> 3 * pending_count sample_queue"
proof -
  have new: "list_all (\<lambda>n. nt_attempts n = 0) (nq_pending sample_queue)" by code_simp
  obtain n q' where "mark_failed ''n1'' sample_queue = (Inr n, q')"
    by (simp add: sample_queue_def enqueue_apply admissible_def sample_notification_def NotificationQueue_def
        mark_failed_apply)
  then have r: "report sample_queue q'" by (rule report.Failed)
  with delivery_settles [OF new, of 1 q'] show ?thesis by auto
qed

text \<open>Three failures. A new notification whose identifier is unique among the pending ones is
  put back at the end of the queue after its first and its second failure and moved to the
  dead-letter list, with three attempts counted, after its third; the other notifications stay in
  place and order, and a further report for it raises LookupError.\<close>

theorem three_failures:
  assumes "nq_pending q = as @ n # bs" "nt_attempts n = 0"
    and "nt_notification_id n \<notin> nt_notification_id ` set (as @ bs)"
  shows "let fail = (\<lambda>q. snd (mark_failed (nt_notification_id n) q)) in
    fail (fail q) = q\<lparr>nq_pending := as @ bs @ [n\<lparr>nt_attempts := 2\<rparr>]\<rparr> \<and>
    fail (fail (fail q)) =
      q\<lparr>nq_pending := as @ bs, nq_dead_letter := nq_dead_letter q @ [n\<lparr>nt_attempts := 3\<rparr>]\<rparr> \<and>
    mark_failed (nt_notification_id n) (fail (fail (fail q))) = (Inl LookupError, fail (fail (fail q)))"
proof -
  let ?i = "nt_notification_id n"
  have pop: "pop_first ?i (xs @ m # ys) = Some (m, xs @ ys)"
    if "nt_notification_id m = ?i" "?i \<notin> nt_notification_id ` set xs" for xs m ys
    using that by (induction xs) auto
  have none: "pop_first ?i (as @ bs) = None"
    using assms(3) unfolding pop_first_None list_all_iff by (metis image_eqI)
  have step: "snd (mark_failed ?i p) = retry m (p\<lparr>nq_pending := xs @ ys\<rparr>)"
    if "nq_pending p = xs @ m # ys" "nt_notification_id m = ?i" "?i \<notin> nt_notification_id ` set xs" for p xs m ys
    using that by (simp add: mark_failed_apply pop)
  let ?q1 = "q\<lparr>nq_pending := (as @ bs) @ [n\<lparr>nt_attempts := 1\<rparr>]\<rparr>"
  let ?q2 = "q\<lparr>nq_pending := (as @ bs) @ [n\<lparr>nt_attempts := 2\<rparr>]\<rparr>"
  let ?q3 = "q\<lparr>nq_pending := as @ bs, nq_dead_letter := nq_dead_letter q @ [n\<lparr>nt_attempts := 3\<rparr>]\<rparr>"
  have 1: "snd (mark_failed ?i q) = ?q1"
    using step [OF assms(1) refl] assms(2,3) by (simp add: retry_def image_Un)
  have 2: "snd (mark_failed ?i ?q1) = ?q2"
    using step [of ?q1 "as @ bs" "n\<lparr>nt_attempts := 1\<rparr>" "[]"] assms(3) by (simp add: retry_def)
  have 3: "snd (mark_failed ?i ?q2) = ?q3"
    using step [of ?q2 "as @ bs" "n\<lparr>nt_attempts := 2\<rparr>" "[]"] assms(3) by (simp add: retry_def)
  have 4: "mark_failed ?i ?q3 = (Inl LookupError, ?q3)"
    by (simp add: mark_failed_apply none)
  show ?thesis unfolding Let_def 1 2 3 4 by simp
qed

theorem three_failures_witness:
  "let fail = (\<lambda>q. snd (mark_failed ''n1'' q)) in
   nq_pending (fail (fail (fail sample_queue))) = [] \<and> dead_letter_count (fail (fail (fail sample_queue))) = 1"
proof -
  let ?n = "sample_notification SMS PUBLIC []"
  have q: "nq_pending sample_queue = [] @ ?n # []" "nq_dead_letter sample_queue = []" by code_simp+
  have n: "nt_attempts ?n = 0" "nt_notification_id ?n \<notin> nt_notification_id ` set ([] @ [])"
    and i: "nt_notification_id ?n = ''n1''"
    by (simp_all add: sample_notification_def)
  have "snd (mark_failed ''n1'' (snd (mark_failed ''n1'' (snd (mark_failed ''n1'' sample_queue))))) =
      sample_queue\<lparr>nq_pending := [], nq_dead_letter := [?n\<lparr>nt_attempts := 3\<rparr>]\<rparr>"
    using three_failures [OF q(1) n] unfolding Let_def q(2) append_Nil i by blast
  then show ?thesis by (simp add: Let_def dead_letter_count_def)
qed

end
