(* ===== verification/Py_Regex.thy ===== *)
theory Py_Regex
  imports Py_Text
begin

text \<open>
  The part of \<open>re\<close> that the program uses: patterns that are sequences of word boundaries \<open>\b\<close> and
  greedy repetitions of a character class. Matching backtracks as the library does: a repetition
  takes as many characters as it can and gives them back one by one. \<open>search\<close> and \<open>sub\<close> go from
  left to right; a match of the patterns used here is never empty.
\<close>

section \<open>Matching\<close>

datatype rx_item = WordBoundary | Repeat "char \<Rightarrow> bool" nat "nat option"

definition prev_word :: "char option \<Rightarrow> bool" where
  "prev_word p = (case p of None \<Rightarrow> False | Some c \<Rightarrow> is_word c)"

definition next_word :: "string \<Rightarrow> bool" where
  "next_word s = (case s of [] \<Rightarrow> False | c # _ \<Rightarrow> is_word c)"

definition is_boundary :: "char option \<Rightarrow> string \<Rightarrow> bool" where
  "is_boundary p s \<longleftrightarrow> prev_word p \<noteq> next_word s"

text \<open>The length of the match at the start of the text, given the character before it.\<close>

function rx_match :: "char option \<Rightarrow> rx_item list \<Rightarrow> string \<Rightarrow> nat option" where
  "rx_match p [] s = Some 0"
| "rx_match p (WordBoundary # r) s = (if is_boundary p s then rx_match p r s else None)"
| "rx_match p (Repeat c lo hi # r) [] = (if lo = 0 then rx_match p r [] else None)"
| "rx_match p (Repeat c lo hi # r) (x # s) =
     (if hi \<noteq> Some 0 \<and> c x then
        (case rx_match (Some x) (Repeat c (lo - 1) (map_option (\<lambda>h. h - 1) hi) # r) s of
           Some n \<Rightarrow> Some (Suc n)
         | None \<Rightarrow> if lo = 0 then rx_match p r (x # s) else None)
      else if lo = 0 then rx_match p r (x # s) else None)"
  by pat_completeness auto
termination
  by (relation "measures [\<lambda>(p, r, s). length s, \<lambda>(p, r, s). length r]") auto

fun rx_search :: "rx_item list \<Rightarrow> char option \<Rightarrow> string \<Rightarrow> bool" where
  "rx_search r p s =
     (rx_match p r s \<noteq> None \<or> (case s of [] \<Rightarrow> False | x # t \<Rightarrow> rx_search r (Some x) t))"

declare rx_search.simps [simp del]

definition rx_fullmatch :: "(char \<Rightarrow> bool) \<Rightarrow> nat \<Rightarrow> nat \<Rightarrow> string \<Rightarrow> bool" where
  "rx_fullmatch c lo hi s \<longleftrightarrow> lo \<le> length s \<and> length s \<le> hi \<and> list_all c s"

function rx_sub :: "rx_item list \<Rightarrow> string \<Rightarrow> char option \<Rightarrow> string \<Rightarrow> string" where
  "rx_sub r new p [] = []"
| "rx_sub r new p (x # s) =
     (case rx_match p r (x # s) of
        Some (Suc n) \<Rightarrow> new @ rx_sub r new (Some ((x # s) ! n)) (drop n s)
      | _ \<Rightarrow> x # rx_sub r new (Some x) s)"
  by pat_completeness auto
termination
  by (relation "measure (\<lambda>(r, new, p, s). length s)") auto

section \<open>What a match is\<close>

definition char_before :: "char option \<Rightarrow> string \<Rightarrow> nat \<Rightarrow> char option" where
  "char_before p s n = (if n = 0 then p else Some (s ! (n - 1)))"

lemma char_before_Suc: "char_before p (x # s) (Suc n) = char_before (Some x) s n"
  by (cases n) (simp_all add: char_before_def)

lemma rx_match_length: "rx_match p r s = Some n \<Longrightarrow> n \<le> length s"
  by (induction p r s arbitrary: n rule: rx_match.induct) (auto split: if_splits option.splits)

text \<open>A pattern that ends with a word boundary ends its matches at one.\<close>

lemma rx_match_end:
  "rx_match p r s = Some n \<Longrightarrow> r \<noteq> [] \<Longrightarrow> last r = WordBoundary \<Longrightarrow>
     is_boundary (char_before p s n) (drop n s)"
proof (induction p r s arbitrary: n rule: rx_match.induct)
  case (2 p r s)
  then show ?case by (cases r) (auto simp: char_before_def split: if_splits)
next
  case (3 p c lo hi r)
  then show ?case by (cases r) (auto split: if_splits)
next
  case (4 p c lo hi r x s)
  have "r \<noteq> []" "last r = WordBoundary" using "4.prems"(3) by (auto split: if_splits)
  with 4 show ?case by (auto simp: char_before_Suc split: if_splits option.splits)
qed simp

text \<open>A match of a repetition: some number of characters of the class, then the rest.\<close>

lemma rx_match_Repeat:
  "rx_match p (Repeat c lo hi # r) s = Some n \<Longrightarrow>
     \<exists>k. k \<le> n \<and> lo \<le> k \<and> (case hi of None \<Rightarrow> True | Some h \<Rightarrow> k \<le> h) \<and> list_all c (take k s) \<and>
       rx_match (char_before p s k) r (drop k s) = Some (n - k)"
proof (induction s arbitrary: p lo hi n)
  case Nil
  then show ?case by (auto simp: char_before_def split: if_splits option.split)
next
  case (Cons x s)
  show ?case
  proof (cases "rx_match p r (x # s) = Some n \<and> lo = 0")
    case True
    then show ?thesis by (intro exI [of _ 0]) (auto simp: char_before_def split: option.split)
  next
    case False
    with Cons.prems obtain m where h: "hi \<noteq> Some 0" "c x" "n = Suc m"
      "rx_match (Some x) (Repeat c (lo - 1) (map_option (\<lambda>h. h - 1) hi) # r) s = Some m"
      by (auto split: if_splits option.splits)
    from Cons.IH [OF h(4)] obtain k where k: "k \<le> m" "lo - 1 \<le> k"
      "case map_option (\<lambda>h. h - 1) hi of None \<Rightarrow> True | Some h \<Rightarrow> k \<le> h" "list_all c (take k s)"
      "rx_match (char_before (Some x) s k) r (drop k s) = Some (m - k)" by blast
    from k(3) h(1) have "case hi of None \<Rightarrow> True | Some h \<Rightarrow> Suc k \<le> h"
      by (auto split: option.splits)
    with k h show ?thesis by (intro exI [of _ "Suc k"]) (auto simp: char_before_Suc)
  qed
qed

text \<open>A repetition over a text it can take as a whole takes the whole, if the rest then matches.\<close>

lemma rx_match_greedy:
  assumes "list_all c d" "lo \<le> length d" "case hi of None \<Rightarrow> True | Some h \<Rightarrow> length d \<le> h"
    and "s = [] \<or> \<not> c (hd s)" "rx_match (char_before p (d @ s) (length d)) r s = Some n"
  shows "rx_match p (Repeat c lo hi # r) (d @ s) = Some (length d + n)"
  using assms
proof (induction d arbitrary: p lo hi)
  case Nil
  then show ?case by (cases s) (auto simp: char_before_def)
next
  case (Cons x d)
  from Cons.prems have "rx_match (Some x) (Repeat c (lo - 1) (map_option (\<lambda>h. h - 1) hi) # r) (d @ s) =
      Some (length d + n)"
    by (intro Cons.IH) (auto simp: char_before_Suc split: option.splits)
  with Cons.prems show ?case by (auto split: option.splits)
qed

section \<open>Words of a text\<close>

text \<open>The maximal runs of word characters, empty ones between non-word characters included.\<close>

fun runs :: "string \<Rightarrow> string list" where
  "runs [] = [[]]"
| "runs (x # s) = (if is_word x then (x # hd (runs s)) # tl (runs s) else [] # runs s)"

lemma runs_nonempty [simp]: "runs s \<noteq> []"
  by (cases s) auto

lemma runs_append:
  "runs (a @ b) = butlast (runs a) @ (last (runs a) @ hd (runs b)) # tl (runs b)"
proof (induction a)
  case (Cons x a)
  then show ?case by (cases "runs a") auto
qed simp

lemma hd_runs: "hd (runs s) = takeWhile is_word s"
  by (induction s) auto

lemma last_runs_Nil: "a \<noteq> [] \<Longrightarrow> \<not> is_word (last a) \<Longrightarrow> last (runs a) = []"
proof (induction a rule: rev_induct)
  case (snoc x a)
  then show ?case by (simp add: runs_append)
qed simp

lemma hd_runs_Nil: "\<not> next_word s \<Longrightarrow> hd (runs s) = []"
  by (cases s) (auto simp: next_word_def)

lemma runs_word: "list_all is_word w \<Longrightarrow> runs w = [w]"
  by (induction w) auto

text \<open>Text between brackets is cut off from what surrounds it.\<close>

definition bracketed :: "string \<Rightarrow> bool" where
  "bracketed s \<longleftrightarrow> (\<exists>w. list_all is_word w \<and> s = ''['' @ w @ '']'')"

lemma runs_bracketed: "bracketed s \<Longrightarrow> \<exists>w. list_all is_word w \<and> s = ''['' @ w @ '']'' \<and> runs (s @ t) = [] # w # runs t"
proof -
  assume "bracketed s"
  then obtain w where w: "list_all is_word w" "s = ''['' @ w @ '']''" by (auto simp: bracketed_def)
  have br: "\<not> is_word CHR ''[''" "\<not> is_word CHR '']''" by (simp_all add: char_class_defs)
  have "runs (w @ '']'' @ t) = w # runs t"
    using br runs_append [of w "'']'' @ t"] w(1) by (simp add: runs_word)
  with w br show ?thesis by auto
qed

section \<open>Substitution of whole words\<close>

text \<open>A pattern whose matches are not empty and begin and end at word boundaries, and a bracketed
  replacement: what lies outside the matches keeps its words.\<close>

locale word_sub =
  fixes pat :: "rx_item list" and new :: string
  assumes starts: "rx_match p pat s = Some n \<Longrightarrow> is_boundary p s"
    and ends: "rx_match p pat s = Some n \<Longrightarrow> is_boundary (char_before p s n) (drop n s)"
    and nonempty: "rx_match p pat s = Some n \<Longrightarrow> 0 < n"
    and new_bracketed: "bracketed new"
begin

lemma sub_cases:
  obtains (match) n where "rx_match p pat (x # s) = Some (Suc n)" "n \<le> length s"
      "is_boundary p (x # s)" "is_boundary (Some ((x # s) ! n)) (drop n s)"
      "rx_sub pat new p (x # s) = new @ rx_sub pat new (Some ((x # s) ! n)) (drop n s)"
  | (skip) "rx_match p pat (x # s) = None" "rx_sub pat new p (x # s) = x # rx_sub pat new (Some x) s"
proof (cases "rx_match p pat (x # s)")
  case None
  then show ?thesis by (intro skip) simp_all
next
  case (Some m)
  with nonempty [OF Some] obtain n where n: "m = Suc n" by (cases m) auto
  show ?thesis
    using Some starts [OF Some] ends [OF Some] rx_match_length [OF Some] n
    by (intro match [of n]) (simp_all add: char_before_def)
qed

text \<open>The first word of the result: the one the text had, unless a match starts here.\<close>

lemma sub_head:
  "hd (runs (rx_sub pat new p s)) = hd (runs s) \<or>
     \<not> prev_word p \<and> hd (runs (rx_sub pat new p s)) = []"
proof (induction "length s" arbitrary: p s rule: less_induct)
  case less
  show ?case
  proof (cases s)
    case (Cons x t)
    show ?thesis
    proof (cases rule: sub_cases [of p x t])
      case (match n)
      from runs_bracketed [OF new_bracketed] have "hd (runs (rx_sub pat new p s)) = []"
        unfolding Cons match(5) by (metis list.sel(1))
      moreover have "prev_word p \<Longrightarrow> hd (runs s) = []"
        using match(3) Cons by (intro hd_runs_Nil) (simp add: is_boundary_def)
      ultimately show ?thesis by auto
    next
      case skip
      have "hd (runs (rx_sub pat new (Some x) t)) = hd (runs t)" if "is_word x"
        using less [of t "Some x"] that Cons by (auto simp: prev_word_def)
      with Cons skip show ?thesis by auto
    qed
  qed simp
qed

text \<open>A word of the result, after the first, is the replacement's or one of the text.\<close>

lemma sub_tail:
  assumes "w \<in> set (tl (runs (rx_sub pat new p s)))" "w \<noteq> []"
  shows "w \<in> set (tl (runs s)) \<or> ''['' @ w @ '']'' = new"
  using assms(1)
proof (induction "length s" arbitrary: p s rule: less_induct)
  case less
  show ?case
  proof (cases s)
    case Nil
    with less.prems show ?thesis by simp
  next
    case (Cons x t)
    show ?thesis
    proof (cases rule: sub_cases [of p x t])
      case (match n)
      let ?rest = "drop n t" and ?q = "Some ((x # t) ! n)" and ?m = "take (Suc n) (x # t)"
      from runs_bracketed [OF new_bracketed, of "rx_sub pat new ?q ?rest"] obtain v where
        v': "new = ''['' @ v @ '']''" "runs (new @ rx_sub pat new ?q ?rest) = [] # v # runs (rx_sub pat new ?q ?rest)"
        by (elim exE conjE)
      then have v: "new = ''['' @ v @ '']''" "runs (rx_sub pat new p s) = [] # v # runs (rx_sub pat new ?q ?rest)"
        unfolding Cons match(5) by simp_all
      have "?m = take n (x # t) @ [(x # t) ! n]"
        using match(2) by (intro take_Suc_conv_app_nth) simp
      then have lm: "last ?m = (x # t) ! n" by (metis last_snoc)
      have s: "s = ?m @ ?rest" and m: "?m \<noteq> []" using Cons by simp_all
      have rest: "u \<in> set (tl (runs s))" if "u \<in> set (runs ?rest)" "u \<noteq> []" for u
      proof (cases "u \<in> set (tl (runs ?rest))")
        case True
        then show ?thesis by (subst s, subst runs_append) (cases "butlast (runs ?m)", auto)
      next
        case False
        with that have u: "u = hd (runs ?rest)" by (cases "runs ?rest") auto
        with that have "next_word ?rest" using hd_runs_Nil by auto
        with match(4) have nw: "\<not> is_word (last ?m)" unfolding lm by (simp add: is_boundary_def prev_word_def)
        then have "last (runs ?m) = []" using m by (intro last_runs_Nil)
        moreover have "butlast (runs ?m) \<noteq> []"
        proof
          assume "butlast (runs ?m) = []"
          with \<open>last (runs ?m) = []\<close> have "runs ?m = [[]]"
            by (metis append_Nil append_butlast_last_id runs_nonempty)
          then show False using nw m by (cases ?m) (auto split: if_splits)
        qed
        ultimately show ?thesis
          using u by (subst s, subst runs_append) (cases "butlast (runs ?m)", auto)
      qed
      from less.prems v consider "w = v" | "w = hd (runs (rx_sub pat new ?q ?rest))"
        | "w \<in> set (tl (runs (rx_sub pat new ?q ?rest)))"
        by (cases "runs (rx_sub pat new ?q ?rest)") auto
      then show ?thesis
      proof cases
        case 1
        with v show ?thesis by simp
      next
        case 2
        with assms(2) sub_head [of ?q ?rest] have "w = hd (runs ?rest)" by auto
        with rest assms(2) show ?thesis by simp
      next
        case 3
        have "length ?rest < length s" using Cons by simp
        from less.hyps [OF this 3] rest assms(2) show ?thesis by (auto dest: list.set_sel(2) [OF runs_nonempty])
      qed
    next
      case skip
      let ?o = "rx_sub pat new (Some x) t"
      have len: "length t < length s" using Cons by simp
      show ?thesis
      proof (cases "is_word x")
        case True
        with less.hyps [OF len, of "Some x"] less.prems Cons skip show ?thesis by auto
      next
        case False
        with less.prems Cons skip consider "w = hd (runs ?o)" | "w \<in> set (tl (runs ?o))"
          by (cases "runs ?o") auto
        then show ?thesis
        proof cases
          case 1
          with assms(2) sub_head [of "Some x" t] have "w = hd (runs t)" by auto
          with False Cons show ?thesis by simp
        next
          case 2
          from less.hyps [OF len 2] False Cons show ?thesis by (auto dest: list.set_sel(2) [OF runs_nonempty])
        qed
      qed
    qed
  qed
qed

end

end
