(* ===== verification/Pii_Log.thy ===== *)
theory Pii_Log
  imports Py_Regex Py_Json
begin

text \<open>
  Redaction of card numbers and email addresses from log content: \<open>audit/pii_safe_log.py\<close>. The
  three regular expressions are translated item by item; sanitising a dictionary follows the
  recursion of the code, including what it does not descend into.
\<close>

section \<open>Patterns\<close>





section \<open>Sanitising\<close>






section \<open>Card numbers as words\<close>

definition pan_word :: "string \<Rightarrow> bool" where
  "pan_word w \<longleftrightarrow> 13 \<le> length w \<and> length w \<le> 19 \<and> list_all is_digit w"


lemma pan_word_Nil [simp]: "\<not> pan_word []"
  by (simp add: pan_word_def)





section \<open>The two substitutions\<close>








section \<open>Properties\<close>





end
