(* ===== verification/Bitrix_Sync.thy ===== *)
theory Bitrix_Sync
  imports Orders Py_Regex
begin

text \<open>
  The boundary to the dispatch system: the PII scrubber (\<open>bitrix24/pii_scrubber.py\<close>) and the
  one-way sync client (\<open>bitrix24/sync_client.py\<close>). A payload value is represented by what the
  scrubber observes of it: whether it is an integer, its \<open>str\<close> text and whether it is true. The
  transport is a parameter that answers each payload posted; SHA-256 comes from \<open>externals\<close>.
\<close>

section \<open>Scrubber\<close>

definition SCRUB_EMAIL_RE :: "rx_item list" where
  "SCRUB_EMAIL_RE =
     [WordBoundary, Repeat (\<lambda>c. is_letter c \<or> is_digit c \<or> c \<in> set ''._%+-'') 1 None,
      Repeat (\<lambda>c. c = CHR ''@'') 1 (Some 1),
      Repeat (\<lambda>c. is_letter c \<or> is_digit c \<or> c \<in> set ''.-'') 1 None,
      Repeat (\<lambda>c. c = CHR ''.'') 1 (Some 1), Repeat is_letter 2 None, WordBoundary]"

definition SCRUB_PHONE_RE :: "rx_item list" where
  "SCRUB_PHONE_RE =
     [Repeat (\<lambda>c. c = CHR ''+'') 0 (Some 1), WordBoundary, Repeat is_digit 1 (Some 1),
      Repeat (\<lambda>c. is_digit c \<or> is_space c \<or> c \<in> set ''-()'') 6 None, WordBoundary]"

datatype scrub_action = REPLACE_WITH_ORDER_REF | HASH_OR_REMOVE | REMOVE | MAP_TO_EXTERNAL_ID | ALLOW

definition PII_FIELD_RULES :: "(string, scrub_action) dict" where
  "PII_FIELD_RULES =
     [(''customer_name'', REPLACE_WITH_ORDER_REF), (''phone'', HASH_OR_REMOVE), (''email'', REMOVE),
      (''address'', REMOVE), (''deceased_name'', REMOVE), (''order_id'', MAP_TO_EXTERNAL_ID),
      (''external_id'', ALLOW), (''status'', ALLOW), (''amount'', ALLOW), (''amount_cents'', ALLOW),
      (''branch_id'', ALLOW), (''service_type'', ALLOW), (''currency'', ALLOW)]"

definition DEFAULT_ACTION :: scrub_action where
  "DEFAULT_ACTION = REMOVE"

definition rule_for :: "string \<Rightarrow> scrub_action" where
  "rule_for key = (case dict_get PII_FIELD_RULES key of None \<Rightarrow> DEFAULT_ACTION | Some a \<Rightarrow> a)"

datatype field_value = IntField int | BoolField bool | OtherField string bool

fun field_str :: "field_value \<Rightarrow> string" where
  "field_str (IntField i) = str_of_int i"
| "field_str (BoolField b) = (if b then ''True'' else ''False'')"
| "field_str (OtherField s t) = s"

fun field_true :: "field_value \<Rightarrow> bool" where
  "field_true (IntField i) = (i \<noteq> 0)"
| "field_true (BoolField b) = b"
| "field_true (OtherField s t) = t"

datatype scrubbed_value = SInt int | SBool bool | SStr string

definition scrub_value :: "string \<Rightarrow> string" where
  "scrub_value v = str_strip (rx_sub SCRUB_PHONE_RE [] None (rx_sub SCRUB_EMAIL_RE [] None v))"

fun allowed_value :: "field_value \<Rightarrow> scrubbed_value" where
  "allowed_value (IntField i) = SInt i"
| "allowed_value (BoolField b) = SBool b"
| "allowed_value v = SStr (scrub_value (field_str v))"

definition scrub_field ::
    "(string \<Rightarrow> string) \<Rightarrow> bool \<Rightarrow> string \<Rightarrow> string \<times> field_value \<Rightarrow> (string, scrubbed_value) dict \<Rightarrow>
     (string, scrubbed_value) dict" where
  "scrub_field sha hash_phone external_id kv scrubbed =
     (case kv of (key, value) \<Rightarrow>
        let action = rule_for key in
        if action = ALLOW \<and> key \<noteq> ''order_id'' then dict_set key (allowed_value value) scrubbed
        else if action = REPLACE_WITH_ORDER_REF then dict_set ''title'' (SStr (''Order-'' @ external_id)) scrubbed
        else if action = HASH_OR_REMOVE \<and> hash_phone \<and> field_true value
        then dict_set ''phone_hash'' (SStr (sha (field_str value))) scrubbed
        else scrubbed)"

definition scrub_order_payload ::
    "(string \<Rightarrow> string) \<Rightarrow> bool \<Rightarrow> (string, field_value) dict \<Rightarrow> string \<Rightarrow> (string, scrubbed_value) dict result" where
  "scrub_order_payload sha hash_phone payload external_id =
     (if external_id = [] then Inl ValueError
      else Inr (dict_setdefault ''status''
        (SStr (case dict_get payload ''status'' of None \<Rightarrow> [] | Some v \<Rightarrow> field_str v))
        (fold (scrub_field sha hash_phone external_id) payload [(''external_id'', SStr external_id)])))"

section \<open>Sync client\<close>

record sync_result =
  sr_order_id :: string
  sr_external_id :: string
  sr_deal_ref :: string
  sr_scrubbed_payload :: "(string, scrubbed_value) dict"

record sync_client =
  sy_ticks :: nat
  sy_audit :: audit_logger
  sy_posted :: "(string, scrubbed_value) dict list"

definition Bitrix24SyncClient :: sync_client where
  "Bitrix24SyncClient = \<lparr>sy_ticks = 0, sy_audit = AuditLogger, sy_posted = []\<rparr>"

type_synonym transport = "(string, scrubbed_value) dict \<Rightarrow> nat \<Rightarrow> string result"

definition post_deal :: "transport \<Rightarrow> (string, scrubbed_value) dict \<Rightarrow> (sync_client, string) op" where
  "post_deal tp payload s = (tp payload (length (sy_posted s)), s\<lparr>sy_posted := sy_posted s @ [payload]\<rparr>)"

definition sync_log :: "externals \<Rightarrow> string \<Rightarrow> (string, pyval) dict \<Rightarrow> (sync_client, unit) op" where
  "sync_log ext transaction_ref details s =
     (Inr (), s\<lparr>sy_ticks := sy_ticks s + 2, sy_audit := audit_log (sha256 ext)
        \<lparr>lc_entry_id = uuid_str (uuid_at ext (sy_ticks s)), lc_timestamp = now_at ext (Suc (sy_ticks s)),
         lc_actor = ''bitrix24_sync'', lc_event_type = ''bitrix24.synced'', lc_outcome = ''success'',
         lc_transaction_ref = transaction_ref, lc_correlation_id = [], lc_details = Some details\<rparr> (sy_audit s)\<rparr>)"

definition raw_payload :: "order \<Rightarrow> (string, field_value) dict" where
  "raw_payload ord =
     (let text = (\<lambda>s. OtherField s (s \<noteq> [])) in
      [(''order_id'', text (or_order_id ord)), (''status'', text (status_value (or_status ord))),
       (''amount_cents'', IntField (or_total_amount_cents ord)), (''currency'', text (or_currency ord)),
       (''branch_id'', text (or_branch_id ord)), (''service_type'', text (or_service_type ord))])"

definition sync_order :: "externals \<Rightarrow> transport \<Rightarrow> bool \<Rightarrow> order \<Rightarrow> (sync_client, sync_result) op" where
  "sync_order ext tp hash_phone ord =
     op_bind (op_lift (scrub_order_payload (sha256 ext) hash_phone (raw_payload ord) (or_external_id ord))) (\<lambda>scrubbed.
     op_bind (post_deal tp scrubbed) (\<lambda>deal_ref.
     op_bind (sync_log ext (or_external_id ord)
       [(''tenant_id'', PStr (or_tenant_id ord)), (''deal_ref'', PStr deal_ref),
        (''direction'', PStr ''outbound_only'')]) (\<lambda>_.
     op_return
       \<lparr>sr_order_id = or_order_id ord, sr_external_id = or_external_id ord, sr_deal_ref = deal_ref,
        sr_scrubbed_payload = scrubbed\<rparr>)))"

fun sync_orders :: "externals \<Rightarrow> transport \<Rightarrow> bool \<Rightarrow> order list \<Rightarrow> (sync_client, sync_result list) op" where
  "sync_orders ext tp hash_phone [] = op_return []"
| "sync_orders ext tp hash_phone (ord # ords) =
     op_bind (sync_order ext tp hash_phone ord) (\<lambda>r.
     op_bind (sync_orders ext tp hash_phone ords) (\<lambda>rs. op_return (r # rs)))"

definition apply_inbound_write :: "(string, field_value) dict \<Rightarrow> (sync_client, unit) op" where
  "apply_inbound_write payload = op_raise SyncWriteRejectedError"

section \<open>What the scrubber lets through\<close>

text \<open>The part of a payload that may reach the other side: allowed fields in full, the presence of
  a customer name, the hash of a phone number.\<close>

definition visible_field ::
    "(string \<Rightarrow> string) \<Rightarrow> bool \<Rightarrow> string \<times> field_value \<Rightarrow> (string \<times> scrubbed_value) list" where
  "visible_field sha hash_phone kv =
     (case kv of (key, value) \<Rightarrow>
        case rule_for key of
          ALLOW \<Rightarrow> [(key, allowed_value value)]
        | REPLACE_WITH_ORDER_REF \<Rightarrow> [(''title'', SStr [])]
        | HASH_OR_REMOVE \<Rightarrow>
            if hash_phone \<and> field_true value then [(''phone_hash'', SStr (sha (field_str value)))] else []
        | _ \<Rightarrow> [])"

definition view :: "(string \<Rightarrow> string) \<Rightarrow> bool \<Rightarrow> (string, field_value) dict \<Rightarrow> (string \<times> scrubbed_value) list" where
  "view sha hash_phone payload = concat (map (visible_field sha hash_phone) payload)"

definition write_view :: "string \<Rightarrow> string \<times> scrubbed_value \<Rightarrow> (string, scrubbed_value) dict \<Rightarrow> (string, scrubbed_value) dict" where
  "write_view external_id kv =
     dict_set (fst kv) (if fst kv = ''title'' then SStr (''Order-'' @ external_id) else snd kv)"

lemma rule_for_order_id: "rule_for key = ALLOW \<Longrightarrow> key \<noteq> ''order_id'' \<and> key \<noteq> ''title'' \<and> key \<noteq> ''phone_hash''"
  by (auto simp: rule_for_def PII_FIELD_RULES_def DEFAULT_ACTION_def)

lemma scrub_field_view:
  "scrub_field sha hash_phone external_id kv d = fold (write_view external_id) (visible_field sha hash_phone kv) d"
  by (cases kv; cases "rule_for (fst kv)")
     (auto simp: scrub_field_def visible_field_def write_view_def Let_def dest: rule_for_order_id)

lemma fold_scrub_view:
  "fold (scrub_field sha hash_phone external_id) payload d = fold (write_view external_id) (view sha hash_phone payload) d"
  by (induction payload arbitrary: d) (simp_all add: view_def scrub_field_view)

lemma write_view_other:
  "k \<notin> fst ` set ps \<Longrightarrow> dict_get (fold (write_view e) ps d) k = dict_get d k"
  by (induction ps arbitrary: d) (auto simp: write_view_def dict_get_set)

lemma write_view_keys: "fst ` set (fold (write_view e) ps d) = fst ` set ps \<union> fst ` set d"
  by (induction ps arbitrary: d) (auto simp: write_view_def dom_update)

lemma view_status:
  "''status'' \<in> fst ` set (view sha hash_phone payload) \<longleftrightarrow> dict_get payload ''status'' \<noteq> None"
proof (induction payload)
  case (Cons kv payload)
  obtain k v where kv: "kv = (k, v)" by force
  have "rule_for ''status'' = ALLOW" by (simp add: rule_for_def PII_FIELD_RULES_def)
  then have "''status'' \<in> fst ` set (visible_field sha hash_phone kv) \<longleftrightarrow> k = ''status''"
    by (cases "rule_for k") (auto simp: visible_field_def kv)
  with Cons show ?case by (auto simp: view_def kv image_Un)
qed (simp add: view_def)

text \<open>The output is a function of the view and the external identifier.\<close>

lemma scrub_of_view:
  assumes "external_id \<noteq> []"
  shows "scrub_order_payload sha hash_phone payload external_id =
    Inr (dict_setdefault ''status'' (SStr []) (fold (write_view external_id) (view sha hash_phone payload)
      [(''external_id'', SStr external_id)]))"
proof (cases "dict_get payload ''status''")
  case None
  with assms show ?thesis by (simp add: scrub_order_payload_def fold_scrub_view)
next
  case (Some v)
  then have "''status'' \<in> fst ` set (view sha hash_phone payload)" by (simp add: view_status)
  then have "dict_get (fold (write_view external_id) (view sha hash_phone payload)
      [(''external_id'', SStr external_id)]) ''status'' \<noteq> None"
    by (simp add: map_of_eq_None_iff write_view_keys)
  with assms show ?thesis
    by (auto simp: scrub_order_payload_def fold_scrub_view dict_setdefault_def split: option.split)
qed

section \<open>Properties\<close>

definition allowed_fields :: "string set" where
  "allowed_fields = {''external_id'', ''status'', ''amount'', ''amount_cents'', ''branch_id'', ''service_type'', ''currency''}"

lemma rule_for_ALLOW: "rule_for key = ALLOW \<longleftrightarrow> key \<in> allowed_fields"
  by (auto simp: allowed_fields_def rule_for_def PII_FIELD_RULES_def DEFAULT_ACTION_def)

lemma rule_for_others:
  "rule_for key = REPLACE_WITH_ORDER_REF \<longleftrightarrow> key = ''customer_name''"
  "rule_for key = HASH_OR_REMOVE \<longleftrightarrow> key = ''phone''"
  by (auto simp: rule_for_def PII_FIELD_RULES_def DEFAULT_ACTION_def)

definition same_outside :: "(string \<Rightarrow> string) \<Rightarrow> string \<times> field_value \<Rightarrow> string \<times> field_value \<Rightarrow> bool" where
  "same_outside sha a b \<longleftrightarrow> fst a = fst b \<and> (fst a \<in> allowed_fields \<longrightarrow> snd a = snd b) \<and>
     (fst a = ''phone'' \<longrightarrow> sha (field_str (snd a)) = sha (field_str (snd b)) \<and> field_true (snd a) = field_true (snd b))"

lemma visible_same:
  assumes "same_outside sha a b"
  shows "visible_field sha hash_phone a = visible_field sha hash_phone b"
proof -
  obtain k v w where ab: "a = (k, v)" "b = (k, w)"
    using assms by (cases a; cases b) (simp add: same_outside_def)
  show ?thesis
  proof (cases "rule_for k")
    case ALLOW
    then have "k \<in> allowed_fields" by (simp only: rule_for_ALLOW)
    with assms have "v = w" by (simp add: same_outside_def ab)
    then show ?thesis by (simp add: ab)
  next
    case HASH_OR_REMOVE
    then have "k = ''phone''" by (simp only: rule_for_others)
    with assms HASH_OR_REMOVE show ?thesis by (simp add: same_outside_def ab visible_field_def)
  qed (simp_all add: ab visible_field_def)
qed

lemma view_same: "list_all2 (same_outside sha) p q \<Longrightarrow> view sha hash_phone p = view sha hash_phone q"
  by (induction rule: list_all2_induct) (simp_all add: view_def visible_same)

lemma view_keys: "fst ` set (view sha hash_phone p) \<subseteq> allowed_fields \<union> {''title'', ''phone_hash''}"
proof -
  have "fst ` set (visible_field sha hash_phone kv) \<subseteq> allowed_fields \<union> {''title'', ''phone_hash''}" for kv
    by (cases kv; cases "rule_for (fst kv)") (auto simp: visible_field_def simp flip: rule_for_ALLOW)
  then show ?thesis by (fastforce simp: view_def)
qed

text \<open>C17: The scrubber is a filter. Its output has no field but the seven allowed ones, an opaque
  title and a phone hash; it does not depend on the values of any other field, on the customer
  name or on the phone number beyond its hash; and adding or removing a field that is not on the
  list, in particular an email, an address or the name of the deceased, does not change it.\<close>

theorem scrub_noninterference:
  assumes "external_id \<noteq> []"
    and "list_all2 (same_outside sha) p q"
    and "key \<notin> allowed_fields \<union> {''customer_name'', ''phone''}"
  shows "\<exists>out. scrub_order_payload sha hash_phone p external_id = Inr out \<and>
    scrub_order_payload sha hash_phone q external_id = Inr out \<and>
    scrub_order_payload sha hash_phone ((key, value) # p) external_id = Inr out \<and>
    set (dict_keys out) \<subseteq> allowed_fields \<union> {''title'', ''phone_hash''} \<and>
    dict_get out ''title'' \<in> {None, Some (SStr (''Order-'' @ external_id))}"
proof -
  let ?d = "fold (write_view external_id) (view sha hash_phone p) [(''external_id'', SStr external_id)]"
  let ?out = "dict_setdefault ''status'' (SStr []) ?d"
  have "visible_field sha hash_phone (key, value) = []"
    using assms(3) rule_for_ALLOW [of key] rule_for_others [of key]
    by (cases "rule_for key") (simp_all add: visible_field_def)
  then have "view sha hash_phone ((key, value) # p) = view sha hash_phone p" by (simp add: view_def)
  with assms(1) view_same [OF assms(2)]
  have "scrub_order_payload sha hash_phone p external_id = Inr ?out"
    "scrub_order_payload sha hash_phone q external_id = Inr ?out"
    "scrub_order_payload sha hash_phone ((key, value) # p) external_id = Inr ?out"
    by (simp_all add: scrub_of_view)
  moreover have "set (dict_keys ?out) \<subseteq> allowed_fields \<union> {''title'', ''phone_hash''}"
    using view_keys [of sha hash_phone p]
    by (auto simp: dict_keys_def dict_setdefault_def dom_update write_view_keys allowed_fields_def
        split: option.split)
  moreover have "dict_get (fold (write_view external_id) ps d) ''title'' \<in> {None, Some (SStr (''Order-'' @ external_id))}"
    if "dict_get d ''title'' \<in> {None, Some (SStr (''Order-'' @ external_id))}" for ps d
    using that by (induction ps arbitrary: d) (auto simp: write_view_def dict_get_set)
  then have "dict_get ?out ''title'' \<in> {None, Some (SStr (''Order-'' @ external_id))}"
    by (simp add: dict_get_setdefault)
  ultimately show ?thesis by blast
qed

theorem scrub_noninterference_witness:
  "scrub_order_payload sample_sha True
     [(''deceased_name'', OtherField ''Jonas'' True), (''customer_name'', OtherField ''Ona'' True),
      (''amount_cents'', IntField 500)] ''e1'' =
   scrub_order_payload sample_sha True
     [(''customer_name'', OtherField ''Petras'' True), (''amount_cents'', IntField 500)] ''e1''"
proof -
  have "list_all2 (same_outside sample_sha)
     [(''customer_name'', OtherField ''Ona'' True), (''amount_cents'', IntField 500)]
     [(''customer_name'', OtherField ''Petras'' True), (''amount_cents'', IntField 500)]"
    by (simp add: same_outside_def allowed_fields_def)
  from scrub_noninterference [OF _ this, of "''e1''" "''deceased_name''" True "OtherField ''Jonas'' True"]
  show ?thesis by (auto simp: allowed_fields_def)
qed

text \<open>What the text filter of the scrubber does not guarantee. Removing a phone number can join
  the text around it into an email address that stays, and a branch identifier made of digits and
  dashes is taken for a phone number and dropped.\<close>

theorem scrub_value_limits:
  "scrub_value ''joe@+12345678 -ex.com'' = ''joe@ex.com'' \<and> scrub_value ''joe@ex.com'' = [] \<and>
   scrub_value ''2024-00012'' = []"
  by code_simp

lemma scrub_statuses: "list_all (\<lambda>st. scrub_value (status_value st) = status_value st) all_statuses"
  by code_simp

lemma scrub_status: "scrub_value (status_value st) = status_value st"
  using scrub_statuses by (cases st) (simp_all add: all_statuses_def)

definition synced_payload :: "order \<Rightarrow> (string, scrubbed_value) dict" where
  "synced_payload ord =
     [(''external_id'', SStr (or_external_id ord)), (''status'', SStr (status_value (or_status ord))),
      (''amount_cents'', SInt (or_total_amount_cents ord)), (''currency'', SStr (scrub_value (or_currency ord))),
      (''branch_id'', SStr (scrub_value (or_branch_id ord))),
      (''service_type'', SStr (scrub_value (or_service_type ord)))]"

lemma scrub_raw_payload:
  assumes "or_external_id ord \<noteq> []"
  shows "scrub_order_payload sha hash_phone (raw_payload ord) (or_external_id ord) = Inr (synced_payload ord)"
proof -
  have v: "view sha hash_phone (raw_payload ord) = tl (synced_payload ord)"
    by (simp add: view_def raw_payload_def visible_field_def rule_for_def PII_FIELD_RULES_def Let_def
        synced_payload_def scrub_status)
  show ?thesis
    unfolding scrub_of_view [OF assms] v
    by (simp add: synced_payload_def write_view_def dict_setdefault_def)
qed

lemma sync_order_apply:
  "sync_order ext tp hash_phone ord s =
     (if or_external_id ord = [] then (Inl ValueError, s)
      else
        let s1 = s\<lparr>sy_posted := sy_posted s @ [synced_payload ord]\<rparr> in
        case tp (synced_payload ord) (length (sy_posted s)) of
          Inl e \<Rightarrow> (Inl e, s1)
        | Inr deal \<Rightarrow>
            (Inr \<lparr>sr_order_id = or_order_id ord, sr_external_id = or_external_id ord, sr_deal_ref = deal,
               sr_scrubbed_payload = synced_payload ord\<rparr>,
             snd (sync_log ext (or_external_id ord) [(''tenant_id'', PStr (or_tenant_id ord)),
               (''deal_ref'', PStr deal), (''direction'', PStr ''outbound_only'')] s1)))"
proof (cases "or_external_id ord = []")
  case True
  then show ?thesis by (simp add: sync_order_def scrub_order_payload_def op_bind_apply op_simps)
next
  case False
  then show ?thesis
    by (simp add: sync_order_def scrub_raw_payload op_bind_apply op_simps post_deal_def sync_log_def Let_def
        split: sum.split)
qed

text \<open>Syncing a batch. The orders are pushed one after the other until the first failure. If all
  succeed, exactly their scrubbed payloads were posted, in order, with one audit entry each. If
  one fails, because it has no external identifier or the transport refuses it, the orders before
  it stay posted and audited although the caller gets no result for them, it has no audit entry,
  and nothing after it is sent. The payload of an order is its external identifier, status,
  amount, and scrubbed currency, branch and service type, whatever else the order holds, and the
  audit chain stays intact.\<close>

theorem sync_batch_outcome:
  assumes "logger_ok (sha256 ext) (sy_audit s)"
    and "(r, s') = sync_orders ext tp hash_phone ords s"
  shows "logger_ok (sha256 ext) (sy_audit s') \<and>
    (case r of
       Inr rs \<Rightarrow> map sr_scrubbed_payload rs = map synced_payload ords \<and>
         sy_posted s' = sy_posted s @ map synced_payload ords \<and>
         length (al_entries (sy_audit s')) = length (al_entries (sy_audit s)) + length ords
     | Inl e \<Rightarrow> \<exists>k < length ords.
         length (al_entries (sy_audit s')) = length (al_entries (sy_audit s)) + k \<and>
         (if or_external_id (ords ! k) = []
          then e = ValueError \<and> sy_posted s' = sy_posted s @ map synced_payload (take k ords)
          else sy_posted s' = sy_posted s @ map synced_payload (take (Suc k) ords)))"
  using assms
proof (induction ords arbitrary: r s s')
  case Nil
  then show ?case by (simp add: op_return_def)
next
  case (Cons ord ords)
  obtain r1 s1 where one: "sync_order ext tp hash_phone ord s = (r1, s1)" by force
  show ?case
  proof (cases r1)
    case (Inl e)
    with one Cons.prems(2) have r: "r = Inl e" "s' = s1" by (simp_all add: op_bind_def)
    with Inl one Cons.prems(1) show ?thesis
      by (auto simp: sync_order_apply Let_def intro!: exI [of _ 0] split: if_splits sum.splits)
  next
    case (Inr x)
    with one have ext: "or_external_id ord \<noteq> []" and x: "sr_scrubbed_payload x = synced_payload ord"
      and s1: "sy_posted s1 = sy_posted s @ [synced_payload ord]"
        "logger_ok (sha256 ext) (sy_audit s1)"
        "length (al_entries (sy_audit s1)) = Suc (length (al_entries (sy_audit s)))"
      using Cons.prems(1)
      by (auto simp: sync_order_apply Let_def sync_log_def logger_ok_log al_entries_log split: if_splits sum.splits)
    obtain r2 s2 where rest: "(r2, s2) = sync_orders ext tp hash_phone ords s1" by (metis surj_pair)
    from one Inr rest [symmetric] Cons.prems(2)
    have r: "r = (case r2 of Inl e \<Rightarrow> Inl e | Inr rs \<Rightarrow> Inr (x # rs))" "s' = s2"
      by (auto simp: op_bind_def op_return_def split: sum.splits)
    note ih = Cons.IH [OF s1(2) rest]
    show ?thesis
    proof (cases r2)
      case (Inl e)
      with ih obtain k where "k < length ords"
        "length (al_entries (sy_audit s2)) = length (al_entries (sy_audit s1)) + k"
        "if or_external_id (ords ! k) = []
          then e = ValueError \<and> sy_posted s2 = sy_posted s1 @ map synced_payload (take k ords)
          else sy_posted s2 = sy_posted s1 @ map synced_payload (take (Suc k) ords)" by auto
      with ih Inl r s1 show ?thesis by (auto intro!: exI [of _ "Suc k"])
    next
      case (Inr rs)
      with ih r s1 x show ?thesis by simp
    qed
  qed
qed

definition sample_dispatch :: transport where
  "sample_dispatch payload n = (if n = 1 then Inl GatewayError else Inr ''deal'')"

definition sample_synced :: order where
  "sample_synced = sample_order\<lparr>or_order_id := ''ORD-1'', or_external_id := ''e1''\<rparr>"

theorem sync_batch_outcome_witness:
  "\<exists>e s'. sync_orders sample_externals sample_dispatch True [sample_synced, sample_synced, sample_synced]
     Bitrix24SyncClient = (Inl e, s') \<and> length (sy_posted s') = 2 \<and> length (al_entries (sy_audit s')) = 1"
proof -
  let ?ords = "[sample_synced, sample_synced, sample_synced]"
  have ok: "logger_ok (sha256 sample_externals) (sy_audit Bitrix24SyncClient)"
    by (simp add: Bitrix24SyncClient_def)
  have x: "or_external_id sample_synced \<noteq> []" by (simp add: sample_synced_def)
  obtain s' where run: "sync_orders sample_externals sample_dispatch True ?ords Bitrix24SyncClient = (Inl GatewayError, s')"
    by (simp add: op_bind_apply sync_order_apply x Let_def sample_dispatch_def Bitrix24SyncClient_def sync_log_def)
  from sync_batch_outcome [OF ok run [symmetric]] obtain k where "k < 3"
    "length (al_entries (sy_audit s')) = k" "length (sy_posted s') = Suc k"
    by (auto simp: Bitrix24SyncClient_def AuditLogger_def nth_Cons' x split: if_splits)
  moreover have "length (sy_posted s') = 2"
    using run by (auto simp: op_bind_apply sync_order_apply x Let_def sample_dispatch_def
        Bitrix24SyncClient_def sync_log_def)
  ultimately show ?thesis using run by auto
qed

end
