(* ===== verification/Provisioning.thy ===== *)
theory Provisioning
  imports Catalog Py_Regex
begin

text \<open>
  Tenant schema provisioning: \<open>db/provisioning/schema_provisioner.py\<close>. The SQL executor and the
  optional loader of applied revisions are parameters; the executor may fail at any call. The
  state records which statements were executed and which schema was the active one, so that what
  reaches the database can be stated. The executor may run a statement under another search path
  than the active schema: that of the command line, in \<open>Provisioning_CLI\<close>, does so for CREATE SCHEMA.
\<close>

section \<open>State\<close>

record revision =
  rv_revision_id :: string
  rv_up_sql :: string
  rv_down_sql :: string

record provisioner_config =
  pc_template_sql :: string
  pc_executor :: "string \<Rightarrow> string \<Rightarrow> nat \<Rightarrow> unit result"
  pc_revisions :: "revision list"
  pc_load_applied :: "(string \<Rightarrow> nat \<Rightarrow> string list) option"

record provisioner =
  pv_active_schema :: string
  pv_applied :: "(string, string list) dict"
  pv_calls :: nat
  pv_executed :: "(string \<times> string) list"

definition SchemaProvisioner :: provisioner where
  "SchemaProvisioner = \<lparr>pv_active_schema = [], pv_applied = [], pv_calls = 0, pv_executed = []\<rparr>"

definition in_memory_applied :: "provisioner \<Rightarrow> string \<Rightarrow> string list" where
  "in_memory_applied s schema = (case dict_get (pv_applied s) schema of None \<Rightarrow> [] | Some rs \<Rightarrow> rs)"

definition applied_revisions :: "provisioner_config \<Rightarrow> string \<Rightarrow> provisioner \<Rightarrow> string list" where
  "applied_revisions cfg schema s =
     (case pc_load_applied cfg of
        None \<Rightarrow> in_memory_applied s schema
      | Some load \<Rightarrow> load schema (pv_calls s))"

section \<open>Artifacts\<close>

text \<open>The files of the artifacts directory as (name, content) pairs.\<close>

definition artifacts_with :: "string \<Rightarrow> (string \<times> string) list \<Rightarrow> (string, string) dict" where
  "artifacts_with suffix files =
     fold (\<lambda>(name, text). dict_set (str_removesuffix name suffix) text)
       (sort_key fst (filter (\<lambda>(name, text). str_endswith name suffix) files)) []"

definition from_artifacts_dir :: "(string \<times> string) list \<Rightarrow> revision list" where
  "from_artifacts_dir files =
     (let up_sql = artifacts_with ''.up.sql'' files; down_sql = artifacts_with ''.down.sql'' files in
      map (\<lambda>(rev, up). \<lparr>rv_revision_id = rev, rv_up_sql = up,
          rv_down_sql = (case dict_get down_sql rev of None \<Rightarrow> [] | Some d \<Rightarrow> d)\<rparr>)
        (sort_key fst up_sql))"

section \<open>Operations\<close>

definition is_lower_hex :: "char \<Rightarrow> bool" where
  "is_lower_hex c \<longleftrightarrow> is_digit c \<or> in_range 97 102 c"

definition schema_name_matches :: "string \<Rightarrow> bool" where
  "schema_name_matches s \<longleftrightarrow> str_startswith s ''tenant_'' \<and> rx_fullmatch is_lower_hex 32 32 (drop 7 s)"

definition validated_schema :: "tenant \<Rightarrow> string result" where
  "validated_schema t =
     res_bind (schema_name t) (\<lambda>schema.
       if \<not> schema_name_matches schema then Inl ProvisioningError else Inr schema)"

definition statements :: "string \<Rightarrow> string list" where
  "statements sql = filter (\<lambda>s. s \<noteq> []) (map str_strip (str_split CHR '';'' sql))"

text \<open>The executor sees the active schema of the provisioner; a statement it accepts is recorded with it.\<close>

definition execute :: "provisioner_config \<Rightarrow> string \<Rightarrow> (provisioner, unit) op" where
  "execute cfg statement s =
     (case pc_executor cfg (pv_active_schema s) statement (pv_calls s) of
        Inl e \<Rightarrow> (Inl ProvisioningError, s\<lparr>pv_calls := Suc (pv_calls s)\<rparr>)
      | Inr _ \<Rightarrow> (Inr (), s\<lparr>pv_calls := Suc (pv_calls s),
           pv_executed := pv_executed s @ [(pv_active_schema s, statement)]\<rparr>))"

definition insert_meta :: "string \<Rightarrow> string \<Rightarrow> string" where
  "insert_meta schema revision_id =
     ''INSERT INTO '' @ schema @ ''.jol_schema_meta (revision) VALUES ('' @ [CHR 0x27] @ revision_id @
     [CHR 0x27] @ '')''"

definition delete_meta :: "string \<Rightarrow> string \<Rightarrow> string" where
  "delete_meta schema revision_id =
     ''DELETE FROM '' @ schema @ ''.jol_schema_meta WHERE revision = '' @ [CHR 0x27] @ revision_id @ [CHR 0x27]"

definition meta_table_ddl :: "string \<Rightarrow> string" where
  "meta_table_ddl schema =
     ''CREATE TABLE IF NOT EXISTS '' @ schema @ ''.jol_schema_meta ('' @
     ''revision TEXT PRIMARY KEY, applied_at TIMESTAMPTZ NOT NULL DEFAULT now())''"

definition record_revision :: "provisioner_config \<Rightarrow> string \<Rightarrow> string \<Rightarrow> (provisioner, unit) op" where
  "record_revision cfg schema revision_id =
     op_bind (op_modify (\<lambda>s. s\<lparr>pv_applied :=
       dict_set schema (in_memory_applied s schema @ [revision_id]) (pv_applied s)\<rparr>)) (\<lambda>_.
     if revision_id \<noteq> ''000_template'' then execute cfg (insert_meta schema revision_id) else op_return ())"

definition pending_revisions :: "provisioner_config \<Rightarrow> string \<Rightarrow> provisioner \<Rightarrow> revision list" where
  "pending_revisions cfg schema s =
     filter (\<lambda>r. rv_revision_id r \<notin> set (applied_revisions cfg schema s)) (pc_revisions cfg)"

definition pending :: "provisioner_config \<Rightarrow> string \<Rightarrow> provisioner \<Rightarrow> string list" where
  "pending cfg schema s = map rv_revision_id (pending_revisions cfg schema s)"

definition activate :: "string \<Rightarrow> (provisioner, unit) op" where
  "activate schema = op_modify (\<lambda>s. s\<lparr>pv_active_schema := schema\<rparr>)"

definition create_tenant_schema :: "provisioner_config \<Rightarrow> tenant \<Rightarrow> (provisioner, string) op" where
  "create_tenant_schema cfg t =
     op_bind (op_lift (validated_schema t)) (\<lambda>schema.
     if pc_template_sql cfg = [] then op_raise ProvisioningError
     else
       op_bind (activate schema) (\<lambda>_.
       op_bind (execute cfg (''CREATE SCHEMA IF NOT EXISTS '' @ schema)) (\<lambda>_.
       op_bind (op_each (execute cfg) (statements (pc_template_sql cfg))) (\<lambda>_.
       op_bind (record_revision cfg schema ''000_template'') (\<lambda>_.
       op_return schema)))))"

definition apply_revision :: "provisioner_config \<Rightarrow> string \<Rightarrow> revision \<Rightarrow> (provisioner, unit) op" where
  "apply_revision cfg schema r =
     op_bind (op_each (execute cfg) (statements (rv_up_sql r))) (\<lambda>_.
     record_revision cfg schema (rv_revision_id r))"

definition migrate_tenant :: "provisioner_config \<Rightarrow> tenant \<Rightarrow> (provisioner, nat) op" where
  "migrate_tenant cfg t =
     op_bind (op_lift (validated_schema t)) (\<lambda>schema s.
       let pend = pending_revisions cfg schema s in
       if pend = [] then (Inr 0, s)
       else
         op_bind (activate schema) (\<lambda>_.
         op_bind (execute cfg (meta_table_ddl schema)) (\<lambda>_.
         op_bind (op_each (apply_revision cfg schema) pend) (\<lambda>_.
         op_return (length pend)))) s)"

fun migrate_all :: "provisioner_config \<Rightarrow> tenant list \<Rightarrow> (provisioner, nat) op" where
  "migrate_all cfg [] = op_return 0"
| "migrate_all cfg (t # ts) =
     op_bind (migrate_tenant cfg t) (\<lambda>n. op_bind (migrate_all cfg ts) (\<lambda>m. op_return (n + m)))"

definition find_revision :: "provisioner_config \<Rightarrow> string \<Rightarrow> revision option" where
  "find_revision cfg revision_id = find (\<lambda>r. rv_revision_id r = revision_id) (rev (pc_revisions cfg))"

definition undo_revision :: "provisioner_config \<Rightarrow> string \<Rightarrow> string \<Rightarrow> (provisioner, unit) op" where
  "undo_revision cfg schema revision_id =
     (case find_revision cfg revision_id of
        None \<Rightarrow> op_raise ProvisioningError
      | Some r \<Rightarrow>
          if rv_down_sql r = [] then op_raise ProvisioningError
          else
            op_bind (op_each (execute cfg) (statements (rv_down_sql r))) (\<lambda>_.
            op_bind (execute cfg (delete_meta schema revision_id)) (\<lambda>_.
            op_modify (\<lambda>s. case dict_get (pv_applied s) schema of
                None \<Rightarrow> s
              | Some rs \<Rightarrow> s\<lparr>pv_applied := dict_set schema (remove1 revision_id rs) (pv_applied s)\<rparr>))))"

definition downgrade :: "provisioner_config \<Rightarrow> tenant \<Rightarrow> string \<Rightarrow> (provisioner, nat) op" where
  "downgrade cfg t target_revision =
     op_bind (op_lift (validated_schema t)) (\<lambda>schema s.
       let applied = applied_revisions cfg schema s in
       if target_revision \<notin> set (applied @ [[]]) then (Inl ProvisioningError, s)
       else
         let to_undo = filter (\<lambda>r. target_revision < r) (rev applied) in
         op_bind (activate schema) (\<lambda>_.
         op_bind (op_each (undo_revision cfg schema) to_undo) (\<lambda>_.
         op_return (length to_undo))) s)"

section \<open>Where statements run\<close>

text \<open>Since a given history, all statements ran in schemas of a given set; while one schema is being
  worked on it is the active one.\<close>

definition ran_in :: "string set \<Rightarrow> (string \<times> string) list \<Rightarrow> provisioner \<Rightarrow> bool" where
  "ran_in S old s \<longleftrightarrow> (\<exists>new. pv_executed s = old @ new \<and> list_all (\<lambda>(schema, st). schema \<in> S) new)"

definition working_in :: "string set \<Rightarrow> (string \<times> string) list \<Rightarrow> string \<Rightarrow> provisioner \<Rightarrow> bool" where
  "working_in S old schema s \<longleftrightarrow> ran_in S old s \<and> pv_active_schema s = schema"

lemma keeps_execute [op_keeps_intros]:
  "schema \<in> S \<Longrightarrow> op_keeps (working_in S old schema) (execute cfg st)"
  by (rule op_keepsI) (auto simp: working_in_def ran_in_def execute_def split: sum.split)

lemma keeps_applied: "op_keeps (working_in S old schema) (op_modify (\<lambda>s. s\<lparr>pv_applied := f s\<rparr>))"
  by (rule op_keeps_modify) (simp add: working_in_def ran_in_def)

lemma keeps_record [op_keeps_intros]:
  "schema \<in> S \<Longrightarrow> op_keeps (working_in S old schema) (record_revision cfg x i)"
  unfolding record_revision_def by (auto intro!: op_keeps_bind keeps_applied keeps_execute op_keeps_return)

lemma keeps_apply [op_keeps_intros]:
  "schema \<in> S \<Longrightarrow> op_keeps (working_in S old schema) (apply_revision cfg x r)"
  unfolding apply_revision_def by (intro op_keeps_intros)

lemma keeps_undo [op_keeps_intros]:
  "schema \<in> S \<Longrightarrow> op_keeps (working_in S old schema) (undo_revision cfg x i)"
proof -
  assume "schema \<in> S"
  moreover have "op_keeps (working_in S old schema) (op_modify (\<lambda>s. case dict_get (pv_applied s) x of
      None \<Rightarrow> s | Some rs \<Rightarrow> s\<lparr>pv_applied := dict_set x (remove1 i rs) (pv_applied s)\<rparr>))"
    by (rule op_keeps_modify) (auto simp: working_in_def ran_in_def split: option.split)
  ultimately show ?thesis
    unfolding undo_revision_def by (auto intro!: op_keeps_intros split: option.split)
qed

lemma activated_keeps:
  assumes "schema \<in> S" "op_keeps (working_in S old schema) m" "ran_in S old s"
  shows "ran_in S old (snd (op_bind (activate schema) (\<lambda>_. m) s))"
proof -
  have "working_in S old schema (s\<lparr>pv_active_schema := schema\<rparr>)"
    using assms(3) by (simp add: working_in_def ran_in_def)
  with assms(2) show ?thesis
    by (simp add: op_bind_apply activate_def op_simps working_in_def op_keeps_def)
qed

datatype provisioning_call = CreateSchema tenant | MigrateAll "tenant list" | Downgrade tenant string

fun provisioning_step :: "provisioner_config \<Rightarrow> provisioning_call \<Rightarrow> provisioner \<Rightarrow> provisioner" where
  "provisioning_step cfg (CreateSchema t) s = snd (create_tenant_schema cfg t s)"
| "provisioning_step cfg (MigrateAll ts) s = snd (migrate_all cfg ts s)"
| "provisioning_step cfg (Downgrade t i) s = snd (downgrade cfg t i s)"

fun call_tenants :: "provisioning_call \<Rightarrow> tenant list" where
  "call_tenants (CreateSchema t) = [t]"
| "call_tenants (MigrateAll ts) = ts"
| "call_tenants (Downgrade t i) = [t]"

definition schemas_of :: "tenant list \<Rightarrow> string set" where
  "schemas_of ts = {schema. \<exists>t \<in> set ts. validated_schema t = Inr schema}"

lemma schemas_of_simps [simp]:
  "schemas_of [] = {}" "schemas_of (t # ts) = {schema. validated_schema t = Inr schema} \<union> schemas_of ts"
  by (auto simp: schemas_of_def)

definition safe_schemas :: "string set" where
  "safe_schemas = {s. schema_name_matches s}"

lemma schemas_of_safe: "schemas_of ts \<subseteq> safe_schemas"
  by (auto simp: schemas_of_def validated_schema_def res_bind_eq_Inr safe_schemas_def split: if_splits)

lemma not_validated:
  assumes "validated_schema t = Inl e"
  shows "create_tenant_schema cfg t s = (Inl e, s)" "migrate_tenant cfg t s = (Inl e, s)" "downgrade cfg t i s = (Inl e, s)"
  by (simp_all add: create_tenant_schema_def migrate_tenant_def downgrade_def op_bind_apply op_simps assms)

lemma create_ran_in:
  "schemas_of [t] \<subseteq> S \<Longrightarrow> ran_in S old s \<Longrightarrow> ran_in S old (snd (create_tenant_schema cfg t s))"
  by (cases "validated_schema t")
    (auto simp: not_validated create_tenant_schema_def op_bind_lift op_raise_def intro!: activated_keeps op_keeps_intros)

lemma migrate_tenant_ran_in:
  "schemas_of [t] \<subseteq> S \<Longrightarrow> ran_in S old s \<Longrightarrow> ran_in S old (snd (migrate_tenant cfg t s))"
  by (cases "validated_schema t")
    (auto simp: not_validated migrate_tenant_def op_bind_lift Let_def intro!: activated_keeps op_keeps_intros)

lemma migrate_all_ran_in:
  assumes "schemas_of ts \<subseteq> S"
  shows "ran_in S old s \<Longrightarrow> ran_in S old (snd (migrate_all cfg ts s))"
proof (rule op_keepsD)
  have "op_keeps (ran_in S old) (migrate_tenant cfg t)" if "schemas_of [t] \<subseteq> S" for t
    using that by (intro op_keepsI migrate_tenant_ran_in)
  then show "op_keeps (ran_in S old) (migrate_all cfg ts)"
    using assms by (induction ts) (auto intro!: op_keeps_intros)
qed

lemma downgrade_ran_in:
  "schemas_of [t] \<subseteq> S \<Longrightarrow> ran_in S old s \<Longrightarrow> ran_in S old (snd (downgrade cfg t i s))"
  by (cases "validated_schema t")
    (auto simp: not_validated downgrade_def op_bind_lift Let_def intro!: activated_keeps op_keeps_intros)

lemma run_ran_in:
  "schemas_of (concat (map call_tenants calls)) \<subseteq> S \<Longrightarrow> ran_in S old s \<Longrightarrow>
     ran_in S old (fold (provisioning_step cfg) calls s)"
proof (induction calls arbitrary: s)
  case (Cons c calls)
  then have "ran_in S old (provisioning_step cfg c s)"
    by (cases c) (auto simp: schemas_of_def intro!: create_ran_in migrate_all_ran_in downgrade_ran_in, blast)
  with Cons show ?case by (auto simp: schemas_of_def)
qed simp

section \<open>With an executor that succeeds\<close>

definition reliable :: "provisioner_config \<Rightarrow> bool" where
  "reliable cfg \<longleftrightarrow> (\<forall>schema st n. pc_executor cfg schema st n = Inr ())"

definition ran :: "string list \<Rightarrow> provisioner \<Rightarrow> provisioner" where
  "ran sts s = s\<lparr>pv_calls := pv_calls s + length sts,
     pv_executed := pv_executed s @ map (Pair (pv_active_schema s)) sts\<rparr>"

lemma ran_simps [simp]:
  "pv_applied (ran sts s) = pv_applied s" "pv_active_schema (ran sts s) = pv_active_schema s"
  "pv_executed (ran sts s) = pv_executed s @ map (Pair (pv_active_schema s)) sts"
  by (simp_all add: ran_def)

lemma ran_append: "ran bs (ran as s) = ran (as @ bs) s"
  by (simp add: ran_def)

lemma ran_Nil [simp]: "ran [] s = s"
  by (simp add: ran_def)

lemma execute_reliable: "reliable cfg \<Longrightarrow> execute cfg st s = (Inr (), ran [st] s)"
  by (simp add: execute_def reliable_def ran_def)

lemma execute_all_reliable: "reliable cfg \<Longrightarrow> op_each (execute cfg) sts s = (Inr (), ran sts s)"
  by (induction sts arbitrary: s)
     (simp_all add: op_return_def op_bind_apply execute_reliable ran_append)

definition noted :: "string \<Rightarrow> string \<Rightarrow> provisioner \<Rightarrow> provisioner" where
  "noted schema i s = s\<lparr>pv_applied := dict_set schema (in_memory_applied s schema @ [i]) (pv_applied s)\<rparr>"

lemma in_memory_noted:
  "in_memory_applied (noted schema i s) x = (if x = schema then in_memory_applied s schema @ [i] else in_memory_applied s x)"
  by (simp add: in_memory_applied_def noted_def dict_get_set)

lemma noted_active [simp]: "pv_active_schema (noted schema i s) = pv_active_schema s"
  by (simp add: noted_def)

lemma in_memory_other [simp]: "in_memory_applied (ran sts s) x = in_memory_applied s x"
  "in_memory_applied (s\<lparr>pv_active_schema := y\<rparr>) x = in_memory_applied s x"
  by (simp_all add: in_memory_applied_def)

lemma ran_noted: "ran sts (noted schema i s) = noted schema i (ran sts s)"
  by (cases s) (simp add: noted_def ran_def in_memory_applied_def)

lemma ran_noted_all: "ran sts (fold (noted schema) revs s) = fold (noted schema) revs (ran sts s)"
  by (induction revs arbitrary: s) (simp_all add: ran_noted)

lemma noted_all [simp]:
  "pv_active_schema (fold (noted schema) revs s) = pv_active_schema s"
  "pv_executed (fold (noted schema) revs s) = pv_executed s"
  "in_memory_applied (fold (noted schema) revs s) x = in_memory_applied s x @ (if x = schema then revs else [])"
  by (induction revs arbitrary: s) (simp_all add: in_memory_noted, simp_all add: noted_def)

text \<open>What a migration is to execute for the revisions pending in a schema: the version table, then for each
  revision the statements of its up file and the row that records it.\<close>

definition up_script :: "string \<Rightarrow> revision list \<Rightarrow> string list" where
  "up_script schema pend =
     (if pend = [] then []
      else (''CREATE TABLE IF NOT EXISTS '' @ schema @ ''.jol_schema_meta (revision TEXT PRIMARY KEY, '' @
          ''applied_at TIMESTAMPTZ NOT NULL DEFAULT now())'') #
        concat (map (\<lambda>r. filter (\<lambda>st. st \<noteq> []) (map str_strip (str_split CHR '';'' (rv_up_sql r))) @
          (if rv_revision_id r = ''000_template'' then []
           else [''INSERT INTO '' @ schema @ ''.jol_schema_meta (revision) VALUES ('' @
             [CHR 0x27] @ rv_revision_id r @ [CHR 0x27] @ '')''])) pend))"

lemma apply_reliable:
  assumes "reliable cfg"
  shows "apply_revision cfg schema r s = (Inr (), noted schema (rv_revision_id r) (ran (tl (up_script schema [r])) s))"
  using assms
  by (simp add: ran_noted apply_revision_def record_revision_def op_bind_apply op_simps execute_all_reliable
      execute_reliable noted_def [symmetric] up_script_def statements_def insert_meta_def ran_append)

lemma apply_all_reliable:
  assumes "reliable cfg"
  shows "op_each (apply_revision cfg schema) rs s = (Inr (), fold (noted schema) (map rv_revision_id rs)
    (ran (concat (map (\<lambda>r. tl (up_script schema [r])) rs)) s))"
proof (induction rs arbitrary: s)
  case (Cons r rs)
  then show ?case by (simp add: op_bind_apply apply_reliable [OF assms] ran_noted ran_append)
qed (simp add: op_return_def)

lemma up_script_parts:
  "pend \<noteq> [] \<Longrightarrow> up_script schema pend = meta_table_ddl schema # concat (map (\<lambda>r. tl (up_script schema [r])) pend)"
  by (simp add: up_script_def meta_table_ddl_def)

lemma migrate_tenant_reliable:
  assumes "reliable cfg" "pc_load_applied cfg = None" "validated_schema t = Inr schema"
    and "pend = pending_revisions cfg schema s"
  obtains s' where "migrate_tenant cfg t s = (Inr (length pend), s')"
    "pv_executed s' = pv_executed s @ map (Pair schema) (up_script schema pend)"
    "\<And>x. in_memory_applied s' x = in_memory_applied s x @ (if x = schema then map rv_revision_id pend else [])"
proof (cases "pend = []")
  case True
  with assms that [of s] show thesis by (simp add: migrate_tenant_def op_bind_lift up_script_def)
next
  case False
  let ?s = "fold (noted schema) (map rv_revision_id pend) (ran (up_script schema pend) (s\<lparr>pv_active_schema := schema\<rparr>))"
  from False assms(1,3) have "migrate_tenant cfg t s = (Inr (length pend), ?s)"
    by (simp add: assms(4) [symmetric] migrate_tenant_def op_bind_lift Let_def op_bind_apply activate_def op_simps execute_reliable
        apply_all_reliable ran_append up_script_parts [OF False])
  then show thesis by (rule that) simp_all
qed

lemma pending_in_memory:
  "pc_load_applied cfg = None \<Longrightarrow> pending_revisions cfg schema s =
     filter (\<lambda>r. rv_revision_id r \<notin> set (in_memory_applied s schema)) (pc_revisions cfg)"
  by (simp add: pending_revisions_def applied_revisions_def)

lemma remdups_snoc: "rev (remdups (rev (x # xs))) = x # filter (\<lambda>y. y \<noteq> x) (rev (remdups (rev xs)))"
proof -
  have "remdups (ys @ [x]) = filter (\<lambda>y. y \<noteq> x) (remdups ys) @ [x]" for ys by (induction ys) auto
  then show ?thesis by (simp add: rev_filter)
qed

lemma concat_map_skip: "f x = [] \<Longrightarrow> concat (map f (filter (\<lambda>y. y \<noteq> x) ys)) = concat (map f ys)"
  by (induction ys) auto

lemma sum_map_skip: "f x = (0::nat) \<Longrightarrow> sum_list (map f (filter (\<lambda>y. y \<noteq> x) ys)) = sum_list (map f ys)"
  by (induction ys) auto

text \<open>Each schema is migrated when its first tenant is reached, as if it were the only one.\<close>

lemma migrate_all_reliable:
  assumes "reliable cfg" "pc_load_applied cfg = None" "map validated_schema ts = map Inr schemas"
  obtains s' where
    "migrate_all cfg ts s = (Inr (\<Sum>x\<leftarrow>rev (remdups (rev schemas)). length (pending_revisions cfg x s)), s')"
    "pv_executed s' = pv_executed s @
       concat (map (\<lambda>x. map (Pair x) (up_script x (pending_revisions cfg x s))) (rev (remdups (rev schemas))))"
    "\<And>x. in_memory_applied s' x = in_memory_applied s x @
       (if x \<in> set schemas then map rv_revision_id (pending_revisions cfg x s) else [])"
  using assms(3)
proof (induction ts arbitrary: s schemas thesis)
  case Nil
  then show ?case by (simp add: op_return_def)
next
  case (Cons t ts)
  from Cons.prems(2) obtain x xs where v: "schemas = x # xs" "validated_schema t = Inr x" "map validated_schema ts = map Inr xs"
    by (cases schemas) auto
  from migrate_tenant_reliable [OF assms(1,2) v(2) refl, of s] obtain s1 where
    s1: "migrate_tenant cfg t s = (Inr (length (pending_revisions cfg x s)), s1)"
      "pv_executed s1 = pv_executed s @ map (Pair x) (up_script x (pending_revisions cfg x s))"
      "\<And>y. in_memory_applied s1 y = in_memory_applied s y @
        (if y = x then map rv_revision_id (pending_revisions cfg x s) else [])" by blast
  have pend: "pending_revisions cfg y s1 = (if y = x then [] else pending_revisions cfg y s)" for y
    using s1(3) [of y] assms(2) by (auto simp: pending_in_memory filter_empty_conv)
  let ?l = "rev (remdups (rev xs))"
  from Cons.IH [OF _ v(3), of s1] obtain s' where
    s': "migrate_all cfg ts s1 = (Inr (\<Sum>x\<leftarrow>?l. length (pending_revisions cfg x s1)), s')"
      "pv_executed s' = pv_executed s1 @ concat (map (\<lambda>y. map (Pair y) (up_script y (pending_revisions cfg y s1))) ?l)"
      "\<And>y. in_memory_applied s' y = in_memory_applied s1 y @
        (if y \<in> set xs then map rv_revision_id (pending_revisions cfg y s1) else [])" by blast
  let ?f = "\<lambda>u y. map (Pair y) (up_script y (pending_revisions cfg y u))"
  have none: "?f s1 x = []" "length (pending_revisions cfg x s1) = 0" by (simp_all add: pend up_script_def)
  have "concat (map (?f s1) ?l) = concat (map (?f s) (filter (\<lambda>y. y \<noteq> x) ?l))"
    unfolding concat_map_skip [where f = "?f s1", OF none(1), of ?l, symmetric]
    by (intro arg_cong [where f = concat] map_cong) (auto simp: pend)
  moreover have "(\<Sum>y\<leftarrow>?l. length (pending_revisions cfg y s1)) =
      (\<Sum>y\<leftarrow>filter (\<lambda>y. y \<noteq> x) ?l. length (pending_revisions cfg y s))"
    unfolding sum_map_skip [where f = "\<lambda>y. length (pending_revisions cfg y s1)", OF none(2), of ?l, symmetric]
    by (intro arg_cong [where f = sum_list] map_cong) (auto simp: pend)
  ultimately show ?case
    using s1 s' by (intro Cons.prems(1) [of s'])
      (auto simp: v(1) remdups_snoc op_bind_apply op_simps pend simp del: rev.simps)
qed

lemma migrate_all_nothing:
  assumes "\<forall>t \<in> set ts. \<exists>schema. validated_schema t = Inr schema \<and> pending_revisions cfg schema s = []"
  shows "migrate_all cfg ts s = (Inr 0, s)"
  using assms
proof (induction ts)
  case (Cons t ts)
  then obtain schema where "validated_schema t = Inr schema" "pending_revisions cfg schema s = []" by auto
  then have "migrate_tenant cfg t s = (Inr 0, s)" by (simp add: migrate_tenant_def op_bind_lift)
  with Cons show ?case by (simp add: op_bind_apply op_simps)
qed (simp add: op_return_def)

section \<open>Properties\<close>

lemma validated_schema_iff:
  "validated_schema t = Inr schema \<longleftrightarrow> (\<exists>n. uuid_of_str (tn_tenant_id t) = Inr n \<and> schema = ''tenant_'' @ uuid_hex n)"
  "uuid_of_str (tn_tenant_id t) = Inl e \<Longrightarrow> validated_schema t = Inl e"
proof -
  have "list_all is_lower_hex (uuid_hex k)" for k
    using hex_of_lower by (auto simp: uuid_hex_def list_all_iff is_lower_hex_def)
  then have "schema_name_matches (''tenant_'' @ uuid_hex k)" for k
    by (simp add: schema_name_matches_def str_startswith_def rx_fullmatch_def uuid_hex_def)
  then show "validated_schema t = Inr schema \<longleftrightarrow> (\<exists>n. uuid_of_str (tn_tenant_id t) = Inr n \<and> schema = ''tenant_'' @ uuid_hex n)"
    "uuid_of_str (tn_tenant_id t) = Inl e \<Longrightarrow> validated_schema t = Inl e"
    by (auto simp: validated_schema_def schema_name_def res_bind_eq_Inr)
qed

text \<open>C13: Provisioning stays in the schemas of the tenants it is given. Whatever calls are made, whatever
  the SQL artifacts contain and wherever the executor fails, every statement is handed to the
  executor while the active schema is tenant_ and the 32 lowercase hexadecimal digits of the UUID
  of a tenant named in the calls. A tenant whose identifier is not a UUID gets no statement: to
  create its schema, to roll it back, or to migrate a list that starts with it raises and leaves
  everything as it was. The search path of a statement is set by the executor, which may differ
  from the active schema: the command line's runs CREATE SCHEMA in public.\<close>

theorem provisioning_confined:
  assumes "s = fold (provisioning_step cfg) calls SchemaProvisioner"
  shows "list_all (\<lambda>(schema, st). \<exists>c t n h. c \<in> set calls \<and> t \<in> set (call_tenants c) \<and>
      uuid_of_str (tn_tenant_id t) = Inr n \<and> h = uuid_hex n \<and> schema = ''tenant_'' @ h \<and> length h = 32 \<and>
      list_all (\<lambda>c. is_digit c \<or> in_range 97 102 c) h) (pv_executed s) \<and>
    (\<forall>t e s. uuid_of_str (tn_tenant_id t) = Inl e \<longrightarrow>
      create_tenant_schema cfg t s = (Inl e, s) \<and> downgrade cfg t target s = (Inl e, s) \<and>
      migrate_all cfg (t # ts) s = (Inl e, s))"
proof (intro conjI allI impI)
  let ?S = "schemas_of (concat (map call_tenants calls))"
  have "ran_in ?S [] s"
    unfolding assms by (rule run_ran_in) (simp_all add: ran_in_def SchemaProvisioner_def)
  then have "list_all (\<lambda>(schema, st). schema \<in> ?S) (pv_executed s)" by (auto simp: ran_in_def)
  then show "list_all (\<lambda>(schema, st). \<exists>c t n h. c \<in> set calls \<and> t \<in> set (call_tenants c) \<and>
      uuid_of_str (tn_tenant_id t) = Inr n \<and> h = uuid_hex n \<and> schema = ''tenant_'' @ h \<and> length h = 32 \<and>
      list_all (\<lambda>c. is_digit c \<or> in_range 97 102 c) h) (pv_executed s)"
    using hex_of_lower
    by (elim list.pred_mono_strong)
      (fastforce simp: schemas_of_def validated_schema_iff(1) uuid_hex_def list_all_iff)
qed (simp_all add: not_validated validated_schema_iff(2) op_bind_apply)

text \<open>C14: Migration is complete and idempotent. Suppose the database accepts every statement, the
  provisioner keeps its own record of applied revisions (no loader), and every tenant of the list
  has a UUID. Then migrating the list executes, for each schema when it is first reached, exactly
  the version table DDL, the up statements of each revision not yet applied there in their order
  and the row recording it, and nothing for a schema with no such revision; it returns the number
  of revisions applied, records them, leaves none pending, and migrating the same list again
  executes nothing and returns 0.\<close>

theorem migration_idempotent:
  assumes "reliable cfg" "pc_load_applied cfg = None" "map validated_schema ts = map Inr schemas"
    and "xs = rev (remdups (rev schemas))"
    and "pend = (\<lambda>x. filter (\<lambda>r. rv_revision_id r \<notin> set (in_memory_applied s x)) (pc_revisions cfg))"
  shows "\<exists>s'. migrate_all cfg ts s = (Inr (\<Sum>x\<leftarrow>xs. length (pend x)), s') \<and>
    pv_executed s' = pv_executed s @ concat (map (\<lambda>x. map (Pair x) (up_script x (pend x))) xs) \<and>
    (\<forall>x. in_memory_applied s' x = in_memory_applied s x @ (if x \<in> set schemas then map rv_revision_id (pend x) else [])) \<and>
    (\<forall>x \<in> set schemas. pending cfg x s' = []) \<and> migrate_all cfg ts s' = (Inr 0, s')"
proof -
  have pend: "pend x = pending_revisions cfg x s" for x using assms(2,5) by (simp add: pending_in_memory)
  from migrate_all_reliable [OF assms(1-3), of s] obtain s' where
    run: "migrate_all cfg ts s = (Inr (\<Sum>x\<leftarrow>xs. length (pend x)), s')"
      "pv_executed s' = pv_executed s @ concat (map (\<lambda>x. map (Pair x) (up_script x (pend x))) xs)"
    and mem: "\<And>x. in_memory_applied s' x = in_memory_applied s x @
      (if x \<in> set schemas then map rv_revision_id (pend x) else [])"
    unfolding pend assms(4) by blast
  have none: "pending_revisions cfg x s' = []" if "x \<in> set schemas" for x
    using that assms(2,5) mem [of x] by (auto simp: pending_in_memory filter_empty_conv)
  have "\<exists>x. validated_schema t = Inr x \<and> pending_revisions cfg x s' = []" if "t \<in> set ts" for t
  proof -
    from that have "validated_schema t \<in> Inr ` set schemas" using assms(3) by (metis image_eqI set_map)
    with none show ?thesis by auto
  qed
  then have "migrate_all cfg ts s' = (Inr 0, s')" by (intro migrate_all_nothing) blast
  with run mem none show ?thesis by (intro exI [of _ s']) (simp add: pending_def)
qed

definition sample_config :: provisioner_config where
  "sample_config =
     \<lparr>pc_template_sql = ''CREATE TABLE a; CREATE TABLE b;'', pc_executor = (\<lambda>_ _ _. Inr ()),
      pc_revisions = [\<lparr>rv_revision_id = ''001_x'', rv_up_sql = ''U'', rv_down_sql = ''D''\<rparr>],
      pc_load_applied = None\<rparr>"

lemma sample_config_reliable: "reliable sample_config" "pc_load_applied sample_config = None"
  by (simp_all add: reliable_def sample_config_def)

lemma validated_schema_uuid:
  "tn_tenant_id t = uuid_str n \<Longrightarrow> validated_schema t = Inr (''tenant_'' @ uuid_hex (n mod 16 ^ 32))"
  by (simp add: validated_schema_iff uuid_roundtrip)

lemma sample_schema: "validated_schema (sample_tenant 7 ''st-anna'') = Inr (''tenant_'' @ uuid_hex 7)"
  using validated_schema_uuid [of "sample_tenant 7 ''st-anna''" 7] by (simp add: sample_tenant_def)

lemma create_reliable:
  assumes "reliable cfg" "validated_schema t = Inr schema" "pc_template_sql cfg \<noteq> []"
  shows "create_tenant_schema cfg t s = (Inr schema, noted schema ''000_template''
    (ran ((''CREATE SCHEMA IF NOT EXISTS '' @ schema) # statements (pc_template_sql cfg)) (s\<lparr>pv_active_schema := schema\<rparr>)))"
  using assms
  by (simp add: create_tenant_schema_def op_bind_lift op_bind_apply activate_def op_simps execute_reliable
      execute_all_reliable record_revision_def ran_append noted_def [symmetric])

lemma sample_statements: "statements (pc_template_sql sample_config) = [''CREATE TABLE a'', ''CREATE TABLE b'']"
  "pc_template_sql sample_config \<noteq> []"
  by code_simp+

theorem provisioning_confined_witness:
  "let t = sample_tenant 7 ''st-anna''; s = fold (provisioning_step sample_config) [CreateSchema t] SchemaProvisioner in
   length (pv_executed s) = 3 \<and>
   list_all (\<lambda>(schema, st). \<exists>n. uuid_of_str (tn_tenant_id t) = Inr n \<and> schema = ''tenant_'' @ uuid_hex n) (pv_executed s) \<and>
   create_tenant_schema sample_config (t\<lparr>tn_tenant_id := ''x''\<rparr>) s = (Inl ValueError, s)"
proof -
  let ?t = "sample_tenant 7 ''st-anna''"
  define s where "s = fold (provisioning_step sample_config) [CreateSchema ?t] SchemaProvisioner"
  have "length (pv_executed s) = 3"
    using create_reliable [OF sample_config_reliable(1) sample_schema sample_statements(2), of SchemaProvisioner]
    by (simp add: s_def noted_def SchemaProvisioner_def sample_statements)
  moreover have "uuid_of_str ''x'' = Inl ValueError" by code_simp
  ultimately show ?thesis
    using provisioning_confined [OF s_def, of "[]" "[]"] unfolding Let_def s_def [symmetric]
    by (auto elim!: list.pred_mono_strong)
qed

theorem migration_idempotent_witness:
  "let x = ''tenant_'' @ uuid_hex 7; t = sample_tenant 7 ''st-anna'' in
   \<exists>s'. migrate_all sample_config [t, t] SchemaProvisioner = (Inr 1, s') \<and>
     pv_executed s' = map (Pair x) [meta_table_ddl x, ''U'', insert_meta x ''001_x''] \<and>
     migrate_all sample_config [t, t] s' = (Inr 0, s')"
proof -
  define x where "x = ''tenant_'' @ uuid_hex 7"
  define pend where "pend = (\<lambda>y. filter (\<lambda>r. rv_revision_id r \<notin> set (in_memory_applied SchemaProvisioner y)) (pc_revisions sample_config))"
  let ?t = "sample_tenant 7 ''st-anna''"
  have "map validated_schema [?t, ?t] = map Inr [x, x]" by (simp add: sample_schema x_def)
  note run = migration_idempotent [OF sample_config_reliable this refl pend_def]
  have "pend y = [\<lparr>rv_revision_id = ''001_x'', rv_up_sql = ''U'', rv_down_sql = ''D''\<rparr>]" for y
    by (simp add: pend_def in_memory_applied_def SchemaProvisioner_def sample_config_def)
  moreover have "filter (\<lambda>st. st \<noteq> []) (map str_strip (str_split CHR '';'' ''U'')) = [''U'']" by code_simp
  ultimately show ?thesis
    using run unfolding Let_def x_def [symmetric]
    by (auto simp: up_script_def meta_table_ddl_def insert_meta_def) (simp add: SchemaProvisioner_def)
qed

text \<open>A failing tenant stops the migration. When a tenant's migration raises, the whole run
  raises with the state it left, so no tenant that comes later is migrated; the tenants before it
  keep what was applied to them.\<close>

theorem migration_stops_at_failure:
  assumes "migrate_all cfg before s = (Inr n, s1)" "migrate_tenant cfg t s1 = (Inl e, s2)"
  shows "migrate_all cfg (before @ t # later) s = (Inl e, s2)"
  using assms(1)
proof (induction before arbitrary: s n)
  case Nil
  with assms(2) show ?case by (simp add: op_return_def op_bind_def)
next
  case (Cons u before)
  from Cons.prems obtain k s' m where "migrate_tenant cfg u s = (Inr k, s')" "migrate_all cfg before s' = (Inr m, s1)"
    by (auto simp: op_bind_def op_return_def split: prod.splits sum.splits)
  with Cons.IH show ?case by (simp add: op_bind_apply)
qed

theorem migration_stops_at_failure_witness:
  "let cfg = sample_config\<lparr>pc_executor := (\<lambda>_ _ n. if n = 0 then Inl CallbackError else Inr ())\<rparr> in
   fst (migrate_all cfg ([] @ sample_tenant 7 ''st-anna'' # [sample_tenant 9 ''st-anna'']) SchemaProvisioner) =
     Inl ProvisioningError"
proof -
  let ?cfg = "sample_config\<lparr>pc_executor := (\<lambda>_ _ n. if n = 0 then Inl CallbackError else Inr ())\<rparr>"
  let ?t = "sample_tenant 7 ''st-anna''"
  obtain s2 where f: "migrate_tenant ?cfg ?t SchemaProvisioner = (Inl ProvisioningError, s2)"
    by (simp add: migrate_tenant_def op_bind_lift sample_schema Let_def pending_revisions_def applied_revisions_def
        sample_config_def in_memory_applied_def SchemaProvisioner_def op_bind_apply activate_def op_simps execute_def)
  have "migrate_all ?cfg [] SchemaProvisioner = (Inr 0, SchemaProvisioner)" by (simp add: op_return_def)
  from migration_stops_at_failure [OF this f, of "[sample_tenant 9 ''st-anna'']"] show ?thesis
    by (simp add: Let_def)
qed

section \<open>Rolling back\<close>

text \<open>What a rollback is to execute for a list of revisions, the first to be undone first.\<close>

definition down_script :: "string \<Rightarrow> revision list \<Rightarrow> string list" where
  "down_script schema rs =
     concat (map (\<lambda>r. filter (\<lambda>st. st \<noteq> []) (map str_strip (str_split CHR '';'' (rv_down_sql r))) @
       [''DELETE FROM '' @ schema @ ''.jol_schema_meta WHERE revision = '' @ [CHR 0x27] @ rv_revision_id r @ [CHR 0x27]]) rs)"

lemma undo_reliable:
  assumes "reliable cfg" "find_revision cfg (rv_revision_id r) = Some r" "rv_down_sql r \<noteq> []"
  obtains s' where "undo_revision cfg schema (rv_revision_id r) s = (Inr (), s')"
    "pv_active_schema s' = pv_active_schema s"
    "pv_executed s' = pv_executed s @ map (Pair (pv_active_schema s)) (down_script schema [r])"
    "\<And>x. in_memory_applied s' x =
       (if x = schema then remove1 (rv_revision_id r) (in_memory_applied s schema) else in_memory_applied s x)"
proof -
  let ?i = "rv_revision_id r"
  let ?s = "ran (down_script schema [r]) s"
  let ?s' = "case dict_get (pv_applied s) schema of
      None \<Rightarrow> ?s | Some rs \<Rightarrow> ?s\<lparr>pv_applied := dict_set schema (remove1 ?i rs) (pv_applied ?s)\<rparr>"
  have "undo_revision cfg schema ?i s = (Inr (), ?s')"
    using assms
    by (simp add: undo_revision_def op_bind_apply op_simps execute_all_reliable execute_reliable ran_append
        down_script_def statements_def delete_meta_def split: option.split)
  then show thesis
    by (rule that) (auto simp: in_memory_applied_def dict_get_set split: option.splits)
qed

lemma undo_all_reliable:
  assumes "reliable cfg" "list_all (\<lambda>r. find_revision cfg (rv_revision_id r) = Some r \<and> rv_down_sql r \<noteq> []) rs"
  obtains s' where "op_each (undo_revision cfg schema) (map rv_revision_id rs) s = (Inr (), s')"
    "pv_executed s' = pv_executed s @ map (Pair (pv_active_schema s)) (down_script schema rs)"
    "\<And>x. in_memory_applied s' x =
       (if x = schema then fold remove1 (map rv_revision_id rs) (in_memory_applied s schema) else in_memory_applied s x)"
  using assms(2)
proof (induction rs arbitrary: s thesis)
  case Nil
  then show ?case by (simp add: op_return_def down_script_def)
next
  case (Cons r rs)
  from Cons.prems(2) obtain s1 where
    s1: "undo_revision cfg schema (rv_revision_id r) s = (Inr (), s1)" "pv_active_schema s1 = pv_active_schema s"
      "pv_executed s1 = pv_executed s @ map (Pair (pv_active_schema s)) (down_script schema [r])"
      "\<And>x. in_memory_applied s1 x =
        (if x = schema then remove1 (rv_revision_id r) (in_memory_applied s schema) else in_memory_applied s x)"
    using undo_reliable [OF assms(1), of r schema s] by auto
  from Cons.IH [of s1] Cons.prems(2) obtain s' where
    s': "op_each (undo_revision cfg schema) (map rv_revision_id rs) s1 = (Inr (), s')"
      "pv_executed s' = pv_executed s1 @ map (Pair (pv_active_schema s1)) (down_script schema rs)"
      "\<And>x. in_memory_applied s' x =
        (if x = schema then fold remove1 (map rv_revision_id rs) (in_memory_applied s1 schema) else in_memory_applied s1 x)"
    by auto
  show ?case
    by (rule Cons.prems(1) [of s']) (use s1 s' in \<open>auto simp: op_bind_apply down_script_def\<close>)
qed

lemma fold_remove1: "distinct xs \<Longrightarrow> fold remove1 ys xs = filter (\<lambda>x. x \<notin> set ys) xs"
proof (induction ys arbitrary: xs)
  case (Cons y ys)
  then show ?case by (auto simp: distinct_remove1_removeAll removeAll_filter_not_eq conj_commute intro: filter_cong)
qed simp

lemma find_revision_distinct:
  assumes "distinct (map rv_revision_id (pc_revisions cfg))" "r \<in> set (pc_revisions cfg)"
  shows "find_revision cfg (rv_revision_id r) = Some r"
proof (cases "find_revision cfg (rv_revision_id r)")
  case None
  with assms(2) show ?thesis by (auto simp: find_revision_def find_None_iff)
next
  case (Some q)
  then have "q \<in> set (pc_revisions cfg)" "rv_revision_id q = rv_revision_id r"
    unfolding find_revision_def find_Some_iff by (metis length_rev nth_mem set_rev)+
  with Some assms show ?thesis by (auto simp: distinct_map inj_on_def)
qed

lemma downgrade_reliable:
  assumes "reliable cfg" "pc_load_applied cfg = None" "validated_schema t = Inr schema"
    and "target = [] \<or> target \<in> set (in_memory_applied s schema)"
    and "filter (\<lambda>i. target < i) (rev (in_memory_applied s schema)) = map rv_revision_id rs"
    and "list_all (\<lambda>r. find_revision cfg (rv_revision_id r) = Some r \<and> rv_down_sql r \<noteq> []) rs"
  obtains s' where "downgrade cfg t target s = (Inr (length rs), s')"
    "pv_executed s' = pv_executed s @ map (Pair schema) (down_script schema rs)"
    "\<And>x. in_memory_applied s' x =
       (if x = schema then fold remove1 (map rv_revision_id rs) (in_memory_applied s schema) else in_memory_applied s x)"
proof -
  let ?s = "s\<lparr>pv_active_schema := schema\<rparr>"
  from undo_all_reliable [OF assms(1,6), of schema ?s] obtain s' where
    s': "op_each (undo_revision cfg schema) (map rv_revision_id rs) ?s = (Inr (), s')"
      "pv_executed s' = pv_executed ?s @ map (Pair (pv_active_schema ?s)) (down_script schema rs)"
      "\<And>x. in_memory_applied s' x = (if x = schema then fold remove1 (map rv_revision_id rs) (in_memory_applied ?s schema)
         else in_memory_applied ?s x)" by blast
  show thesis
  proof (rule that [of s'])
    show "downgrade cfg t target s = (Inr (length rs), s')"
      using assms(2-5) s'(1)
      by (auto simp: downgrade_def op_bind_lift applied_revisions_def Let_def op_bind_apply activate_def op_simps)
  qed (use s'(2,3) in simp_all)
qed

text \<open>C34: Migrating and rolling back is a round trip. Suppose the database accepts every statement, the
  provisioner keeps its own record (no loader), the tenant has a UUID, and revision identifiers
  are distinct. Take a schema whose recorded revisions, each once, are not above a target that is
  one of them, or the empty target, and let every revision not recorded be above the target and
  have a rollback artifact. Then migrating the tenant and downgrading it to the target executes,
  in its schema, the version table DDL with the up statements and the recording row of each of
  these revisions in order, and then, newest first, the down statements of each and the DELETE of
  its row, and nothing else; both calls return the number of these revisions, and the record of
  every schema and what is pending are as they were.\<close>

theorem migrate_downgrade_roundtrip:
  assumes "reliable cfg" "pc_load_applied cfg = None" "validated_schema t = Inr schema"
    and "target = [] \<or> target \<in> set (in_memory_applied s schema)"
    and "distinct (in_memory_applied s schema)" "distinct (map rv_revision_id (pc_revisions cfg))"
    and "list_all (\<lambda>i. i \<le> target) (in_memory_applied s schema)"
    and "pend = filter (\<lambda>r. rv_revision_id r \<notin> set (in_memory_applied s schema)) (pc_revisions cfg)"
    and "list_all (\<lambda>r. target < rv_revision_id r \<and> rv_down_sql r \<noteq> []) pend"
  shows "\<exists>s1 s2. migrate_all cfg [t] s = (Inr (length pend), s1) \<and> pending cfg schema s1 = [] \<and>
    downgrade cfg t target s1 = (Inr (length pend), s2) \<and>
    pv_executed s1 = pv_executed s @ map (Pair schema) (up_script schema pend) \<and>
    pv_executed s2 = pv_executed s1 @ map (Pair schema) (down_script schema (rev pend)) \<and>
    in_memory_applied s2 = in_memory_applied s \<and> pending cfg schema s2 = pending cfg schema s"
proof -
  let ?a = "in_memory_applied s schema" and ?p = "map rv_revision_id pend"
  have pend: "pend = pending_revisions cfg schema s" using assms(2,8) by (simp add: pending_in_memory)
  from migrate_tenant_reliable [OF assms(1-3) pend] obtain s1 where
    s1: "migrate_tenant cfg t s = (Inr (length pend), s1)"
      "pv_executed s1 = pv_executed s @ map (Pair schema) (up_script schema pend)"
      "\<And>x. in_memory_applied s1 x = in_memory_applied s x @ (if x = schema then ?p else [])" by blast
  have dis: "distinct (?a @ ?p)" using assms(5,6,8) by (auto simp: distinct_map_filter)
  have above: "filter (\<lambda>i. target < i) (rev (?a @ ?p)) = map rv_revision_id (rev pend)"
    using assms(7,9) by (auto simp: list_all_iff filter_empty_conv filter_id_conv not_less rev_map)
  have undone: "fold remove1 (map rv_revision_id (rev pend)) (?a @ ?p) = ?a"
    unfolding fold_remove1 [OF dis] using dis by (auto simp: filter_empty_conv filter_id_conv)
  have applied: "in_memory_applied s1 schema = ?a @ ?p" using s1(3) [of schema] by simp
  have down: "list_all (\<lambda>r. find_revision cfg (rv_revision_id r) = Some r \<and> rv_down_sql r \<noteq> []) (rev pend)"
    using assms(6,8,9) by (auto simp: list_all_iff find_revision_distinct)
  have "target = [] \<or> target \<in> set (in_memory_applied s1 schema)" using assms(4) applied by auto
  from downgrade_reliable [OF assms(1-3) this above [folded applied] down] obtain s2 where
    s2: "downgrade cfg t target s1 = (Inr (length (rev pend)), s2)"
      "pv_executed s2 = pv_executed s1 @ map (Pair schema) (down_script schema (rev pend))"
      "\<And>x. in_memory_applied s2 x = (if x = schema then ?a else in_memory_applied s1 x)"
    unfolding applied undone by blast
  have "in_memory_applied s2 x = in_memory_applied s x" for x using s2(3) [of x] s1(3) [of x] by simp
  then have same: "in_memory_applied s2 = in_memory_applied s" by blast
  have "pending cfg schema s1 = []"
    using s1(3) [of schema] assms(2,8) by (auto simp: pending_def pending_in_memory filter_empty_conv)
  with s1 s2(1,2) same assms(2) show ?thesis by (simp add: pending_def pending_in_memory op_bind_apply op_simps)
qed

theorem migrate_downgrade_roundtrip_witness:
  "let x = ''tenant_'' @ uuid_hex 7; t = sample_tenant 7 ''st-anna'' in
   \<exists>s1 s2. migrate_all sample_config [t] SchemaProvisioner = (Inr 1, s1) \<and>
    downgrade sample_config t [] s1 = (Inr 1, s2) \<and>
    map snd (pv_executed s2) = [meta_table_ddl x, ''U'', insert_meta x ''001_x'', ''D'', delete_meta x ''001_x''] \<and>
    pending sample_config x s2 = [''001_x'']"
proof -
  define x where "x = ''tenant_'' @ uuid_hex 7"
  let ?r = "\<lparr>rv_revision_id = ''001_x'', rv_up_sql = ''U'', rv_down_sql = ''D''\<rparr>"
  have a: "in_memory_applied SchemaProvisioner y = []" for y
    by (simp add: in_memory_applied_def SchemaProvisioner_def)
  have p: "pending sample_config y SchemaProvisioner = [''001_x'']" for y
    by (simp add: pending_def pending_revisions_def applied_revisions_def a sample_config_def)
  have "[?r] = filter (\<lambda>r. rv_revision_id r \<notin> set (in_memory_applied SchemaProvisioner x)) (pc_revisions sample_config)"
    by (simp add: a sample_config_def)
  from migrate_downgrade_roundtrip [OF sample_config_reliable sample_schema [folded x_def] _ _ _ _ this, of "[]"]
  obtain s1 s2 where run: "migrate_all sample_config [sample_tenant 7 ''st-anna''] SchemaProvisioner = (Inr 1, s1)"
    "downgrade sample_config (sample_tenant 7 ''st-anna'') [] s1 = (Inr 1, s2)"
    "pv_executed s1 = map (Pair x) (up_script x [?r])" "pv_executed s2 = pv_executed s1 @ map (Pair x) (down_script x [?r])"
    "pending sample_config x s2 = [''001_x'']"
    by (auto simp: a p) (auto simp: sample_config_def SchemaProvisioner_def)
  have "filter (\<lambda>st. st \<noteq> []) (map str_strip (str_split CHR '';'' ''U'')) = [''U'']"
    "filter (\<lambda>st. st \<noteq> []) (map str_strip (str_split CHR '';'' ''D'')) = [''D'']" by code_simp+
  with run(3,4) have "map snd (pv_executed s2) = [meta_table_ddl x, ''U'', insert_meta x ''001_x'', ''D'', delete_meta x ''001_x'']"
    by (simp add: up_script_def down_script_def meta_table_ddl_def insert_meta_def delete_meta_def)
  with run(1,2,5) show ?thesis unfolding Let_def x_def [symmetric] by (intro exI conjI)
qed

text \<open>The schema template is recorded as revision 000_template, which has no rollback artifact, so
  rolling a freshly created schema back to the empty target fails after nothing was undone.\<close>

lemma fresh_schema_cannot_be_emptied:
  assumes "reliable cfg" "pc_load_applied cfg = None" "validated_schema t = Inr schema" "pc_template_sql cfg \<noteq> []"
    and "find_revision cfg ''000_template'' = None"
  shows "fst (op_bind (create_tenant_schema cfg t) (\<lambda>_. downgrade cfg t []) SchemaProvisioner) = Inl ProvisioningError"
proof -
  have "fst (downgrade cfg t [] s) = Inl ProvisioningError" if "in_memory_applied s schema = [''000_template'']" for s
    using that assms(2,3,5)
    by (simp add: downgrade_def op_bind_lift applied_revisions_def op_bind_apply activate_def op_simps undo_revision_def)
  moreover have "in_memory_applied (SchemaProvisioner\<lparr>pv_active_schema := schema\<rparr>) schema = []"
    by (simp add: in_memory_applied_def SchemaProvisioner_def)
  ultimately show ?thesis
    using create_reliable [OF assms(1,3,4), of SchemaProvisioner]
    by (simp add: op_bind_apply in_memory_noted)
qed

end
