(* ===== verification/Audit_Export.thy ===== *)
theory Audit_Export
  imports Audit_Log Json_Reader
begin

text \<open>
  The audit export of \<open>db/provisioning/cli.py\<close> (\<open>export_entries_jsonl\<close>) and the command
  \<open>jol-cli audit verify\<close> (\<open>_audit_verify\<close>) that reads an export back and verifies its hash
  chain. The text of the export file is an argument, None when the file does not exist; what a
  missing \<open>entry_id\<close> or \<open>timestamp\<close> defaults to (\<open>uuid4\<close>, the clock) is a parameter.
\<close>

section \<open>Exporting\<close>

text \<open>\<open>json.dumps\<close> without a default raises TypeError on a value JSON does not know.\<close>

fun json_native :: "pyval \<Rightarrow> bool" where
  "json_native (POther s) = False"
| "json_native (PList vs) = list_all json_native vs"
| "json_native (PDict ms) = list_all (\<lambda>(k, v). json_native v) ms"
| "json_native v = True"

definition export_entries_jsonl :: "audit_entry list \<Rightarrow> string result" where
  "export_entries_jsonl entries =
     (if list_all (\<lambda>e. json_native (entry_asdict e)) entries
      then Inr (str_join [CHR 0x0A] (map (\<lambda>e. json_dumps (entry_asdict e)) entries) @ [CHR 0x0A])
      else Inl TypeError)"

section \<open>Reading an export\<close>

definition is_line_break :: "char \<Rightarrow> bool" where
  "is_line_break c \<longleftrightarrow> in_range 10 13 c \<or> in_range 28 30 c \<or> c = CHR 0x85"

text \<open>\<open>str.splitlines\<close>: a carriage return and a line feed together end one line.\<close>

fun str_splitlines :: "string \<Rightarrow> string list" where
  "str_splitlines [] = []"
| "str_splitlines (c # s) =
     (if c = CHR 0x0D \<and> s \<noteq> [] \<and> hd s = CHR 0x0A then str_splitlines s
      else if is_line_break c then [] # str_splitlines s
      else (case str_splitlines s of [] \<Rightarrow> [[c]] | w # ws \<Rightarrow> (c # w) # ws))"

definition audit_entry_fields :: "string list" where
  "audit_entry_fields =
     [''entry_id'', ''timestamp'', ''actor'', ''event_type'', ''outcome'', ''transaction_ref'',
      ''correlation_id'', ''entity_type'', ''entity_id'', ''ip_address'', ''user_agent'', ''details'',
      ''previous_hash'']"

definition str_field :: "(string, pyval) dict \<Rightarrow> string \<Rightarrow> string \<Rightarrow> string reading" where
  "str_field ms k absent =
     (case dict_get ms k of None \<Rightarrow> read_ok absent | Some (PStr s) \<Rightarrow> read_ok s | Some _ \<Rightarrow> None)"

definition dict_field :: "(string, pyval) dict \<Rightarrow> string \<Rightarrow> (string, pyval) dict reading" where
  "dict_field ms k = (case dict_get ms k of None \<Rightarrow> read_ok [] | Some (PDict d) \<Rightarrow> read_ok d | Some _ \<Rightarrow> None)"


text \<open>\<open>AuditEntry(**json.loads(line))\<close>: an unknown field, or a line that is not an object, is a
  TypeError. A field of another JSON type than the declared one is outside the model.\<close>

definition AuditEntry_of :: "string \<times> string \<Rightarrow> pyval \<Rightarrow> audit_entry reading" where
  "AuditEntry_of fresh v =
     (case v of
        PDict ms \<Rightarrow>
          if list_all (\<lambda>k. k \<in> set audit_entry_fields) (map fst ms) then
            read_bind (str_field ms ''entry_id'' (fst fresh)) (\<lambda>entry_id.
            read_bind (str_field ms ''timestamp'' (snd fresh)) (\<lambda>timestamp.
            read_bind (str_field ms ''actor'' []) (\<lambda>actor.
            read_bind (str_field ms ''event_type'' []) (\<lambda>event_type.
            read_bind (str_field ms ''outcome'' []) (\<lambda>outcome.
            read_bind (str_field ms ''transaction_ref'' []) (\<lambda>transaction_ref.
            read_bind (str_field ms ''correlation_id'' []) (\<lambda>correlation_id.
            read_bind (str_field ms ''entity_type'' []) (\<lambda>entity_type.
            read_bind (str_field ms ''entity_id'' []) (\<lambda>entity_id.
            read_bind (str_field ms ''ip_address'' []) (\<lambda>ip_address.
            read_bind (str_field ms ''user_agent'' []) (\<lambda>user_agent.
            read_bind (dict_field ms ''details'') (\<lambda>details.
            read_bind (str_field ms ''previous_hash'' []) (\<lambda>previous_hash.
              read_ok \<lparr>ae_entry_id = entry_id, ae_timestamp = timestamp, ae_actor = actor,
                ae_event_type = event_type, ae_outcome = outcome, ae_transaction_ref = transaction_ref,
                ae_correlation_id = correlation_id, ae_entity_type = entity_type, ae_entity_id = entity_id,
                ae_ip_address = ip_address, ae_user_agent = user_agent, ae_details = details,
                ae_previous_hash = previous_hash\<rparr>)))))))))))))
          else Some (Inl TypeError)
      | _ \<Rightarrow> Some (Inl TypeError))"

fun read_entries :: "(nat \<Rightarrow> string \<times> string) \<Rightarrow> nat \<Rightarrow> string list \<Rightarrow> audit_entry list reading" where
  "read_entries fresh i [] = read_ok []"
| "read_entries fresh i (l # ls) =
     read_bind (json_loads l) (\<lambda>v.
     read_bind (AuditEntry_of (fresh i) v) (\<lambda>e.
     read_bind (read_entries fresh (Suc i) ls) (\<lambda>es. read_ok (e # es))))"

text \<open>The exit code of the command and the report it prints.\<close>

definition audit_verify ::
    "(string \<Rightarrow> string) \<Rightarrow> (nat \<Rightarrow> string \<times> string) \<Rightarrow> string option \<Rightarrow> string \<Rightarrow> (nat \<times> chain_report) reading" where
  "audit_verify sha fresh export head_hash =
     (case export of
        None \<Rightarrow> Some (Inl FileNotFoundError)
      | Some text \<Rightarrow>
          read_bind (read_entries fresh 0 (filter (\<lambda>l. str_strip l \<noteq> []) (str_splitlines text))) (\<lambda>entries.
            let report = verify_chain sha entries head_hash in
            read_ok (if is_intact report then 0 else 2, report)))"

section \<open>What is exported can be read\<close>

definition printable :: "char \<Rightarrow> bool" where
  "printable c \<longleftrightarrow> in_range 32 126 c"

lemma printable_chars: "list_all printable (json_char c)" "list_all printable (str_of_int i)"
proof -
  have "printable (hex_digit n)" if "n < 16" for n
    using that by (simp add: printable_def in_range_def hex_digit_def of_char_of)
  moreover have "(of_char c :: nat) div 16 < 16" "(of_char c :: nat) mod 16 < 16"
    using of_char_less [of c] by (simp_all add: less_mult_imp_div_less)
  ultimately show "list_all printable (json_char c)"
    by (simp add: json_char_def Let_def printable_def in_range_def)
  have "is_digit c \<Longrightarrow> printable c" for c by (simp add: printable_def char_class_defs)
  then show "list_all printable (str_of_int i)"
    using str_of_nat_digits by (auto simp: str_of_int_def list_all_iff printable_def in_range_def)
qed

lemma printable_string: "list_all printable (json_string s)"
  using printable_chars(1)
  by (auto simp: json_string_def json_quote_def list_all_iff printable_def in_range_def)

lemma list_all_join: "list_all P (str_join sep xs) \<longleftrightarrow> list_all (list_all P) xs" if "list_all P sep"
  using that by (induction sep xs rule: str_join.induct) auto

lemma printable_marks: "list_all printable '', ''" "list_all printable '': ''" "list_all printable ''[]{}''"
  "list_all printable ''nulltruefalse''"
  by code_simp+

lemma printable_json: "list_all printable (json_dumps v)"
proof (induction v)
  case (PList vs)
  with printable_marks show ?case by (simp add: list_all_join list.pred_map) (simp add: list_all_iff)
next
  case (PDict ms)
  with printable_marks printable_string show ?case
    unfolding json_dict_text
    by (simp add: list_all_join list.pred_map) (auto simp: list_all_iff member_text_def)
qed (use printable_marks printable_chars printable_string in \<open>simp_all\<close>)

lemma splitlines_line:
  assumes "list_all printable l"
  shows "str_splitlines (l @ CHR 0x0A # s) = l # str_splitlines s"
  using assms
proof (induction l)
  case Nil
  then show ?case by (simp add: is_line_break_def in_range_def)
next
  case (Cons c l)
  then have "\<not> is_line_break c" by (auto simp: is_line_break_def printable_def in_range_def)
  moreover from this have "c \<noteq> CHR 0x0D" by (auto simp: is_line_break_def in_range_def)
  ultimately show ?case using Cons by simp
qed

lemma splitlines_join:
  "ls \<noteq> [] \<Longrightarrow> list_all (list_all printable) ls \<Longrightarrow> str_splitlines (str_join [CHR 0x0A] ls @ [CHR 0x0A]) = ls"
  by (induction ls rule: induct_list012) (simp_all add: splitlines_line)

lemma object_not_blank: "str_strip (json_dumps (PDict ms)) \<noteq> []"
proof -
  have "\<not> is_space CHR ''{''" by code_simp
  then show ?thesis unfolding json_dict_text by (auto simp: str_strip_def str_strip_if_def dropWhile_eq_Nil_conv)
qed

text \<open>The entry that is read differs from the exported one in the order of its details at most.\<close>

definition reread :: "audit_entry \<Rightarrow> audit_entry" where
  "reread e = e\<lparr>ae_details := sort_members (map (\<lambda>(k, v). (k, sorted_keys v)) (ae_details e))\<rparr>"

lemma entry_plain: "json_plain (entry_asdict e) \<longleftrightarrow> json_plain (PDict (ae_details e))"
  by (simp add: entry_asdict_def)

lemma AuditEntry_of_sorted: "AuditEntry_of fresh (sorted_keys (entry_asdict e)) = read_ok (reread e)"
  by (simp add: entry_asdict_def sort_members_def [of "_ # _"] AuditEntry_of_def audit_entry_fields_def
      str_field_def dict_field_def reread_def)


lemma read_exported:
  assumes "list_all (\<lambda>e. json_plain (PDict (ae_details e))) es"
  shows "read_entries fresh i (map (\<lambda>e. json_dumps (entry_asdict e)) es) = read_ok (map reread es)"
  using assms
  by (induction es arbitrary: i) (simp_all add: json_loads_dumps entry_plain AuditEntry_of_sorted del: json_plain.simps)

lemma json_plain_native: "json_plain v \<Longrightarrow> json_native v"
  by (induction v rule: json_plain.induct) (auto simp: list_all_iff)

lemma nonblank_lines: "filter (\<lambda>l. str_strip l \<noteq> []) (map (\<lambda>e. json_dumps (entry_asdict e)) es) =
    map (\<lambda>e. json_dumps (entry_asdict e)) es"
  using object_not_blank by (simp add: filter_id_conv entry_asdict_def del: json_dumps.simps)

lemma export_text_read:
  assumes "list_all (\<lambda>e. json_plain (PDict (ae_details e))) es"
  shows "\<exists>text. export_entries_jsonl es = Inr text \<and>
    read_entries fresh 0 (filter (\<lambda>l. str_strip l \<noteq> []) (str_splitlines text)) = read_ok (map reread es)"
proof -
  let ?ls = "map (\<lambda>e. json_dumps (entry_asdict e)) es"
  have native: "list_all (\<lambda>e. json_native (entry_asdict e)) es"
    using assms json_plain_native entry_plain by (auto simp: list_all_iff simp del: json_plain.simps json_native.simps)
  have "filter (\<lambda>l. str_strip l \<noteq> []) (str_splitlines (str_join [CHR 0x0A] ?ls @ [CHR 0x0A])) = ?ls"
  proof (cases "es = []")
    case True
    have "filter (\<lambda>l. str_strip l \<noteq> []) (str_splitlines (str_join [CHR 0x0A] [] @ [CHR 0x0A])) = []" by code_simp
    with True show ?thesis by simp
  next
    case False
    have "list_all (list_all printable) ?ls" by (simp add: list_all_iff printable_json [unfolded list_all_iff])
    with False have "str_splitlines (str_join [CHR 0x0A] ?ls @ [CHR 0x0A]) = ?ls"
      by (intro splitlines_join) simp_all
    then show ?thesis by (simp only: nonblank_lines)
  qed
  with read_exported [OF assms] native show ?thesis by (simp add: export_entries_jsonl_def)
qed

lemma compute_hash_reread: "compute_hash sha (reread e) = compute_hash sha e"
proof -
  have "json_dumps (PDict (sort_members (map (\<lambda>(k, v). (k, sorted_keys v)) (ae_details e)))) =
      json_dumps (PDict (ae_details e))"
    using json_dumps_sorted_keys [of "PDict (ae_details e)"] by simp
  then show ?thesis
    unfolding compute_hash_def entry_content_text by (simp add: reread_def del: json_dumps.simps)
qed

lemma verify_links_reread: "verify_links sha i h (map reread es) = verify_links sha i h es"
  by (induction es arbitrary: i h) (simp_all add: compute_hash_reread, simp_all add: reread_def link_mismatch_def)

lemma verify_chain_reread: "verify_chain sha (map reread es) h = verify_chain sha es h"
proof -
  have "es \<noteq> [] \<Longrightarrow> ae_entry_id (last (map reread es)) = ae_entry_id (last es)" by (simp add: last_map reread_def)
  then show ?thesis by (auto simp: verify_chain_def verify_links_reread split: sum.split)
qed

text \<open>C9: Verifying an export is verifying the log. Any list of audit entries, intact or tampered with,
  whose details hold JSON values exports without error, and the audit verify command on the exported text,
  against any checkpoint, prints exactly the report the chain verifier gives on the entries in
  memory and exits with 0 when it is intact and with 2 when it is not. In particular the export of
  a log made by any calls of the logger exits with 0 against the logger's last hash, all entries
  counted.\<close>

theorem audit_export_verifies:
  assumes "list_all (\<lambda>e. json_plain (PDict (ae_details e))) es"
    and "list_all (\<lambda>c. json_plain (PDict (case lc_details c of None \<Rightarrow> [] | Some d \<Rightarrow> d))) cs"
  shows "(\<exists>text. export_entries_jsonl es = Inr text \<and>
      audit_verify sha fresh (Some text) head_hash =
        read_ok (if is_intact (verify_chain sha es head_hash) then 0 else 2, verify_chain sha es head_hash)) \<and>
    (let l = fold (audit_log sha) cs AuditLogger in
     \<exists>text report. export_entries_jsonl (al_entries l) = Inr text \<and>
      audit_verify sha fresh (Some text) (al_last_hash l) = read_ok (0, report) \<and>
      cr_verified_count report = length cs)"
proof -
  have any: "\<exists>text. export_entries_jsonl es = Inr text \<and> audit_verify sha fresh (Some text) h =
      read_ok (if is_intact (verify_chain sha es h) then 0 else 2, verify_chain sha es h)"
    if plain: "list_all (\<lambda>e. json_plain (PDict (ae_details e))) es" for es h
  proof -
    from export_text_read [OF plain, of fresh] obtain x where "export_entries_jsonl es = Inr x"
      "read_entries fresh 0 (filter (\<lambda>l. str_strip l \<noteq> []) (str_splitlines x)) = read_ok (map reread es)" by blast
    then show ?thesis by (simp add: audit_verify_def verify_chain_reread Let_def)
  qed
  define l where "l = fold (audit_log sha) cs AuditLogger"
  have details: "list_all (\<lambda>e. json_plain (PDict (ae_details e))) (al_entries (fold (audit_log sha) cs l0)) \<and>
      length (al_entries (fold (audit_log sha) cs l0)) = length (al_entries l0) + length cs"
    if "list_all (\<lambda>e. json_plain (PDict (ae_details e))) (al_entries l0)" for l0
    using assms(2) that
    by (induction cs arbitrary: l0) (simp_all add: al_entries_log logged_entry_def del: json_plain.simps)
  then have plain: "list_all (\<lambda>e. json_plain (PDict (ae_details e))) (al_entries l)" "length (al_entries l) = length cs"
    unfolding l_def by (simp_all add: AuditLogger_def)
  have "logger_ok sha l" unfolding l_def by (rule audit_machine.inv_run) simp
  then have "verify_links sha 0 [] (al_entries l) = Inr (al_last_hash l)"
    by (simp add: verify_links_Inr logger_ok_def)
  then have "is_intact (verify_chain sha (al_entries l) (al_last_hash l))"
    "cr_verified_count (verify_chain sha (al_entries l) (al_last_hash l)) = length cs"
    using plain(2) by (simp_all add: verify_chain_def is_intact_def)
  with any [OF assms(1)] any [OF plain(1), of "al_last_hash l"] show ?thesis
    unfolding l_def [symmetric] Let_def by auto
qed

theorem audit_export_verifies_witness:
  "\<exists>text report. export_entries_jsonl (al_entries sample_log) = Inr text \<and>
     audit_verify sample_sha (\<lambda>_. ([], [])) (Some text) (al_last_hash sample_log) = read_ok (0, report) \<and>
     cr_verified_count report = 2"
proof -
  let ?cs = "[sample_call ''a'', sample_call ''b'']"
  have "list_all (\<lambda>c. json_plain (PDict (case lc_details c of None \<Rightarrow> [] | Some d \<Rightarrow> d))) ?cs"
    by (simp add: sample_call_def)
  from audit_export_verifies [OF _ this, of "[]" sample_sha "\<lambda>_. ([], [])" "[]"] show ?thesis
    by (simp add: sample_log_def Let_def eval_nat_numeral)
qed

end
