(* ===== verification/Py_Argparse.thy ===== *)
theory Py_Argparse
  imports Py_Text
begin

text \<open>
  \<open>argparse\<close> as the command line and the report scripts use it: parsers with options of one string
  argument each, and parsers that choose a sub-command. Options may be written \<open>--opt value\<close>,
  \<open>--opt=value\<close> or with any unique prefix of their name. Every way in which \<open>parse_args\<close> leaves
  the process (usage errors with status 2, \<open>-h\<close> and \<open>--help\<close> with status 0) is the one outcome
  \<open>SystemExit\<close>: the program behind the parser does not run. The outcome \<open>None\<close> says that the
  arguments hold the separator \<open>--\<close>, whose treatment differs between the releases of Python.
\<close>

section \<open>Parsers and outcomes\<close>

record cli_option =
  co_flag :: string
  co_required :: bool
  co_default :: "string option"

type_synonym namespace = "(string, string) dict"

datatype 'a parsing = SystemExit | Parsed 'a

fun parsing_bind :: "'a parsing option \<Rightarrow> ('a \<Rightarrow> 'b parsing option) \<Rightarrow> 'b parsing option" where
  "parsing_bind None f = None"
| "parsing_bind (Some SystemExit) f = Some SystemExit"
| "parsing_bind (Some (Parsed a)) f = f a"

section \<open>Reading one argument\<close>

text \<open>What \<open>_parse_optional\<close> makes of an argument: \<open>Positional\<close> where it returns None; an option with
  the text after \<open>=\<close>, if any; or an option string that no option has, or several, or that asks for
  help.\<close>

datatype token =
    Positional
  | Opt string "string option"
  | Rejected

fun is_number_tail :: "string \<Rightarrow> bool" where
  "is_number_tail s \<longleftrightarrow>
     str_isdigit s \<or>
     (case dropWhile is_digit s of c # r \<Rightarrow> c = CHR ''.'' \<and> str_isdigit r | [] \<Rightarrow> False)"

text \<open>The pattern \<open>^-\d+$|^-\d*\.\d+$\<close>; \<open>$\<close> also matches before a last newline.\<close>

definition negative_number :: "string \<Rightarrow> bool" where
  "negative_number s \<longleftrightarrow>
     (case s of
        c # r \<Rightarrow> c = CHR ''-'' \<and> (is_number_tail r \<or> (r \<noteq> [] \<and> last r = CHR 0x0A \<and> is_number_tail (butlast r)))
      | [] \<Rightarrow> False)"

definition before_eq :: "string \<Rightarrow> string" where
  "before_eq s = takeWhile (\<lambda>c. c \<noteq> CHR ''='') s"

definition after_eq :: "string \<Rightarrow> string option" where
  "after_eq s = (case dropWhile (\<lambda>c. c \<noteq> CHR ''='') s of [] \<Rightarrow> None | _ # v \<Rightarrow> Some v)"

definition HELP :: string where
  "HELP = ''--help''"

definition option_strings :: "cli_option list \<Rightarrow> string list" where
  "option_strings opts = HELP # map co_flag opts"

definition chosen :: "string \<Rightarrow> string option \<Rightarrow> token" where
  "chosen flag v = (if flag = HELP then Rejected else Opt flag v)"

text \<open>A long option string: itself, the part before \<open>=\<close>, or the only option it abbreviates.\<close>

definition long_option :: "cli_option list \<Rightarrow> string \<Rightarrow> token" where
  "long_option opts s =
     (if s \<in> set (option_strings opts) then chosen s None
      else if after_eq s \<noteq> None \<and> before_eq s \<in> set (option_strings opts) then chosen (before_eq s) (after_eq s)
      else (case filter (\<lambda>f. str_startswith f (before_eq s)) (option_strings opts) of
              [f] \<Rightarrow> chosen f (after_eq s)
            | _ # _ # _ \<Rightarrow> Rejected
            | [] \<Rightarrow> if CHR '' '' \<in> set s then Positional else Rejected))"

definition parse_optional :: "cli_option list \<Rightarrow> string \<Rightarrow> token" where
  "parse_optional opts s =
     (if \<not> str_startswith s ''-'' \<or> s = ''-'' then Positional
      else if str_startswith s ''--'' then long_option opts s
      else if str_startswith s ''-h'' then Rejected
      else if negative_number s \<or> CHR '' '' \<in> set s then Positional
      else Rejected)"

section \<open>Parsing\<close>

text \<open>The option parser has no positional arguments: one that no option takes ends the process, as does
  a missing argument or a missing required option. The last occurrence of an option counts.\<close>

fun consume :: "cli_option list \<Rightarrow> string list \<Rightarrow> namespace \<Rightarrow> namespace parsing" where
  "consume opts [] ns =
     (if list_all (\<lambda>opt. co_required opt \<longrightarrow> dict_has ns (co_flag opt)) opts then Parsed ns else SystemExit)"
| "consume opts (a # as) ns =
     (case parse_optional opts a of
        Positional \<Rightarrow> SystemExit
      | Rejected \<Rightarrow> SystemExit
      | Opt f (Some v) \<Rightarrow> consume opts as (dict_set f v ns)
      | Opt f None \<Rightarrow>
          (case as of
             [] \<Rightarrow> SystemExit
           | v # as' \<Rightarrow>
               if parse_optional opts v = Positional then consume opts as' (dict_set f v ns) else SystemExit))"

definition is_separator :: "cli_option list \<Rightarrow> string \<Rightarrow> bool" where
  "is_separator opts a \<longleftrightarrow> a = ''--'' \<or> (case parse_optional opts a of Opt f v \<Rightarrow> v = Some ''--'' | _ \<Rightarrow> False)"

definition parse_options :: "cli_option list \<Rightarrow> string list \<Rightarrow> namespace parsing option" where
  "parse_options opts argv = (if list_ex (is_separator opts) argv then None else Some (consume opts argv []))"

text \<open>An attribute of the namespace: the value given, or the default.\<close>

definition get_arg :: "cli_option list \<Rightarrow> namespace \<Rightarrow> string \<Rightarrow> string option" where
  "get_arg opts ns flag =
     (case dict_get ns flag of
        Some v \<Rightarrow> Some v
      | None \<Rightarrow> (case filter (\<lambda>opt. co_flag opt = flag) opts of [] \<Rightarrow> None | opt # _ \<Rightarrow> co_default opt))"

text \<open>A parser with required sub-commands: the first argument must be the name of one, whose parser
  gets all the rest.\<close>

definition parse_command :: "(string \<times> (string list \<Rightarrow> 'a parsing option)) list \<Rightarrow> string list \<Rightarrow> 'a parsing option" where
  "parse_command subs argv =
     (if ''--'' \<in> set argv then None
      else (case argv of
         [] \<Rightarrow> Some SystemExit
       | a # as \<Rightarrow> (case map_of subs a of Some p \<Rightarrow> p as | None \<Rightarrow> Some SystemExit)))"

section \<open>Option names\<close>

text \<open>What the option names of the program have in common: they start with two dashes, hold no equals
  sign, and differ from each other and from \<open>--help\<close>.\<close>

definition options_ok :: "cli_option list \<Rightarrow> bool" where
  "options_ok opts \<longleftrightarrow>
     distinct (option_strings opts) \<and>
     list_all (\<lambda>f. str_startswith f ''--'' \<and> f \<noteq> ''--'' \<and> CHR ''='' \<notin> set f) (option_strings opts)"

lemma before_after_eq [simp]:
  "CHR ''='' \<notin> set f \<Longrightarrow> before_eq (f @ CHR ''='' # v) = f"
  "CHR ''='' \<notin> set f \<Longrightarrow> after_eq (f @ CHR ''='' # v) = Some v"
  "CHR ''='' \<notin> set f \<Longrightarrow> before_eq f = f" "CHR ''='' \<notin> set f \<Longrightarrow> after_eq f = None"
  by (induction f) (auto simp: before_eq_def after_eq_def)

lemma flag_shape:
  assumes "options_ok opts" "f \<in> co_flag ` set opts"
  shows "str_startswith f ''--''" "f \<noteq> ''--''" "f \<noteq> HELP" "CHR ''='' \<notin> set f" "f \<in> set (option_strings opts)"
proof -
  from assms(1) have "HELP \<notin> co_flag ` set opts" by (simp add: options_ok_def option_strings_def)
  with assms(2) show "f \<noteq> HELP" by blast
qed (use assms in \<open>auto simp: options_ok_def option_strings_def list_all_iff\<close>)

lemma startswith_append: "str_startswith f p \<Longrightarrow> str_startswith (f @ s) p"
  by (metis append.assoc append_eq_conv_conj append_take_drop_id str_startswith_def)

lemma long_start: "str_startswith s ''--'' \<Longrightarrow> parse_optional opts s = long_option opts s"
  by (cases s) (auto simp: parse_optional_def str_startswith_def)

text \<open>The three ways to write an option.\<close>

lemma parse_flag:
  assumes "options_ok opts" "f \<in> co_flag ` set opts"
  shows "parse_optional opts f = Opt f None"
  using flag_shape [OF assms] by (simp add: long_start long_option_def chosen_def)

lemma parse_flag_eq:
  assumes "options_ok opts" "f \<in> co_flag ` set opts"
  shows "parse_optional opts (f @ CHR ''='' # v) = Opt f (Some v)"
proof -
  note shape = flag_shape [OF assms]
  have "f @ CHR ''='' # v \<notin> set (option_strings opts)"
    using assms(1) by (auto simp: options_ok_def list_all_iff)
  with shape show ?thesis by (simp add: long_start startswith_append long_option_def chosen_def)
qed

lemma parse_abbreviation:
  assumes "options_ok opts" "f \<in> co_flag ` set opts" "str_startswith p ''--''" "CHR ''='' \<notin> set p"
    and "filter (\<lambda>g. str_startswith g p) (option_strings opts) = [f]"
  shows "parse_optional opts p = Opt f None" "parse_optional opts (p @ CHR ''='' # v) = Opt f (Some v)"
proof -
  have sw: "str_startswith g g" for g by (simp add: str_startswith_def)
  have "p = f" if "p \<in> set (option_strings opts)"
  proof -
    from that sw have "p \<in> set (filter (\<lambda>g. str_startswith g p) (option_strings opts))" by simp
    with assms(5) show ?thesis by simp
  qed
  moreover have "p @ CHR ''='' # v \<notin> set (option_strings opts)"
    using assms(1) by (auto simp: options_ok_def list_all_iff)
  ultimately show "parse_optional opts p = Opt f None" "parse_optional opts (p @ CHR ''='' # v) = Opt f (Some v)"
    using assms flag_shape [OF assms(1,2)]
    by (auto simp: long_start startswith_append long_option_def chosen_def)
qed

section \<open>Written options\<close>

text \<open>How an option and its value may be written: by its name or a prefix that no other option has,
  with the value after an equals sign or, where it does not look like an option, as the next
  argument.\<close>

definition names_option :: "cli_option list \<Rightarrow> string \<Rightarrow> string \<Rightarrow> bool" where
  "names_option opts p f \<longleftrightarrow>
     f \<in> co_flag ` set opts \<and> CHR ''='' \<notin> set p \<and>
     (p = f \<or> str_startswith p ''--'' \<and> filter (\<lambda>g. str_startswith g p) (option_strings opts) = [f])"

inductive spelled :: "cli_option list \<Rightarrow> string \<times> string \<Rightarrow> string list \<Rightarrow> bool" for opts where
  WithEquals: "names_option opts p f \<Longrightarrow> v \<noteq> ''--'' \<Longrightarrow> spelled opts (f, v) [p @ CHR ''='' # v]"
| TwoWords: "names_option opts p f \<Longrightarrow> parse_optional opts v = Positional \<Longrightarrow> spelled opts (f, v) [p, v]"

definition given :: "(string \<times> string) list \<Rightarrow> namespace" where
  "given gs = fold (\<lambda>(f, v). dict_set f v) gs []"

definition complete_for :: "cli_option list \<Rightarrow> (string \<times> string) list \<Rightarrow> bool" where
  "complete_for opts gs \<longleftrightarrow> list_all (\<lambda>opt. co_required opt \<longrightarrow> co_flag opt \<in> fst ` set gs) opts"

lemma names_option_parse:
  assumes "options_ok opts" "names_option opts p f"
  shows "parse_optional opts p = Opt f None" "parse_optional opts (p @ CHR ''='' # v) = Opt f (Some v)"
  using assms parse_flag [OF assms(1)] parse_flag_eq [OF assms(1)] parse_abbreviation [OF assms(1)]
  unfolding names_option_def by metis+

lemma separator_rejected: "options_ok opts \<Longrightarrow> parse_optional opts ''--'' = Rejected"
proof -
  assume ok: "options_ok opts"
  then have "filter (\<lambda>g. str_startswith g ''--'') (option_strings opts) = option_strings opts"
    by (auto simp: options_ok_def filter_id_conv list_all_iff)
  moreover have "''--'' \<notin> set (option_strings opts)" using ok by (auto simp: options_ok_def list_all_iff)
  moreover have "str_startswith ''--'' ''--''" by (simp add: str_startswith_def)
  ultimately show ?thesis
    by (auto simp: long_start long_option_def option_strings_def chosen_def split: list.split)
qed

lemma spelled_no_separator:
  assumes "options_ok opts" "spelled opts g ws"
  shows "\<not> list_ex (is_separator opts) ws"
  using assms(2)
proof cases
  case (WithEquals p f v)
  with names_option_parse(2) [OF assms(1), of p f v] separator_rejected [OF assms(1)] show ?thesis
    by (cases "p @ CHR ''='' # v = ''--''") (simp_all add: is_separator_def)
next
  case (TwoWords p f v)
  with assms names_option_parse(1) [OF assms(1)] separator_rejected [OF assms(1)] show ?thesis
    by (auto simp: is_separator_def)
qed

lemma consume_spelled:
  assumes "options_ok opts" "spelled opts g ws"
  shows "consume opts (ws @ as) ns = consume opts as (dict_set (fst g) (snd g) ns)"
  using assms(2) by cases (simp_all add: names_option_parse [OF assms(1)])

lemma consume_all:
  assumes "options_ok opts" "list_all2 (spelled opts) gs wss"
  shows "consume opts (concat wss @ as) ns = consume opts as (fold (\<lambda>(f, v). dict_set f v) gs ns)"
  using assms(2) by (induction arbitrary: ns rule: list_all2_induct) (simp_all add: consume_spelled [OF assms(1)] split_beta)

lemma given_keys: "dict_has (fold (\<lambda>(f, v). dict_set f v) gs ns) k \<longleftrightarrow> k \<in> fst ` set gs \<or> dict_has ns k"
proof (induction gs arbitrary: ns)
  case (Cons g gs)
  have "dict_has (dict_set f v ns) k \<longleftrightarrow> k = f \<or> dict_has ns k" for f v
    by (simp add: dom_update)
  with Cons show ?case by (cases g) auto
qed simp

theorem parse_options_spelled:
  assumes "options_ok opts" "list_all2 (spelled opts) gs wss" "complete_for opts gs"
  shows "parse_options opts (concat wss) = Some (Parsed (given gs))"
proof -
  have "\<not> list_ex (is_separator opts) (concat wss)"
    using assms(2) by (induction rule: list_all2_induct) (simp_all add: spelled_no_separator [OF assms(1)])
  moreover have "consume opts (concat wss) [] = Parsed (given gs)"
    using consume_all [OF assms(1,2), of "[]" "[]"] assms(3)
    by (simp add: given_keys complete_for_def given_def del: set_map)
  ultimately show ?thesis by (simp add: parse_options_def)
qed

text \<open>Nothing else is accepted.\<close>

lemma split_eq: "s = before_eq s @ (case after_eq s of None \<Rightarrow> [] | Some v \<Rightarrow> CHR ''='' # v)"
  by (induction s) (simp_all add: before_eq_def after_eq_def)

lemma before_eq_no_eq: "CHR ''='' \<notin> set (before_eq s)"
  by (auto simp: before_eq_def dest: set_takeWhileD)

lemma before_eq_start: "str_startswith s ''--'' \<Longrightarrow> str_startswith (before_eq s) ''--''"
  by (cases s; cases "tl s") (auto simp: str_startswith_def before_eq_def)

lemma parse_optional_Opt:
  assumes "options_ok opts" "parse_optional opts a = Opt f v"
  shows "names_option opts (before_eq a) f" "v = after_eq a"
proof -
  from assms(2) have start: "str_startswith a ''--''" and long: "long_option opts a = Opt f v"
    by (auto simp: parse_optional_def split: if_splits)
  have mem: "g \<in> co_flag ` set opts" if "g \<in> set (option_strings opts)" "chosen g w = Opt f v" for g w
    using that by (auto simp: chosen_def option_strings_def split: if_splits)
  have opt: "names_option opts (before_eq a) f \<and> v = after_eq a"
    if "g \<in> set (option_strings opts)" "chosen g (after_eq a) = Opt f v"
      "before_eq a = g \<or> filter (\<lambda>h. str_startswith h (before_eq a)) (option_strings opts) = [g]" for g
    using that mem [OF that(1,2)] before_eq_no_eq before_eq_start [OF start]
    by (auto simp: names_option_def chosen_def split: if_splits)
  have exact: "before_eq a = a" "after_eq a = None" if "a \<in> set (option_strings opts)"
    using that assms(1) by (auto simp: options_ok_def list_all_iff)
  have "names_option opts (before_eq a) f \<and> v = after_eq a"
  proof (cases "a \<in> set (option_strings opts)")
    case True
    with long opt [of a] exact show ?thesis by (simp add: long_option_def)
  next
    case False
    show ?thesis
    proof (cases "after_eq a \<noteq> None \<and> before_eq a \<in> set (option_strings opts)")
      case True
      with False long opt [of "before_eq a"] show ?thesis by (simp add: long_option_def)
    next
      case eq: False
      from False eq long obtain g where g: "filter (\<lambda>h. str_startswith h (before_eq a)) (option_strings opts) = [g]"
        "chosen g (after_eq a) = Opt f v"
        by (auto simp: long_option_def split: list.splits if_splits)
      then have "g \<in> set (option_strings opts)" by (metis filter_eq_ConsD in_set_conv_decomp)
      with opt g show ?thesis by blast
    qed
  qed
  then show "names_option opts (before_eq a) f" "v = after_eq a" by simp_all
qed

lemma consume_step:
  assumes ok: "options_ok opts" and run: "consume opts (a # as) ns = Parsed ns'"
    and sep: "\<not> list_ex (is_separator opts) (a # as)"
  shows "\<exists>g ws as'. a # as = ws @ as' \<and> ws \<noteq> [] \<and> spelled opts g ws \<and>
    consume opts as' (dict_set (fst g) (snd g) ns) = Parsed ns'"
proof -
  obtain f v where a: "parse_optional opts a = Opt f v" using run by (auto split: token.splits)
  note name = parse_optional_Opt [OF ok a]
  show ?thesis
  proof (cases v)
    case (Some x)
    with name sep a have "spelled opts (f, x) [before_eq a @ CHR ''='' # x]"
      by (intro WithEquals) (auto simp: is_separator_def)
    moreover from Some name have "before_eq a @ CHR ''='' # x = a" using split_eq [of a] by (simp split: option.splits)
    ultimately show ?thesis using Some run a
      by (intro exI [of _ "(f, x)"] exI [of _ "[a]"] exI [of _ as]) simp
  next
    case None
    with run a obtain x as' where "as = x # as'" "parse_optional opts x = Positional"
      "consume opts as' (dict_set f x ns) = Parsed ns'"
      by (auto split: list.splits if_splits)
    moreover from None name have "before_eq a = a" using split_eq [of a] by (simp split: option.splits)
    ultimately show ?thesis using name
      by (intro exI [of _ "(f, x)"] exI [of _ "[a, x]"] exI [of _ as']) (simp add: TwoWords)
  qed
qed

lemma consume_accepts:
  assumes "options_ok opts"
  shows "consume opts as ns = Parsed ns' \<Longrightarrow> \<not> list_ex (is_separator opts) as \<Longrightarrow>
    \<exists>gs wss. as = concat wss \<and> list_all2 (spelled opts) gs wss \<and> ns' = fold (\<lambda>(f, v). dict_set f v) gs ns \<and>
      list_all (\<lambda>opt. co_required opt \<longrightarrow> dict_has ns' (co_flag opt)) opts"
proof (induction as arbitrary: ns rule: length_induct)
  case (1 as)
  show ?case
  proof (cases as)
    case Nil
    with "1.prems" show ?thesis by (intro exI [of _ "[]"]) (simp split: if_splits)
  next
    case (Cons b bs)
    with "1.prems" consume_step [OF assms, of b bs ns ns'] obtain g ws as' where s: "as = ws @ as'" "ws \<noteq> []"
      "spelled opts g ws" "consume opts as' (dict_set (fst g) (snd g) ns) = Parsed ns'" by metis
    with "1.IH" "1.prems"(2) obtain gs wss where "as' = concat wss" "list_all2 (spelled opts) gs wss"
      "ns' = fold (\<lambda>(f, v). dict_set f v) gs (dict_set (fst g) (snd g) ns)"
      "list_all (\<lambda>opt. co_required opt \<longrightarrow> dict_has ns' (co_flag opt)) opts"
      by (auto dest!: spec [of _ as'])
    with s show ?thesis by (intro exI [of _ "g # gs"] exI [of _ "ws # wss"]) (cases g, simp)
  qed
qed

theorem parse_options_iff:
  assumes "options_ok opts"
  shows "parse_options opts argv = Some (Parsed ns) \<longleftrightarrow>
    (\<exists>gs wss. argv = concat wss \<and> list_all2 (spelled opts) gs wss \<and> complete_for opts gs \<and> ns = given gs)"
proof
  assume "parse_options opts argv = Some (Parsed ns)"
  then have "consume opts argv [] = Parsed ns" "\<not> list_ex (is_separator opts) argv"
    by (simp_all add: parse_options_def split: if_splits)
  from consume_accepts [OF assms this] obtain gs wss where "argv = concat wss" "list_all2 (spelled opts) gs wss"
    "ns = given gs" "list_all (\<lambda>opt. co_required opt \<longrightarrow> dict_has ns (co_flag opt)) opts"
    by (auto simp: given_def)
  then show "\<exists>gs wss. argv = concat wss \<and> list_all2 (spelled opts) gs wss \<and> complete_for opts gs \<and> ns = given gs"
    by (intro exI [of _ gs] exI [of _ wss]) (simp add: complete_for_def given_def given_keys del: set_map)
qed (use parse_options_spelled [OF assms] in blast)

text \<open>The values of the namespace: the last one given, or the default.\<close>

definition arg_of :: "cli_option list \<Rightarrow> (string \<times> string) list \<Rightarrow> string \<Rightarrow> string option" where
  "arg_of opts gs f = get_arg opts (given gs) f"

lemma given_get: "dict_get (given gs) f = map_of (rev gs) f"
proof -
  have "dict_get (fold (\<lambda>(f, v). dict_set f v) gs ns) f = (map_of ns ++ map_of (rev gs)) f" for ns
    by (induction gs arbitrary: ns) (auto simp: split_beta update_conv' map_add_def split: option.splits)
  then show ?thesis by (simp add: given_def)
qed

lemma required_given:
  "complete_for opts gs \<Longrightarrow> opt \<in> set opts \<Longrightarrow> co_required opt \<Longrightarrow> \<exists>v. arg_of opts gs (co_flag opt) = Some v"
  by (auto simp: complete_for_def list_all_iff arg_of_def get_arg_def given_get split: option.splits)
    (metis image_set map_of_eq_None_iff option.distinct(1) rev_map set_rev)

end
