(* ===== verification/Provisioning_CLI.thy ===== *)
theory Provisioning_CLI
  imports Provisioning Audit_Export Py_Argparse
begin

text \<open>
  The command line \<open>db/provisioning/cli.py\<close>: tenant onboarding, schema creation, rollback and audit
  verification. What the process finds outside itself is the record \<open>cli_env\<close>: the environment
  variable with the database address, the SQL artifacts, and the database, whose answer to each
  statement is a parameter. \<open>parse_argv\<close> reads the arguments with the parsers that \<open>main\<close> builds;
  the exit code is the result and an exception that no handler catches is an error value.
\<close>

section \<open>Environment and state\<close>

record cli_env =
  ce_database_url :: string
  ce_create_engine :: "string \<Rightarrow> unit result"
  ce_database :: "string \<Rightarrow> string \<Rightarrow> nat \<Rightarrow> unit result"
  ce_template :: "string option"
  ce_artifacts :: "(string \<times> string) list"
  ce_files :: "string \<Rightarrow> string option"
  ce_sha256 :: "string \<Rightarrow> string"
  ce_fresh :: "nat \<Rightarrow> string \<times> string"

text \<open>The statements executed directly, and the provisioner's state.\<close>

record cli_state =
  cl_direct :: "(string \<times> string) list"
  cl_provisioner :: provisioner

definition cli_start :: cli_state where
  "cli_start = \<lparr>cl_direct = [], cl_provisioner = SchemaProvisioner\<rparr>"

definition on_provisioner :: "(provisioner, 'a) op \<Rightarrow> (cli_state, 'a) op" where
  "on_provisioner m s = (fst (m (cl_provisioner s)), s\<lparr>cl_provisioner := snd (m (cl_provisioner s))\<rparr>)"

section \<open>Executors\<close>

definition build_executor :: "cli_env \<Rightarrow> unit result" where
  "build_executor env =
     (if ce_database_url env = [] then Inl ProvisioningError
      else ce_create_engine env (ce_database_url env))"

definition scoped_schema :: "string \<Rightarrow> string \<Rightarrow> string" where
  "scoped_schema active statement = (if \<not> str_startswith statement ''CREATE SCHEMA'' then active else ''public'')"

text \<open>The provisioner of \<open>_provisioner\<close>; \<open>k\<close> statements were executed directly before it is used.\<close>

definition cli_provisioner :: "cli_env \<Rightarrow> nat \<Rightarrow> provisioner_config" where
  "cli_provisioner env k =
     \<lparr>pc_template_sql = (case ce_template env of None \<Rightarrow> [] | Some t \<Rightarrow> t),
      pc_executor = (\<lambda>active statement n. ce_database env (scoped_schema active statement) statement (k + n)),
      pc_revisions = from_artifacts_dir (ce_artifacts env),
      pc_load_applied = None\<rparr>"

definition execute_public :: "cli_env \<Rightarrow> string \<Rightarrow> (cli_state, unit) op" where
  "execute_public env statement s =
     (case ce_database env ''public'' statement (length (cl_direct s)) of
        Inl e \<Rightarrow> (Inl e, s)
      | Inr _ \<Rightarrow> (Inr (), s\<lparr>cl_direct := cl_direct s @ [(''public'', statement)]\<rparr>))"

section \<open>Onboarding\<close>

definition sql_quote :: char where
  "sql_quote = CHR 0x27"

definition sql_literal :: "string \<Rightarrow> string" where
  "sql_literal value = [sql_quote] @ str_replace [sql_quote] [sql_quote, sql_quote] value @ [sql_quote]"

definition is_slug_char :: "char \<Rightarrow> bool" where
  "is_slug_char c \<longleftrightarrow> is_lower c \<or> is_digit c \<or> c = CHR ''-''"

definition slug_matches :: "string \<Rightarrow> bool" where
  "slug_matches = rx_fullmatch is_slug_char 2 63"

record create_args =
  ca_slug :: string
  ca_name :: string
  ca_vertical :: string
  ca_commission_rate :: string
  ca_branch_id :: string

definition insert_tenant :: "string \<Rightarrow> tenant_vertical \<Rightarrow> create_args \<Rightarrow> string" where
  "insert_tenant tenant_id vertical args =
     ''INSERT INTO public.tenants (tenant_id, slug, name, vertical, commission_rate, branch_id) VALUES ('' @
     sql_literal tenant_id @ ''::UUID, '' @ sql_literal (ca_slug args) @ '', '' @
     sql_literal (ca_name args) @ '', '' @ sql_literal (vertical_value vertical) @ '', '' @
     ca_commission_rate args @ '', '' @ sql_literal (ca_branch_id args) @ '')''"

text \<open>The seeded catalog lives in a repository that the command drops; only the number of its items
  is printed.\<close>

definition seeded_items :: "tenant_vertical \<Rightarrow> string \<Rightarrow> nat result" where
  "seeded_items vertical tenant_id =
     fst (seed_default_catalog tenant_id ''EUR'' (CatalogRepository vertical))"

definition tenant_create :: "cli_env \<Rightarrow> nat \<Rightarrow> create_args \<Rightarrow> (cli_state, nat) op" where
  "tenant_create env uuid4 args =
     (if \<not> slug_matches (ca_slug args) then op_raise ProvisioningError
      else
        op_bind (op_lift (TenantVertical (ca_vertical args))) (\<lambda>vertical.
        let tenant_id = uuid_str uuid4;
            tenant = \<lparr>tn_tenant_id = tenant_id, tn_slug = ca_slug args, tn_name = ca_name args,
              tn_vertical = vertical, tn_commission_rate = ca_commission_rate args,
              tn_branch_id = ca_branch_id args, tn_is_active = True\<rparr> in
        op_bind (op_lift (build_executor env)) (\<lambda>_.
        op_bind (execute_public env (insert_tenant tenant_id vertical args)) (\<lambda>_.
        op_bind (on_provisioner (create_tenant_schema (cli_provisioner env 1) tenant)) (\<lambda>_.
        op_bind (op_lift (seeded_items vertical tenant_id)) (\<lambda>_.
        op_return 0))))))"

section \<open>The command\<close>

record tenant_args =
  ta_tenant_id :: string
  ta_slug :: string
  ta_name :: string
  ta_vertical :: string

datatype provisioning_command =
    TenantCreate create_args
  | Migrate
  | Create tenant_args
  | DowngradeTo tenant_args string

datatype command = Provision provisioning_command | AuditVerify string string

definition args_tenant :: "tenant_args \<Rightarrow> tenant result" where
  "args_tenant args =
     res_bind (TenantVertical (ta_vertical args)) (\<lambda>vertical.
       Inr \<lparr>tn_tenant_id = ta_tenant_id args, tn_slug = ta_slug args, tn_name = ta_name args,
         tn_vertical = vertical, tn_commission_rate = DEFAULT_TENANT_RATE, tn_branch_id = [],
         tn_is_active = True\<rparr>)"

definition run_provisioning :: "cli_env \<Rightarrow> nat \<Rightarrow> provisioning_command \<Rightarrow> (cli_state, nat) op" where
  "run_provisioning env uuid4 cmd =
     (case cmd of
        TenantCreate args \<Rightarrow> tenant_create env uuid4 args
      | Migrate \<Rightarrow> op_bind (op_lift (build_executor env)) (\<lambda>_. op_return 0)
      | Create args \<Rightarrow>
          op_bind (op_lift (build_executor env)) (\<lambda>_.
          op_bind (op_lift (args_tenant args)) (\<lambda>tenant.
          op_bind (on_provisioner (create_tenant_schema (cli_provisioner env 0) tenant)) (\<lambda>_.
          op_return 0)))
      | DowngradeTo args target \<Rightarrow>
          op_bind (op_lift (build_executor env)) (\<lambda>_.
          op_bind (op_lift (args_tenant args)) (\<lambda>tenant.
          op_bind (on_provisioner (downgrade (cli_provisioner env 0) tenant target)) (\<lambda>_.
          op_return 0))))"

text \<open>\<open>except ProvisioningError\<close> prints the error and returns 1; other exceptions leave the process.\<close>

definition exit_code :: "nat result \<Rightarrow> nat result" where
  "exit_code r = (if r = Inl ProvisioningError then Inr 1 else r)"

definition cli_main :: "cli_env \<Rightarrow> nat \<Rightarrow> command \<Rightarrow> nat reading \<times> cli_state" where
  "cli_main env uuid4 cmd =
     (case cmd of
        AuditVerify export head_hash \<Rightarrow>
          (map_option (exit_code \<circ> map_sum id fst)
             (audit_verify (ce_sha256 env) (ce_fresh env) (ce_files env export) head_hash), cli_start)
      | Provision c \<Rightarrow>
          let (r, s) = run_provisioning env uuid4 c cli_start in (Some (exit_code r), s))"

text \<open>The parsers of \<open>main\<close>.\<close>

definition required_option :: "string \<Rightarrow> cli_option" where
  "required_option f = \<lparr>co_flag = f, co_required = True, co_default = None\<rparr>"

definition default_option :: "string \<Rightarrow> string \<Rightarrow> cli_option" where
  "default_option f d = \<lparr>co_flag = f, co_required = False, co_default = Some d\<rparr>"

definition tenant_create_options :: "cli_option list" where
  "tenant_create_options =
     [required_option ''--slug'', required_option ''--name'', required_option ''--vertical'',
      default_option ''--commission-rate'' ''0.10'', default_option ''--branch-id'' []]"

definition create_options :: "cli_option list" where
  "create_options = map required_option [''--tenant-id'', ''--slug'', ''--name'', ''--vertical'']"

definition downgrade_options :: "cli_option list" where
  "downgrade_options = map required_option [''--tenant-id'', ''--slug'', ''--name'', ''--vertical'', ''--to'']"

definition verify_options :: "cli_option list" where
  "verify_options = [required_option ''--export'', default_option ''--head-hash'' []]"

definition parse_leaf :: "cli_option list \<Rightarrow> ((string \<Rightarrow> string) \<Rightarrow> command) \<Rightarrow> string list \<Rightarrow> command parsing option" where
  "parse_leaf opts mk argv =
     parsing_bind (parse_options opts argv) (\<lambda>ns. Some (Parsed (mk (\<lambda>f. the (get_arg opts ns f)))))"

definition tenant_args_of :: "(string \<Rightarrow> string) \<Rightarrow> tenant_args" where
  "tenant_args_of arg =
     \<lparr>ta_tenant_id = arg ''--tenant-id'', ta_slug = arg ''--slug'', ta_name = arg ''--name'', ta_vertical = arg ''--vertical''\<rparr>"

definition create_args_of :: "(string \<Rightarrow> string) \<Rightarrow> create_args" where
  "create_args_of arg =
     \<lparr>ca_slug = arg ''--slug'', ca_name = arg ''--name'', ca_vertical = arg ''--vertical'',
      ca_commission_rate = arg ''--commission-rate'', ca_branch_id = arg ''--branch-id''\<rparr>"

definition parse_argv :: "string list \<Rightarrow> command parsing option" where
  "parse_argv =
     parse_command
       [(''tenant'', parse_command
          [(''create'', parse_leaf tenant_create_options (\<lambda>arg. Provision (TenantCreate (create_args_of arg))))]),
        (''migrate'', parse_leaf [] (\<lambda>_. Provision Migrate)),
        (''create'', parse_leaf create_options (\<lambda>arg. Provision (Create (tenant_args_of arg)))),
        (''downgrade'', parse_leaf downgrade_options
          (\<lambda>arg. Provision (DowngradeTo (tenant_args_of arg) (arg ''--to'')))),
        (''audit'', parse_command
          [(''verify'', parse_leaf verify_options (\<lambda>arg. AuditVerify (arg ''--export'') (arg ''--head-hash'')))])]"

text \<open>The whole program on its argument list.\<close>

definition jol_cli :: "cli_env \<Rightarrow> nat \<Rightarrow> string list \<Rightarrow> (nat reading \<times> cli_state) parsing option" where
  "jol_cli env uuid4 argv = parsing_bind (parse_argv argv) (\<lambda>cmd. Some (Parsed (cli_main env uuid4 cmd)))"

text \<open>What reached the database: each statement with the search path it ran under.\<close>

definition database_trace :: "cli_state \<Rightarrow> (string \<times> string) list" where
  "database_trace s =
     cl_direct s @ map (\<lambda>(active, st). (scoped_schema active st, st)) (pv_executed (cl_provisioner s))"


section \<open>SQL literals\<close>

text \<open>A reader of SQL string literals: after the opening quote, a doubled quote is a quote and a
  single one ends the literal.\<close>

fun sql_body :: "string \<Rightarrow> (string \<times> string) option" where
  "sql_body [] = None"
| "sql_body (c # s) =
     (if c \<noteq> sql_quote then map_option (\<lambda>(v, r). (c # v, r)) (sql_body s)
      else (case s of
         d # t \<Rightarrow> if d = sql_quote then map_option (\<lambda>(v, r). (sql_quote # v, r)) (sql_body t) else Some ([], s)
       | [] \<Rightarrow> Some ([], [])))"

definition read_literal :: "string \<Rightarrow> (string \<times> string) option" where
  "read_literal s = (case s of c # t \<Rightarrow> if c = sql_quote then sql_body t else None | [] \<Rightarrow> None)"

lemma sql_body_quoted:
  "r = [] \<or> hd r \<noteq> sql_quote \<Longrightarrow>
     sql_body (concat (map (\<lambda>x. if x = sql_quote then [sql_quote, sql_quote] else [x]) v) @ sql_quote # r) = Some (v, r)"
  by (induction v) (auto split: list.split)

lemma read_literal_quoted: "r = [] \<or> hd r \<noteq> sql_quote \<Longrightarrow> read_literal (sql_literal v @ r) = Some (v, r)"
  by (simp add: read_literal_def sql_literal_def str_replace_single sql_body_quoted)

text \<open>C35: The registry statement cannot be broken out of. Whatever the slug, the name and the branch
  contain, quotes included, reading the INSERT as SQL gives back exactly the tenant id, slug,
  name, vertical and branch as its string literals, each followed by the text the program wrote;
  the commission rate is the only argument that stands in the statement as it was given, unquoted.\<close>

theorem insert_tenant_reads_back:
  "\<exists>r0 r1 r2 r3 r4.
     insert_tenant tenant_id vertical args =
       ''INSERT INTO public.tenants (tenant_id, slug, name, vertical, commission_rate, branch_id) VALUES ('' @ r0 \<and>
     read_literal r0 = Some (tenant_id, ''::UUID, '' @ r1) \<and>
     read_literal r1 = Some (ca_slug args, '', '' @ r2) \<and>
     read_literal r2 = Some (ca_name args, '', '' @ r3) \<and>
     read_literal r3 = Some (vertical_value vertical, '', '' @ ca_commission_rate args @ '', '' @ r4) \<and>
     read_literal r4 = Some (ca_branch_id args, '')'')"
  unfolding insert_tenant_def
  by (intro exI conjI, rule refl) (rule read_literal_quoted, simp add: sql_quote_def)+

section \<open>What reaches the database\<close>


lemma fresh_downgrade:
  assumes "pc_load_applied cfg = None"
  shows "downgrade cfg t target SchemaProvisioner =
    (case validated_schema t of
       Inl e \<Rightarrow> (Inl e, SchemaProvisioner)
     | Inr schema \<Rightarrow> if target = [] then (Inr 0, SchemaProvisioner\<lparr>pv_active_schema := schema\<rparr>)
         else (Inl ProvisioningError, SchemaProvisioner))"
  using assms
  by (simp add: downgrade_def op_bind_lift applied_revisions_def in_memory_applied_def SchemaProvisioner_def
      op_bind_apply activate_def op_simps split: sum.split)

text \<open>C40: The rollback command rolls nothing back. The provisioner it builds has no loader of applied
  revisions and a fresh memory, so with a database address, for every tenant with a UUID and a
  known vertical, every artifact directory and every target, no statement reaches the database: a
  named target is refused with exit code 1, the empty target reports success with nothing undone.\<close>

theorem cli_downgrade_inert:
  assumes "ce_database_url env \<noteq> []" "ce_create_engine env (ce_database_url env) = Inr ()"
    and "args_tenant args = Inr t" "validated_schema t = Inr schema"
  shows "fst (cli_main env u (Provision (DowngradeTo args target))) = Some (Inr (if target = [] then 0 else 1)) \<and>
    database_trace (snd (cli_main env u (Provision (DowngradeTo args target)))) = []"
proof -
  have l: "pc_load_applied (cli_provisioner env k) = None" for k by (simp add: cli_provisioner_def)
  have "cl_provisioner cli_start = SchemaProvisioner" by (simp add: cli_start_def)
  with assms show ?thesis
    by (simp add: cli_main_def run_provisioning_def op_bind_lift build_executor_def on_provisioner_def
        op_bind_apply [of "on_provisioner _"] fresh_downgrade [OF l] op_return_def exit_code_def database_trace_def split_beta)
      (simp add: cli_start_def SchemaProvisioner_def)
qed











section \<open>Reading the arguments\<close>

text \<open>The options of each command, the words that choose it, and the options as the command has them.\<close>

fun command_options :: "command \<Rightarrow> cli_option list" where
  "command_options (Provision (TenantCreate _)) = tenant_create_options"
| "command_options (Provision Migrate) = []"
| "command_options (Provision (Create _)) = create_options"
| "command_options (Provision (DowngradeTo _ _)) = downgrade_options"
| "command_options (AuditVerify _ _) = verify_options"

fun command_path :: "command \<Rightarrow> string list" where
  "command_path (Provision (TenantCreate _)) = [''tenant'', ''create'']"
| "command_path (Provision Migrate) = [''migrate'']"
| "command_path (Provision (Create _)) = [''create'']"
| "command_path (Provision (DowngradeTo _ _)) = [''downgrade'']"
| "command_path (AuditVerify _ _) = [''audit'', ''verify'']"

definition tenant_settings :: "tenant_args \<Rightarrow> (string \<times> string) list" where
  "tenant_settings a =
     [(''--tenant-id'', ta_tenant_id a), (''--slug'', ta_slug a), (''--name'', ta_name a), (''--vertical'', ta_vertical a)]"

fun command_settings :: "command \<Rightarrow> (string \<times> string) list" where
  "command_settings (Provision (TenantCreate a)) =
     [(''--slug'', ca_slug a), (''--name'', ca_name a), (''--vertical'', ca_vertical a),
      (''--commission-rate'', ca_commission_rate a), (''--branch-id'', ca_branch_id a)]"
| "command_settings (Provision Migrate) = []"
| "command_settings (Provision (Create a)) = tenant_settings a"
| "command_settings (Provision (DowngradeTo a target)) = tenant_settings a @ [(''--to'', target)]"
| "command_settings (AuditVerify export head_hash) = [(''--export'', export), (''--head-hash'', head_hash)]"

definition spells_command :: "string list \<Rightarrow> command \<Rightarrow> bool" where
  "spells_command argv cmd \<longleftrightarrow>
     (\<exists>gs wss. argv = command_path cmd @ concat wss \<and> list_all2 (spelled (command_options cmd)) gs wss \<and>
        complete_for (command_options cmd) gs \<and>
        list_all (\<lambda>(f, v). arg_of (command_options cmd) gs f = Some v) (command_settings cmd))"

lemma cli_options_ok:
  "options_ok tenant_create_options" "options_ok create_options" "options_ok downgrade_options"
  "options_ok verify_options" "options_ok []"
  by code_simp+

lemma parse_leaf_iff:
  assumes "options_ok opts"
  shows "parse_leaf opts mk argv = Some (Parsed cmd) \<longleftrightarrow>
    (\<exists>gs wss. argv = concat wss \<and> list_all2 (spelled opts) gs wss \<and> complete_for opts gs \<and>
       mk (\<lambda>f. the (arg_of opts gs f)) = cmd)"
proof -
  have "parse_leaf opts mk argv = Some (Parsed cmd) \<longleftrightarrow>
      (\<exists>ns. parse_options opts argv = Some (Parsed ns) \<and> mk (\<lambda>f. the (get_arg opts ns f)) = cmd)"
    by (cases "(parse_options opts argv, \<lambda>ns. Some (Parsed (mk (\<lambda>f. the (get_arg opts ns f)))))" rule: parsing_bind.cases)
      (auto simp: parse_leaf_def)
  then show ?thesis unfolding parse_options_iff [OF assms] arg_of_def by blast
qed

definition settled :: "cli_option list \<Rightarrow> bool" where
  "settled opts \<longleftrightarrow> list_all (\<lambda>opt. co_required opt \<or> co_default opt \<noteq> None) opts"

lemma cli_settled:
  "settled tenant_create_options" "settled create_options" "settled downgrade_options" "settled verify_options"
  by code_simp+

lemma settled_arg:
  assumes "settled opts" "complete_for opts gs" "f \<in> co_flag ` set opts"
  shows "arg_of opts gs f = Some v \<longleftrightarrow> the (arg_of opts gs f) = v"
proof -
  obtain opt rest where o: "filter (\<lambda>opt. co_flag opt = f) opts = opt # rest"
    using assms(3) by (cases "filter (\<lambda>opt. co_flag opt = f) opts") (auto simp: filter_empty_conv)
  then have opt: "opt \<in> set opts" "co_flag opt = f" by (auto dest: filter_eq_ConsD)
  have "arg_of opts gs f \<noteq> None"
  proof (cases "co_required opt")
    case True
    with required_given [OF assms(2) opt(1)] opt(2) show ?thesis by auto
  next
    case False
    with assms(1) opt(1) have "co_default opt \<noteq> None" by (auto simp: settled_def list_all_iff)
    with o show ?thesis by (simp add: arg_of_def get_arg_def split: option.split)
  qed
  then show ?thesis by auto
qed

lemma create_args_settings:
  assumes "complete_for tenant_create_options gs"
  shows "create_args_of (\<lambda>f. the (arg_of tenant_create_options gs f)) = a \<longleftrightarrow>
    list_all (\<lambda>(f, v). arg_of tenant_create_options gs f = Some v) (command_settings (Provision (TenantCreate a)))"
proof -
  have "f \<in> co_flag ` set tenant_create_options"
    if "f \<in> {''--slug'', ''--name'', ''--vertical'', ''--commission-rate'', ''--branch-id''}" for f
    using that by (simp add: tenant_create_options_def required_option_def default_option_def)
  with settled_arg [OF cli_settled(1) assms] show ?thesis by (cases a) (simp add: create_args_of_def)
qed

lemma tenant_args_settings:
  assumes "settled opts" "complete_for opts gs"
    and "set [''--tenant-id'', ''--slug'', ''--name'', ''--vertical''] \<subseteq> co_flag ` set opts"
  shows "tenant_args_of (\<lambda>f. the (arg_of opts gs f)) = a \<longleftrightarrow>
    list_all (\<lambda>(f, v). arg_of opts gs f = Some v) (tenant_settings a)"
  using settled_arg [OF assms(1,2)] assms(3) by (cases a) (simp add: tenant_args_of_def tenant_settings_def)

lemma create_flags:
  "set [''--tenant-id'', ''--slug'', ''--name'', ''--vertical''] \<subseteq> co_flag ` set create_options"
  "set [''--tenant-id'', ''--slug'', ''--name'', ''--vertical''] \<subseteq> co_flag ` set downgrade_options"
  "''--to'' \<in> co_flag ` set downgrade_options"
  "''--export'' \<in> co_flag ` set verify_options" "''--head-hash'' \<in> co_flag ` set verify_options"
  by code_simp+

lemma no_separator_spelled:
  assumes "options_ok opts" "list_all2 (spelled opts) gs wss"
  shows "''--'' \<notin> set (concat wss)"
proof -
  have "''--'' \<notin> set ws" if "spelled opts g ws" for g ws
    using spelled_no_separator [OF assms(1) that] by (auto simp: list_ex_iff is_separator_def)
  with assms(2) show ?thesis by (induction rule: list_all2_induct) auto
qed

lemma parse_command_iff:
  "parse_command subs argv = Some (Parsed c) \<longleftrightarrow>
     ''--'' \<notin> set argv \<and> (\<exists>a as p. argv = a # as \<and> map_of subs a = Some p \<and> p as = Some (Parsed c))"
  by (cases argv) (auto simp: parse_command_def split: option.split)

lemma spells_iff:
  assumes "options_ok (command_options cmd)"
    and "\<And>gs. complete_for (command_options cmd) gs \<Longrightarrow>
      mk (\<lambda>f. the (arg_of (command_options cmd) gs f)) = cmd \<longleftrightarrow>
      list_all (\<lambda>(f, v). arg_of (command_options cmd) gs f = Some v) (command_settings cmd)"
  shows "spells_command argv cmd \<longleftrightarrow>
    ''--'' \<notin> set argv \<and> (\<exists>as. argv = command_path cmd @ as \<and> parse_leaf (command_options cmd) mk as = Some (Parsed cmd))"
proof -
  have p: "''--'' \<notin> set (command_path cmd)" by (cases cmd rule: command_path.cases) simp_all
  show ?thesis
    unfolding spells_command_def parse_leaf_iff [OF assms(1)]
    using assms(2) p no_separator_spelled [OF assms(1)] by (auto simp del: set_concat)
qed

lemma parse_leaf_other: "(\<And>arg. mk arg \<noteq> cmd) \<Longrightarrow> parse_leaf opts mk as \<noteq> Some (Parsed cmd)"
  by (auto simp: parse_leaf_def elim!: parsing_bind.elims)

text \<open>The leaf parser of each command.\<close>

fun command_maker :: "command \<Rightarrow> (string \<Rightarrow> string) \<Rightarrow> command" where
  "command_maker (Provision (TenantCreate _)) = (\<lambda>arg. Provision (TenantCreate (create_args_of arg)))"
| "command_maker (Provision Migrate) = (\<lambda>arg. Provision Migrate)"
| "command_maker (Provision (Create _)) = (\<lambda>arg. Provision (Create (tenant_args_of arg)))"
| "command_maker (Provision (DowngradeTo _ _)) = (\<lambda>arg. Provision (DowngradeTo (tenant_args_of arg) (arg ''--to'')))"
| "command_maker (AuditVerify _ _) = (\<lambda>arg. AuditVerify (arg ''--export'') (arg ''--head-hash''))"

lemma command_options_ok: "options_ok (command_options cmd)"
  by (cases cmd rule: command_options.cases) (simp_all add: cli_options_ok)

lemma maker_settings:
  "complete_for (command_options cmd) gs \<Longrightarrow>
     command_maker cmd (\<lambda>f. the (arg_of (command_options cmd) gs f)) = cmd \<longleftrightarrow>
     list_all (\<lambda>(f, v). arg_of (command_options cmd) gs f = Some v) (command_settings cmd)"
proof (cases cmd rule: command_options.cases)
  case (1 a)
  then show "complete_for (command_options cmd) gs \<Longrightarrow> ?thesis" using create_args_settings [of gs a] by simp
next
  case (3 a)
  then show "complete_for (command_options cmd) gs \<Longrightarrow> ?thesis"
    using tenant_args_settings [OF cli_settled(2) _ create_flags(1)] by simp
next
  case (4 a t)
  then show "complete_for (command_options cmd) gs \<Longrightarrow> ?thesis"
    using tenant_args_settings [OF cli_settled(3) _ create_flags(2)] settled_arg [OF cli_settled(3) _ create_flags(3)] by simp
next
  case (5 e h)
  then show "complete_for (command_options cmd) gs \<Longrightarrow> ?thesis"
    using settled_arg [OF cli_settled(4) _ create_flags(4)] settled_arg [OF cli_settled(4) _ create_flags(5)] by simp
qed simp

lemma parse_argv_leaf:
  "parse_argv argv = Some (Parsed cmd) \<longleftrightarrow>
     ''--'' \<notin> set argv \<and>
     (\<exists>as. argv = command_path cmd @ as \<and> parse_leaf (command_options cmd) (command_maker cmd) as = Some (Parsed cmd))"
  by (cases cmd rule: command_options.cases)
    (simp add: parse_argv_def parse_command_def parse_leaf_other split: list.split; blast)+

text \<open>C36: The command line runs exactly what is written. The parser accepts an argument list as a command
  if and only if the list is the path of the command followed by options of that command, each
  spelled in full or by an unambiguous prefix, with an equals sign or as the next word, in any
  order, with every required option present, and with the values of the command as the last value
  of each option or its default. The program runs a command exactly when its arguments spell one,
  and then that command; no other argument list runs anything.\<close>

theorem cli_argv_iff:
  "(parse_argv argv = Some (Parsed cmd) \<longleftrightarrow> spells_command argv cmd) \<and>
   (jol_cli env u argv = Some (Parsed out) \<longleftrightarrow> (\<exists>c. spells_command argv c \<and> cli_main env u c = out))"
proof -
  have iff: "parse_argv argv = Some (Parsed c) \<longleftrightarrow> spells_command argv c" for c
    unfolding parse_argv_leaf by (rule spells_iff [OF command_options_ok, symmetric]) (rule maker_settings)
  have "jol_cli env u argv = Some (Parsed out) \<longleftrightarrow> (\<exists>c. parse_argv argv = Some (Parsed c) \<and> cli_main env u c = out)"
    by (cases "(parse_argv argv, \<lambda>c. Some (Parsed (cli_main env u c)))" rule: parsing_bind.cases) (auto simp: jol_cli_def)
  with iff show ?thesis by simp
qed

section \<open>Onboarding end to end\<close>

lemma seeded_items_ok: "\<exists>n. seeded_items v i = Inr n"
  by (simp add: seeded_items_def seed_apply)

definition onboarded :: "nat \<Rightarrow> tenant_vertical \<Rightarrow> create_args \<Rightarrow> tenant" where
  "onboarded uuid4 vertical args =
     \<lparr>tn_tenant_id = uuid_str uuid4, tn_slug = ca_slug args, tn_name = ca_name args, tn_vertical = vertical,
      tn_commission_rate = ca_commission_rate args, tn_branch_id = ca_branch_id args, tn_is_active = True\<rparr>"

lemma op_bind_lift_Inr: "op_bind (op_lift (Inr a)) f = f a"
  by (rule ext) (simp add: op_bind_lift)

lemma tenant_create_main:
  assumes "slug_matches (ca_slug args)" "TenantVertical (ca_vertical args) = Inr v" "build_executor env = Inr ()"
  shows "cli_main env u (Provision (TenantCreate args)) =
    (let ins = insert_tenant (uuid_str u) v args in
     case ce_database env ''public'' ins 0 of
       Inl e \<Rightarrow> (Some (exit_code (Inl e)), cli_start)
     | Inr _ \<Rightarrow>
         let (r, p) = create_tenant_schema (cli_provisioner env 1) (onboarded u v args) SchemaProvisioner in
         (Some (exit_code (map_sum id (\<lambda>_. 0) r)), \<lparr>cl_direct = [(''public'', ins)], cl_provisioner = p\<rparr>))"
proof -
  obtain n where n: "seeded_items v (uuid_str u) = Inr n" using seeded_items_ok by blast
  have "tenant_create env u args = op_bind (execute_public env (insert_tenant (uuid_str u) v args)) (\<lambda>_.
      op_bind (on_provisioner (create_tenant_schema (cli_provisioner env 1) (onboarded u v args))) (\<lambda>_. op_return 0))"
    using assms n by (simp add: tenant_create_def Let_def onboarded_def op_bind_lift_Inr)
  then show ?thesis
    by (simp add: cli_main_def run_provisioning_def op_bind_apply execute_public_def on_provisioner_def cli_start_def
        op_return_def Let_def split_beta split: sum.split)
qed

text \<open>A list of statements given to an executor that refuses the first of them, or none.\<close>

lemma execute_each:
  assumes "a = pv_active_schema s"
  shows "(\<And>i. i < length sts \<Longrightarrow> pc_executor cfg a (sts ! i) (pv_calls s + i) = Inr ()) \<Longrightarrow>
      op_each (execute cfg) sts s = (Inr (), ran sts s)"
    and "k < length sts \<Longrightarrow> (\<And>i. i < k \<Longrightarrow> pc_executor cfg a (sts ! i) (pv_calls s + i) = Inr ()) \<Longrightarrow>
      pc_executor cfg a (sts ! k) (pv_calls s + k) = Inl e \<Longrightarrow>
      \<exists>s'. op_each (execute cfg) sts s = (Inl ProvisioningError, s') \<and>
        pv_executed s' = pv_executed s @ map (Pair a) (take k sts)"
  using assms
proof (induction sts arbitrary: s k)
  case Nil
  {
    case 1
    show ?case by (simp add: op_return_def)
  next
    case 2
    then show ?case by simp
  }
next
  case (Cons st sts)
  have run: "execute cfg st s = (Inr (), ran [st] s)" if "pc_executor cfg a st (pv_calls s) = Inr ()" "a = pv_active_schema s" for s
    using that by (simp add: execute_def ran_def)
  {
    case 1
    then have "execute cfg st s = (Inr (), ran [st] s)" using 1(1) [of 0] by (intro run) simp_all
    moreover have "op_each (execute cfg) sts (ran [st] s) = (Inr (), ran sts (ran [st] s))"
      using 1(1) [of "Suc i" for i] 1(2) by (intro Cons.IH(1)) (auto simp: ran_def)
    ultimately show ?case by (simp add: op_bind_apply ran_append)
  next
    case 2
    show ?case
    proof (cases k)
      case 0
      with 2 show ?thesis by (simp add: op_bind_apply execute_def)
    next
      case (Suc j)
      have "execute cfg st s = (Inr (), ran [st] s)" using 2(2) [of 0] 2(4) Suc by (intro run) simp_all
      moreover have "\<exists>s'. op_each (execute cfg) sts (ran [st] s) = (Inl ProvisioningError, s') \<and>
          pv_executed s' = pv_executed (ran [st] s) @ map (Pair a) (take j sts)"
        using 2(1,3,4) 2(2) [of "Suc i" for i] Suc by (intro Cons.IH(2)) (auto simp: ran_def)
      ultimately show ?thesis using 2(4) Suc by (auto simp: op_bind_apply)
    qed
  }
qed

lemma create_tenant_schema_apply:
  assumes "validated_schema t = Inr schema" "pc_template_sql cfg \<noteq> []"
  shows "create_tenant_schema cfg t s =
    (case op_each (execute cfg) ((''CREATE SCHEMA IF NOT EXISTS '' @ schema) # statements (pc_template_sql cfg))
        (s\<lparr>pv_active_schema := schema\<rparr>) of
       (Inl e, s') \<Rightarrow> (Inl e, s') | (Inr _, s') \<Rightarrow> (Inr schema, noted schema ''000_template'' s'))"
  using assms
  by (simp add: create_tenant_schema_def op_bind_lift op_bind_apply activate_def op_simps record_revision_def
      noted_def [symmetric] split: prod.split sum.split)

text \<open>C37: Onboarding a tenant. Take a slug of 2 to 63 lowercase letters, digits and hyphens, a known vertical,
  a database address that makes an engine and a template that is not empty. The command sends the
  registry INSERT and CREATE SCHEMA for the new tenant, both in public, then each statement of the
  template in order, under the search path of the tenant schema unless it starts with CREATE
  SCHEMA, and then in public. When the database accepts all of them the command exits with 0 and
  exactly these were executed. When it first refuses the k-th, exactly the ones before it stay
  executed: a refused INSERT leaves the process with the database's exception, and a refusal of
  any later statement exits with 1 with the registry row in place.\<close>

theorem tenant_create_outcome:
  assumes "2 \<le> length (ca_slug args)" "length (ca_slug args) \<le> 63"
    and "list_all (\<lambda>c. is_lower c \<or> is_digit c \<or> c = CHR ''-'') (ca_slug args)"
    and "TenantVertical (ca_vertical args) = Inr v"
    and "ce_database_url env \<noteq> []" "ce_create_engine env (ce_database_url env) = Inr ()"
    and "ce_template env = Some template" "template \<noteq> []"
    and "schema = ''tenant_'' @ uuid_hex (u mod 16 ^ 32)"
    and "full = (''public'', insert_tenant (uuid_str u) v args) # (''public'', ''CREATE SCHEMA IF NOT EXISTS '' @ schema) #
      map (\<lambda>st. (if take 13 st = ''CREATE SCHEMA'' then ''public'' else schema, st))
        (filter (\<lambda>st. st \<noteq> []) (map str_strip (str_split CHR '';'' template)))"
    and "answer = (\<lambda>k. ce_database env (fst (full ! k)) (snd (full ! k)) k)"
    and "cli_main env u (Provision (TenantCreate args)) = (r, s)"
  shows "((\<forall>k < length full. answer k = Inr ()) \<longrightarrow> r = Some (Inr 0) \<and> database_trace s = full) \<and>
    (\<forall>k e. k < length full \<and> (\<forall>i < k. answer i = Inr ()) \<and> answer k = Inl e \<longrightarrow>
      r = Some (if k = 0 \<and> e \<noteq> ProvisioningError then Inl e else Inr 1) \<and> database_trace s = take k full)"
proof -
  define t where "t = onboarded u v args"
  define cfg where "cfg = cli_provisioner env 1"
  define sts where "sts = (''CREATE SCHEMA IF NOT EXISTS '' @ schema) # statements template"
  define ins where "ins = insert_tenant (uuid_str u) v args"
  let ?s = "SchemaProvisioner\<lparr>pv_active_schema := schema\<rparr>"
  have "scoped_schema a st = (if take 13 st = ''CREATE SCHEMA'' then ''public'' else a)" for a st
    by (simp add: scoped_schema_def str_startswith_def eval_nat_numeral)
  then have full: "full = (''public'', ins) # map (\<lambda>st. (scoped_schema schema st, st)) sts"
    unfolding assms(10) sts_def ins_def by (simp add: statements_def eval_nat_numeral)
  have v: "validated_schema t = Inr schema"
    unfolding assms(9) by (rule validated_schema_uuid) (simp add: t_def onboarded_def)
  have create: "create_tenant_schema cfg t SchemaProvisioner = (case op_each (execute cfg) sts ?s of
       (Inl e, s') \<Rightarrow> (Inl e, s') | (Inr _, s') \<Rightarrow> (Inr schema, noted schema ''000_template'' s'))"
    using create_tenant_schema_apply [OF v, of cfg SchemaProvisioner] assms(7,8)
    by (simp add: sts_def cfg_def cli_provisioner_def)
  have ans: "answer (Suc i) = pc_executor cfg schema (sts ! i) (pv_calls ?s + i)" if "i < length sts" for i
    using that by (simp add: assms(11) full cfg_def cli_provisioner_def SchemaProvisioner_def)
  have ans0: "answer 0 = ce_database env ''public'' ins 0" by (simp add: assms(11) full)
  have "slug_matches (ca_slug args)"
    using assms(1-3) by (simp add: slug_matches_def rx_fullmatch_def is_slug_char_def list_all_iff)
  moreover have "build_executor env = Inr ()" using assms(5,6) by (simp add: build_executor_def)
  ultimately have main: "(r, s) = (case answer 0 of Inl e \<Rightarrow> (Some (exit_code (Inl e)), cli_start)
     | Inr _ \<Rightarrow> let (r, p) = create_tenant_schema cfg t SchemaProvisioner in
         (Some (exit_code (map_sum id (\<lambda>_. 0) r)), \<lparr>cl_direct = [(''public'', ins)], cl_provisioner = p\<rparr>))"
    unfolding assms(12) [symmetric] ans0 cfg_def t_def ins_def by (simp only: tenant_create_main [OF _ assms(4)] Let_def)
  show ?thesis
  proof (intro conjI allI impI; (elim conjE)?)
    assume ok: "\<forall>k < length full. answer k = Inr ()"
    have "op_each (execute cfg) sts ?s = (Inr (), ran sts ?s)"
      using ok ans by (intro execute_each(1)) (auto simp: full)
    with main create ok show "r = Some (Inr 0)" "database_trace s = full"
      by (simp_all add: full exit_code_def database_trace_def noted_def SchemaProvisioner_def)
  next
    fix k e
    assume k: "k < length full" "\<forall>i < k. answer i = Inr ()" "answer k = Inl e"
    have "r = Some (if k = 0 \<and> e \<noteq> ProvisioningError then Inl e else Inr 1) \<and> database_trace s = take k full"
    proof (cases k)
      case 0
      with main k show ?thesis by (simp add: exit_code_def database_trace_def cli_start_def SchemaProvisioner_def)
    next
      case (Suc j)
      with k have j: "j < length sts" by (simp add: full)
      have "pc_executor cfg schema (sts ! i) (pv_calls ?s + i) = Inr ()" if "i < j" for i
        using ans [of i, symmetric] k(2) j that Suc by simp
      moreover have "pc_executor cfg schema (sts ! j) (pv_calls ?s + j) = Inl e" using ans [OF j] k(3) Suc by simp
      ultimately obtain s' where "op_each (execute cfg) sts ?s = (Inl ProvisioningError, s')"
        "pv_executed s' = pv_executed ?s @ map (Pair schema) (take j sts)"
        using execute_each(2) [of schema ?s j sts cfg e] j by auto
      with main create k Suc show ?thesis
        by (simp add: full exit_code_def database_trace_def SchemaProvisioner_def take_map)
    qed
    then show "r = Some (if k = 0 \<and> e \<noteq> ProvisioningError then Inl e else Inr 1)" "database_trace s = take k full"
      by blast+
  qed
qed

section \<open>Concrete runs\<close>

definition sample_env :: cli_env where
  "sample_env =
     \<lparr>ce_database_url = ''postgresql://db'', ce_create_engine = (\<lambda>_. Inr ()), ce_database = (\<lambda>_ _ _. Inr ()),
      ce_template = Some ''CREATE TABLE a; CREATE TABLE b;'', ce_artifacts = [], ce_files = (\<lambda>_. None),
      ce_sha256 = sample_sha, ce_fresh = (\<lambda>_. ([], []))\<rparr>"

definition sample_onboarding :: create_args where
  "sample_onboarding = \<lparr>ca_slug = ''st-anna'', ca_name = ''St. Anna'', ca_vertical = ''faith_community'',
     ca_commission_rate = ''0.10'', ca_branch_id = []\<rparr>"

definition sample_args :: tenant_args where
  "sample_args = \<lparr>ta_tenant_id = uuid_str 7, ta_slug = ''st-anna'', ta_name = ''St. Anna'', ta_vertical = ''faith_community''\<rparr>"

theorem cli_downgrade_inert_witness:
  "fst (cli_main sample_env 7 (Provision (DowngradeTo sample_args ''001_x''))) = Some (Inr 1) \<and>
   database_trace (snd (cli_main sample_env 7 (Provision (DowngradeTo sample_args ''001_x'')))) = []"
proof -
  obtain t where t: "args_tenant sample_args = Inr t" "tn_tenant_id t = uuid_str 7"
    by (simp add: args_tenant_def sample_args_def TenantVertical_def)
  have "ce_database_url sample_env \<noteq> []" "ce_create_engine sample_env (ce_database_url sample_env) = Inr ()"
    by (simp_all add: sample_env_def)
  from cli_downgrade_inert [OF this t(1) validated_schema_uuid [OF t(2)], of 7 "''001_x''"] show ?thesis by simp
qed


theorem tenant_create_outcome_witness:
  "let env = sample_env\<lparr>ce_database := (\<lambda>_ _ n. if n = 3 then Inl GatewayError else Inr ())\<rparr>;
       schema = ''tenant_'' @ uuid_hex 7 in
   \<exists>r s. cli_main env 7 (Provision (TenantCreate sample_onboarding)) = (r, s) \<and> r = Some (Inr 1) \<and>
     database_trace s =
       [(''public'', insert_tenant (uuid_str 7) FAITH_COMMUNITY sample_onboarding),
        (''public'', ''CREATE SCHEMA IF NOT EXISTS '' @ schema), (schema, ''CREATE TABLE a'')]"
proof -
  define env where "env = sample_env\<lparr>ce_database := (\<lambda>_ _ n. if n = 3 then Inl GatewayError else Inr ())\<rparr>"
  define schema where "schema = ''tenant_'' @ uuid_hex 7"
  let ?sql = "''CREATE TABLE a; CREATE TABLE b;''"
  let ?full = "(''public'', insert_tenant (uuid_str 7) FAITH_COMMUNITY sample_onboarding) #
    (''public'', ''CREATE SCHEMA IF NOT EXISTS '' @ schema) #
    map (\<lambda>st. (if take 13 st = ''CREATE SCHEMA'' then ''public'' else schema, st))
      (filter (\<lambda>st. st \<noteq> []) (map str_strip (str_split CHR '';'' ?sql)))"
  obtain r s where run: "cli_main env 7 (Provision (TenantCreate sample_onboarding)) = (r, s)" by fastforce
  have args: "2 \<le> length (ca_slug sample_onboarding)" "length (ca_slug sample_onboarding) \<le> 63"
    "list_all (\<lambda>c. is_lower c \<or> is_digit c \<or> c = CHR ''-'') (ca_slug sample_onboarding)"
    "TenantVertical (ca_vertical sample_onboarding) = Inr FAITH_COMMUNITY" by code_simp+
  have at: "ce_database_url env \<noteq> []" "ce_create_engine env (ce_database_url env) = Inr ()" "ce_template env = Some ?sql"
    "?sql \<noteq> []" "schema = ''tenant_'' @ uuid_hex (7 mod 16 ^ 32)" by (simp_all add: env_def sample_env_def schema_def)
  have sts: "filter (\<lambda>st. st \<noteq> []) (map str_strip (str_split CHR '';'' ?sql)) = [''CREATE TABLE a'', ''CREATE TABLE b'']"
    by code_simp
  define full where "full = ?full"
  define answer where "answer = (\<lambda>k. ce_database env (fst (full ! k)) (snd (full ! k)) k)"
  have "answer k = (if k = 3 then Inl GatewayError else Inr ())" for k by (simp add: answer_def env_def)
  moreover have "length full = 4" unfolding full_def sts by simp
  ultimately have "r = Some (Inr 1)" "database_trace s = take 3 full"
    using tenant_create_outcome [OF args at full_def answer_def run, THEN conjunct2, rule_format, of 3 GatewayError] by simp_all
  moreover have "take 3 full = [(''public'', insert_tenant (uuid_str 7) FAITH_COMMUNITY sample_onboarding),
      (''public'', ''CREATE SCHEMA IF NOT EXISTS '' @ schema), (schema, ''CREATE TABLE a'')]"
    unfolding full_def sts by (simp add: eval_nat_numeral)
  ultimately show ?thesis unfolding Let_def env_def [symmetric] schema_def [symmetric] using run by (intro exI conjI) simp_all
qed

end
