(* ===== verification/Reports.thy ===== *)
theory Reports
  imports Tax Audit_Export Py_Argparse
begin

text \<open>
  The report scripts \<open>scripts/generate-vat-report.py\<close> and \<open>scripts/export-audit-log.py\<close>: reading the
  arguments, \<open>datetime.strptime\<close> with the format \<open>%Y-%m-%d\<close>, the report as a JSON value, and writing
  it to a file or to the standard output. The clock is an argument; the answer of the operating
  system to a write is a parameter. A run ends by leaving through \<open>argparse\<close>, by an exception or
  normally, and has a list of effects.
\<close>

section \<open>Running a script\<close>

datatype script_end = Exited | Raised pyexc | Finished

datatype effect = Wrote string string | Printed string

type_synonym script_run = "(script_end \<times> effect list) option"

type_synonym file_writer = "string \<Rightarrow> string \<Rightarrow> unit result"

definition on_parsed :: "namespace parsing option \<Rightarrow> (namespace \<Rightarrow> script_end \<times> effect list) \<Rightarrow> script_run" where
  "on_parsed p run =
     (case p of None \<Rightarrow> None | Some SystemExit \<Rightarrow> Some (Exited, []) | Some (Parsed ns) \<Rightarrow> Some (run ns))"

text \<open>The end of both scripts: write the file and say so, or print the text.\<close>

definition emit :: "file_writer \<Rightarrow> string option \<Rightarrow> string \<Rightarrow> string \<Rightarrow> script_end \<times> effect list" where
  "emit write_text path output message =
     (case path of
        Some (c # p) \<Rightarrow>
          (case write_text (c # p) output of
             Inl e \<Rightarrow> (Raised e, [])
           | Inr _ \<Rightarrow> (Finished, [Wrote (c # p) output, Printed (message @ (c # p) @ [CHR 0x0A])]))
      | _ \<Rightarrow> (Finished, [Printed (output @ [CHR 0x0A])]))"

section \<open>Dates on the command line\<close>

text \<open>The pattern that \<open>strptime\<close> builds: four digits, a month \<open>1[0-2]|0[1-9]|[1-9]\<close> and a day
  \<open>3[0-1]|[1-2]\d|0[1-9]|[1-9]| [1-9]\<close>; none of them matches a dash.\<close>

definition nonzero_digit :: "char \<Rightarrow> bool" where
  "nonzero_digit c \<longleftrightarrow> in_range 49 57 c"

definition month_text :: "string \<Rightarrow> bool" where
  "month_text s \<longleftrightarrow>
     (case s of
        [c] \<Rightarrow> nonzero_digit c
      | [a, b] \<Rightarrow> a = CHR ''1'' \<and> in_range 48 50 b \<or> a = CHR ''0'' \<and> nonzero_digit b
      | _ \<Rightarrow> False)"

definition day_text :: "string \<Rightarrow> bool" where
  "day_text s \<longleftrightarrow>
     (case s of
        [c] \<Rightarrow> nonzero_digit c
      | [a, b] \<Rightarrow>
          a = CHR ''3'' \<and> in_range 48 49 b \<or> in_range 49 50 a \<and> is_digit b \<or>
          a \<in> {CHR ''0'', CHR '' ''} \<and> nonzero_digit b
      | _ \<Rightarrow> False)"

definition strptime_date :: "string \<Rightarrow> date result" where
  "strptime_date s =
     (case str_split CHR ''-'' s of
        [y, m, d] \<Rightarrow>
          if length y = 4 \<and> list_all is_digit y \<and> month_text m \<and> day_text d
          then date_new (nat_of_digits y) (nat_of_digits m) (nat_of_digits (dropWhile (\<lambda>c. c = CHR '' '') d))
          else Inl ValueError
      | _ \<Rightarrow> Inl ValueError)"

section \<open>The VAT report\<close>

definition vat_report_options :: "cli_option list" where
  "vat_report_options =
     [\<lparr>co_flag = ''--country'', co_required = True, co_default = None\<rparr>,
      \<lparr>co_flag = ''--from'', co_required = True, co_default = None\<rparr>,
      \<lparr>co_flag = ''--to'', co_required = True, co_default = None\<rparr>,
      \<lparr>co_flag = ''--output'', co_required = False, co_default = None\<rparr>]"

definition vat_report :: "string \<Rightarrow> date \<Rightarrow> date \<Rightarrow> string \<Rightarrow> pyval" where
  "vat_report country from_date to_date now =
     PDict
       [(''report_type'', PStr ''vat_summary''),
        (''country'', PStr (str_upper country)),
        (''period'', PDict [(''from'', PStr (date_isoformat from_date)), (''to'', PStr (date_isoformat to_date))]),
        (''generated_at'', PStr now),
        (''summary'', PDict
          [(''total_transactions'', PInt 0), (''total_net'', PStr ''0.00''), (''total_vat'', PStr ''0.00''),
           (''total_gross'', PStr ''0.00''), (''vat_rate_applied'', PStr ''TBD'')]),
        (''note'', PStr ''Connect to production database for actual data.'')]"

definition vat_report_main :: "string \<Rightarrow> file_writer \<Rightarrow> string list \<Rightarrow> script_run" where
  "vat_report_main now write_text argv =
     on_parsed (parse_options vat_report_options argv) (\<lambda>ns.
       let arg = get_arg vat_report_options ns in
       case strptime_date (the (arg ''--from'')) of
         Inl e \<Rightarrow> (Raised e, [])
       | Inr from_date \<Rightarrow>
           (case strptime_date (the (arg ''--to'')) of
              Inl e \<Rightarrow> (Raised e, [])
            | Inr to_date \<Rightarrow>
                emit write_text (arg ''--output'')
                  (json_indent 0 (vat_report (the (arg ''--country'')) from_date to_date now))
                  ''Report written to ''))"

section \<open>The audit export script\<close>

definition audit_export_options :: "cli_option list" where
  "audit_export_options =
     map (\<lambda>f. \<lparr>co_flag = f, co_required = False, co_default = None\<rparr>)
       [''--from'', ''--to'', ''--event-type'', ''--actor'', ''--output'']"

definition py_optional :: "string option \<Rightarrow> pyval" where
  "py_optional v = (case v of None \<Rightarrow> PNone | Some s \<Rightarrow> PStr s)"

definition audit_export :: "(string \<Rightarrow> string option) \<Rightarrow> string \<Rightarrow> pyval" where
  "audit_export arg now =
     PDict
       [(''export_type'', PStr ''audit_log''),
        (''filters'', PDict
          [(''from'', py_optional (arg ''--from'')), (''to'', py_optional (arg ''--to'')),
           (''event_type'', py_optional (arg ''--event-type'')), (''actor'', py_optional (arg ''--actor''))]),
        (''generated_at'', PStr now),
        (''entries'', PList []),
        (''note'', PStr ''Connect to production audit store for actual data.'')]"


section \<open>Dates\<close>

lemma split_no_sep: "c \<notin> set w \<Longrightarrow> str_split c (w @ c # s) = w # str_split c s" "c \<notin> set w \<Longrightarrow> str_split c w = [w]"
  by (induction w) auto

lemma pad_digits: "list_all is_digit (pad_left k (str_of_nat n))"
  by (simp add: pad_left_def zeros_def str_of_nat_digits) (simp add: list_all_iff char_class_defs)

lemma digits_no_dash: "list_all is_digit s \<Longrightarrow> CHR ''-'' \<notin> set s"
  by (auto simp: list_all_iff char_class_defs)

lemma nat_of_pad [simp]: "nat_of_digits (pad_left k (str_of_nat n)) = n"
  by (simp add: pad_left_def zeros_def nat_of_digits_append)

lemma month_padded: "1 \<le> m \<Longrightarrow> m \<le> 12 \<Longrightarrow> month_text (pad_left 2 (str_of_nat m))"
proof -
  have "list_all (\<lambda>m. month_text (pad_left 2 (str_of_nat m))) [1..<13]" by code_simp
  then show "1 \<le> m \<Longrightarrow> m \<le> 12 \<Longrightarrow> month_text (pad_left 2 (str_of_nat m))" by (simp add: list_all_iff)
qed

lemma day_padded: "1 \<le> d \<Longrightarrow> d \<le> 31 \<Longrightarrow> day_text (pad_left 2 (str_of_nat d))"
proof -
  have "list_all (\<lambda>m. day_text (pad_left 2 (str_of_nat m))) [1..<32]" by code_simp
  then show "1 \<le> d \<Longrightarrow> d \<le> 31 \<Longrightarrow> day_text (pad_left 2 (str_of_nat d))" by (simp add: list_all_iff)
qed

lemma strptime_isoformat: "date_ok d \<Longrightarrow> strptime_date (date_isoformat d) = Inr d"
proof -
  assume ok: "date_ok d"
  then have "dt_day d \<le> 31" by (auto simp: date_ok_def days_in_month_def split: if_splits)
  moreover have "length (pad_left 4 (str_of_nat (dt_year d))) = 4"
    using ok ndigits_le_iff [of 4 "dt_year d"] by (simp add: pad_left_def zeros_def ndigits_def date_ok_def)
  moreover have "dropWhile (\<lambda>c. c = CHR '' '') s = s" if "list_all is_digit s" for s
    using that by (cases s) (auto simp: char_class_defs)
  ultimately show ?thesis
    using ok month_padded [of "dt_month d"] day_padded [of "dt_day d"] pad_digits digits_no_dash
    by (simp add: strptime_date_def date_isoformat_def split_no_sep date_new_def Let_def)
      (simp add: date_ok_def)
qed

lemma strptime_ok: "strptime_date s = Inr d \<Longrightarrow> date_ok d"
  by (auto simp: strptime_date_def date_new_def Let_def split: list.splits if_splits)

section \<open>What the scripts produce\<close>

lemma report_options_ok: "options_ok vat_report_options" "options_ok audit_export_options"
  by code_simp+

lemma report_plain: "json_plain (vat_report c a b now)" "json_plain (audit_export arg now)"
  by (simp_all add: vat_report_def audit_export_def py_optional_def split: option.split)

lemma on_parsed_spelled:
  "options_ok opts \<Longrightarrow> list_all2 (spelled opts) gs wss \<Longrightarrow> complete_for opts gs \<Longrightarrow>
     on_parsed (parse_options opts (concat wss)) run = Some (run (given gs))"
  by (simp add: on_parsed_def parse_options_spelled)

lemma on_parsed_effect:
  assumes "options_ok opts" "on_parsed (parse_options opts argv) run = Some (r, es)" "es \<noteq> []"
  shows "\<exists>gs wss. argv = concat wss \<and> list_all2 (spelled opts) gs wss \<and> complete_for opts gs \<and> run (given gs) = (r, es)"
proof -
  from assms(2,3) obtain ns where "parse_options opts argv = Some (Parsed ns)" "run ns = (r, es)"
    by (auto simp: on_parsed_def split: option.splits parsing.splits)
  with parse_options_iff [OF assms(1), of argv ns] show ?thesis by blast
qed

lemma emit_effect: "emit w path out msg = (r, es) \<Longrightarrow> es \<noteq> [] \<Longrightarrow> r = Finished"
  by (auto simp: emit_def split: option.splits list.splits sum.splits)

lemma vat_report_run:
  assumes "list_all2 (spelled vat_report_options) gs wss" "complete_for vat_report_options gs"
  shows "vat_report_main now w (concat wss) =
    Some (case strptime_date (the (arg_of vat_report_options gs ''--from'')) of
       Inl e \<Rightarrow> (Raised e, [])
     | Inr a \<Rightarrow> (case strptime_date (the (arg_of vat_report_options gs ''--to'')) of
         Inl e \<Rightarrow> (Raised e, [])
       | Inr b \<Rightarrow> emit w (arg_of vat_report_options gs ''--output'')
           (json_indent 0 (vat_report (the (arg_of vat_report_options gs ''--country'')) a b now)) ''Report written to ''))"
  using on_parsed_spelled [OF report_options_ok(1) assms] unfolding vat_report_main_def Let_def arg_of_def by simp

text \<open>C38: The VAT report that is written can be read. However the options are spelled (in full or
  abbreviated, with an equals sign or as two words, repeated or in any order), with two valid dates
  there is a text that json.loads reads as the report: the country in upper case, the period in ISO
  form, the time of the run, and the fixed figures of zero. With no --output, or an empty one, the
  script prints this text; otherwise it hands the text to the operating system for that file, and
  when the write is accepted says so and ends, when it is refused ends with the exception and has
  no effect. The dates of the period are accepted again in the form in which they are reported.\<close>

theorem vat_report_readable:
  assumes "list_all2 (spelled vat_report_options) gs wss" "complete_for vat_report_options gs"
    and "arg_of vat_report_options gs ''--country'' = Some country"
    and "arg_of vat_report_options gs ''--from'' = Some x" "strptime_date x = Inr a"
    and "arg_of vat_report_options gs ''--to'' = Some y" "strptime_date y = Inr b"
  shows "\<exists>output.
    json_loads output = read_ok (PDict
      [(''report_type'', PStr ''vat_summary''), (''country'', PStr (str_upper country)),
       (''period'', PDict [(''from'', PStr (date_isoformat a)), (''to'', PStr (date_isoformat b))]),
       (''generated_at'', PStr now),
       (''summary'', PDict
         [(''total_transactions'', PInt 0), (''total_net'', PStr ''0.00''), (''total_vat'', PStr ''0.00''),
          (''total_gross'', PStr ''0.00''), (''vat_rate_applied'', PStr ''TBD'')]),
       (''note'', PStr ''Connect to production database for actual data.'')]) \<and>
    json_loads (output @ [CHR 0x0A]) = json_loads output \<and>
    vat_report_main now w (concat wss) =
      Some (case arg_of vat_report_options gs ''--output'' of
          None \<Rightarrow> (Finished, [Printed (output @ [CHR 0x0A])])
        | Some path \<Rightarrow>
            if path = [] then (Finished, [Printed (output @ [CHR 0x0A])])
            else (case w path output of
                Inr _ \<Rightarrow> (Finished, [Wrote path output, Printed (''Report written to '' @ path @ [CHR 0x0A])])
              | Inl e \<Rightarrow> (Raised e, []))) \<and>
    strptime_date (date_isoformat a) = Inr a \<and> strptime_date (date_isoformat b) = Inr b"
proof -
  let ?out = "json_indent 0 (vat_report country a b now)"
  have run: "vat_report_main now w (concat wss) =
      Some (emit w (arg_of vat_report_options gs ''--output'') ?out ''Report written to '')"
    using vat_report_run [OF assms(1,2), of now w] assms(3-7) by simp
  have written: "emit w p ?out ''Report written to '' =
      (case p of None \<Rightarrow> (Finished, [Printed (?out @ [CHR 0x0A])])
        | Some path \<Rightarrow> if path = [] then (Finished, [Printed (?out @ [CHR 0x0A])])
            else (case w path ?out of
                Inr _ \<Rightarrow> (Finished, [Wrote path ?out, Printed (''Report written to '' @ path @ [CHR 0x0A])])
              | Inl e \<Rightarrow> (Raised e, [])))" for p
    by (auto simp: emit_def split: option.split list.split sum.split)
  show ?thesis
    using json_loads_indent [OF report_plain(1), of country a b now] strptime_isoformat [OF strptime_ok] assms(5,7)
    by (intro exI [of _ ?out] conjI run [unfolded written]) (simp_all add: vat_report_def del: json_indent.simps)
qed

text \<open>The VAT report fails clean. Whatever the arguments and the operating system, a run that has
  written or printed anything ended normally, and its arguments were accepted options with both
  dates in the form YYYY-MM-DD and in the calendar; a usage error, a bad date or a refused write
  leaves nothing behind.\<close>

theorem vat_report_fails_clean:
  assumes "vat_report_main now w argv = Some (r, es)" "es \<noteq> []"
  shows "r = Finished \<and> (\<exists>gs wss a b. argv = concat wss \<and> list_all2 (spelled vat_report_options) gs wss \<and>
    complete_for vat_report_options gs \<and>
    strptime_date (the (arg_of vat_report_options gs ''--from'')) = Inr a \<and>
    strptime_date (the (arg_of vat_report_options gs ''--to'')) = Inr b)"
proof -
  from assms obtain gs wss where g: "argv = concat wss" "list_all2 (spelled vat_report_options) gs wss"
    "complete_for vat_report_options gs"
    unfolding vat_report_main_def by (blast dest: on_parsed_effect [OF report_options_ok(1)])
  with assms vat_report_run [OF g(2,3), of now w] show ?thesis
    by (auto split: sum.splits dest: emit_effect)
qed





section \<open>Concrete runs\<close>

definition sample_given :: "(string \<times> string) list" where
  "sample_given = [(''--country'', ''lt''), (''--from'', ''2026-1-01''), (''--to'', ''2026-06-30''), (''--output'', ''r.json'')]"

definition sample_words :: "string list list" where
  "sample_words = [[''--co=lt''], [''--from'', ''2026-1-01''], [''--to=2026-06-30''], [''--output'', ''r.json'']]"

lemma sample_spelled:
  "list_all2 (spelled vat_report_options) sample_given sample_words"
proof -
  have n: "names_option vat_report_options ''--co'' ''--country''" "names_option vat_report_options ''--from'' ''--from''"
    "names_option vat_report_options ''--to'' ''--to''" "names_option vat_report_options ''--output'' ''--output''"
    "parse_optional vat_report_options ''2026-1-01'' = Positional" "parse_optional vat_report_options ''r.json'' = Positional"
    by code_simp+
  show ?thesis
    using WithEquals [OF n(1), of "''lt''"] WithEquals [OF n(3), of "''2026-06-30''"] TwoWords [OF n(2,5)] TwoWords [OF n(4,6)]
    by (simp add: sample_given_def sample_words_def)
qed

theorem vat_report_readable_witness:
  "\<exists>output. vat_report_main ''2026-07-01'' (\<lambda>_ _. Inr ()) (concat sample_words) =
      Some (Finished, [Wrote ''r.json'' output, Printed (''Report written to r.json'' @ [CHR 0x0A])]) \<and>
    json_loads output = read_ok (PDict
      [(''report_type'', PStr ''vat_summary''), (''country'', PStr ''LT''),
       (''period'', PDict [(''from'', PStr ''2026-01-01''), (''to'', PStr ''2026-06-30'')]),
       (''generated_at'', PStr ''2026-07-01''),
       (''summary'', PDict
         [(''total_transactions'', PInt 0), (''total_net'', PStr ''0.00''), (''total_vat'', PStr ''0.00''),
          (''total_gross'', PStr ''0.00''), (''vat_rate_applied'', PStr ''TBD'')]),
       (''note'', PStr ''Connect to production database for actual data.'')])"
proof -
  let ?a = "\<lparr>dt_year = 2026, dt_month = 1, dt_day = 1\<rparr>" and ?b = "\<lparr>dt_year = 2026, dt_month = 6, dt_day = 30\<rparr>"
  have args: "arg_of vat_report_options sample_given ''--country'' = Some ''lt''"
    "arg_of vat_report_options sample_given ''--from'' = Some ''2026-1-01''" "strptime_date ''2026-1-01'' = Inr ?a"
    "arg_of vat_report_options sample_given ''--to'' = Some ''2026-06-30''" "strptime_date ''2026-06-30'' = Inr ?b"
    "arg_of vat_report_options sample_given ''--output'' = Some ''r.json''"
    "str_upper ''lt'' = ''LT''" "date_isoformat ?a = ''2026-01-01''" "date_isoformat ?b = ''2026-06-30''"
    "complete_for vat_report_options sample_given"
    by code_simp+
  from vat_report_readable [OF sample_spelled args(10,1-5), of "''2026-07-01''" "\<lambda>_ _. Inr ()"] show ?thesis
    unfolding args(6-9) by auto
qed

theorem vat_report_fails_clean_witness:
  "\<exists>r es. vat_report_main ''2026-07-01'' (\<lambda>_ _. Inr ()) [''--cou'', ''LV'', ''--to=2024-02-29'', ''--from=2024-2- 1''] = Some (r, es) \<and>
     r = Finished"
proof -
  let ?run = "vat_report_main ''2026-07-01'' (\<lambda>_ _. Inr ()) [''--cou'', ''LV'', ''--to=2024-02-29'', ''--from=2024-2- 1'']"
  have "map_option (\<lambda>x. snd x \<noteq> []) ?run = Some True" by code_simp
  then obtain r es where "?run = Some (r, es)" "es \<noteq> []" by auto
  with vat_report_fails_clean [of "''2026-07-01''" "\<lambda>_ _. Inr ()" _ r es] show ?thesis by blast
qed


end
