(* ===== verification/Spec2Isabelle.thy ===== *)
theory Spec2Isabelle
  imports Api_Schemas Interleaving Notifications Pii_Log Bitrix_Sync Provisioning_CLI Reports
begin

text \<open>
  Verification library of the JOL Commerce Engine (Python package \<open>src/backend/jol_commerce\<close>), a
  multi-tenant commerce backend: tenants are resolved per request, orders move through a
  lifecycle, completed orders settle a platform commission into a ledger, payments go through a
  gateway as tokens, and every step is written to a hash-chained audit log. All names below are
  relative to that package, apart from the report scripts under \<open>src/scripts\<close>.

  \<^bold>\<open>Conventions.\<close> An operation that changes state is a function from a state to an outcome and a
  state, and an exception is a value (\<open>Jol_Prelude\<close>: \<open>op\<close>, \<open>result\<close>, \<open>pyexc\<close>), so the state an
  exception leaves behind is part of the model. A dict is an association list in insertion order.
  Integers are unbounded, as in Python. Decimal numbers follow the decimal module with its
  28-digit context (\<open>Py_Decimal\<close>). Strings are lists of characters. What the code draws from the
  clock, from uuid4, from SHA-256 or HMAC, from the payment gateway, the database, the web
  framework and the file system is an argument of the definitions that use it.

  \<^bold>\<open>The language and its library.\<close> \<open>Py_Text\<close> models the string methods used and decimal notation;
  \<open>Py_Decimal\<close> decimal arithmetic, rounding and conversion; \<open>Py_Json\<close> the serialisation with sorted
  keys, with its unique readability; \<open>Json_Reader\<close> the JSON reader, a grammar of the texts it accepts for a value, and the proof
  that the compact and the indented serialisation are such texts and read back; \<open>Py_Argparse\<close> the
  argument parser and the exact set of argument lists it accepts; \<open>Py_Regex\<close> a backtracking matcher for the patterns used, with search,
  substitution and full match.

  \<^bold>\<open>Components.\<close>
  \<^item> \<open>Commissions\<close>: \<open>commissions/commission_engine.py\<close>, \<open>commission_ledger.py\<close>. The split of an amount
    adds up, the fee is the floor of amount times rate, reversals stay within the settlement, the
    stored rate text reads back, the ledger reconciles.
  \<^item> \<open>Audit_Log\<close>: \<open>audit/audit_log.py\<close>, \<open>chain_verifier.py\<close>, \<open>transaction_log.py\<close>. Logging keeps the
    chain, the verifier finds the first broken link, two intact logs with one checkpoint hold the
    same records or exhibit a hash collision.
  \<^item> \<open>Audit_Export\<close>: the export and \<open>_audit_verify\<close> of \<open>db/provisioning/cli.py\<close>. Verifying an export
    gives the report of the log in memory.
  \<^item> \<open>Tenancy\<close>: \<open>tenancy/tenant.py\<close>, \<open>registry.py\<close>, \<open>middleware.py\<close>, with UUID parsing and printing.
    A handler runs exactly when the last label of the subdomain, or else the tenant header, names a
    registered active tenant, and no tenant stays bound.
  \<^item> \<open>Orders\<close>: \<open>orders/order_lifecycle.py\<close>, \<open>order_repository.py\<close>, \<open>order_service.py\<close>,
    \<open>fulfillment.py\<close>, over a heap of shared order objects. Orders stay on the lifecycle (stated as an
    inductive relation and refined by \<open>transition_to\<close>), books stay balanced, completion settles
    once and is not atomic, a full chargeback reverses the settlement and a second one overshoots.
    The refund callback is a parameter: the statements about runs let it do nothing but call the
    service, as \<open>callback_through_service\<close> says.
  \<^item> \<open>Order_API\<close>: \<open>api/routes_order.py\<close>, \<open>api/schemas.py\<close>, \<open>api/state.py\<close>. Tenants are isolated for
    every sequence of requests; the fee total is the sum over the completed orders.
  \<^item> \<open>Payments\<close>: \<open>payments/stripe_client.py\<close>, \<open>payment_intent.py\<close>, \<open>payment_token.py\<close>,
    \<open>payment_flows.py\<close>, \<open>refund.py\<close>, \<open>payment_methods.py\<close> and the routes. The state of the intent and
    refund services (\<open>payment_services\<close>), which the application has, is extended by the token store and
    the audit log of the flow service (\<open>pay_state\<close>), which only its own callers have. No card number is
    stored or sent.
  \<^item> \<open>Webhooks\<close>: \<open>payments/webhook_dedup.py\<close>, \<open>webhook_handler.py\<close> and the route. Deliveries within
    the retention window are handled once; a handled delivery breaks the handler's audit chain.
  \<^item> \<open>Tax\<close>: \<open>tax/country_rates.py\<close>, \<open>vat_calculator.py\<close>, \<open>invoice_generator.py\<close>,
    \<open>tax_record_store.py\<close>, \<open>api/routes_tax.py\<close>. The rate in force against the documented matrix, VAT rounded
    half up to the cent, unique invoice numbers, retention.
  \<^item> \<open>Catalog\<close>: \<open>catalog/catalog.py\<close>, \<open>api/routes_catalog.py\<close>. A catalog never holds an item its
    vertical does not permit; seeding is complete and idempotent.
  \<^item> \<open>Notifications\<close>: \<open>notifications/classification.py\<close>, \<open>notification_service.py\<close>. The channel policy
    holds of everything queued; delivery reports end, each notification being delivered or
    dead-lettered after three attempts.
  \<^item> \<open>Pii_Log\<close>: \<open>audit/pii_safe_log.py\<close>. Sanitised text has no card number.
  \<^item> \<open>Bitrix_Sync\<close>: \<open>bitrix24/pii_scrubber.py\<close>, \<open>sync_client.py\<close>. The payload sent does not depend on
    the personal fields of an order (non-interference).
  \<^item> \<open>Security\<close>: \<open>security/idempotency.py\<close>, \<open>csp_headers.py\<close>, \<open>tls_enforcement.py\<close>, and \<open>config.py\<close>
    with every setting and its default. A repeated key gets the recorded reply; the defaults alone
    never start the application.
  \<^item> \<open>Provisioning\<close>: \<open>db/provisioning/schema_provisioner.py\<close>. Statements are executed while the
    schema of a given tenant is the active one; which statements a migration and a rollback execute,
    that migration is complete and idempotent, and that migrating and rolling back is a round trip.
  \<^item> \<open>Provisioning_CLI\<close>: \<open>db/provisioning/cli.py\<close>. The argument lists that run a command are exactly
    those that spell it; literals cannot be broken out of, the commands are
    confined to their search paths and fail closed, onboarding up to the first statement the database
    refuses, the rollback command does nothing.
  \<^item> \<open>Web_App\<close>: \<open>api/app.py\<close>, the composition of all routes under both middlewares. It refines the
    order endpoint, keeps the order books and the audit trail of accepted payment intents behind any
    CORS middleware that answers or passes on, and adds the seven security headers to every routed
    response.
  \<^item> \<open>Interleaving\<close>: any number of requests at once on the event loop, each a task with its own binding of
    the context variable of \<open>tenancy/tenant.py\<close>, cut where the tenant and the header middleware
    await. Every interleaving is a sequential run of \<open>Web_App\<close> in the order in which the requests were
    decided. The route is one uninterrupted piece because all
    handlers are coroutines that await nothing once they have the body; it starts with a copy of
    the binding of its request, as tasks of the event loop do.
  \<^item> \<open>Api_Schemas\<close>: the response models of \<open>api/schemas.py\<close> and a typing relation on JSON values. Every
    successful answer of the application is an object of the model its route declares.
  \<^item> \<open>Reports\<close>: \<open>src/scripts/generate-vat-report.py\<close> and \<open>export-audit-log.py\<close>. The output reads back
    as the report, a failing run leaves nothing behind, and the export script's file is never
    accepted by the verifier of \<open>Audit_Export\<close>.

  \<^bold>\<open>Interfaces.\<close> \<open>Jol_Prelude\<close> has the locales \<open>append_log\<close> (logs and ledgers), \<open>keyed_store\<close> (token
  store, idempotency keys) and \<open>inv_machine\<close> (a step function with an invariant and a preorder);
  \<open>Orders\<close> has \<open>order_clients\<close>, a sublocale of \<open>inv_machine\<close>; \<open>Py_Regex\<close> has \<open>word_sub\<close>
  (substitution of a pattern that matches whole words). Each component interprets them on its own
  definitions, and the properties over sequences of calls are facts of these interpretations.

  \<^bold>\<open>Bounds and fuel.\<close> All definitions are total. The only fuel is that of \<open>json_loads\<close>, the length of
  the text: each nested call has consumed a character, and the round trip shows it is enough for
  every text of the grammar, and so for every serialised value. The retry loop of the notification queue ends by a measure.

  \<^bold>\<open>Not modelled.\<close> Several server processes (each has its own objects, so none of the state is shared); a
  client that disconnects, which may cancel its task; what the web framework does inside its CORS middleware and HTTP parsing, and how the
  validation library converts JSON values of another type than the declared one; reading the
  settings from the environment; the separator -- on the command line; the texts printed by the
  provisioning commands; float values in JSON (the reader answers None); integers beyond the digit
  limit of Python's conversion; SQL semantics beyond string literals; the front end and the SQL
  artifacts. What remains of the Python sources are re-exports, type aliases, exception classes,
  the key and version of the gateway library, and the event identifiers made for tests.
\<close>

end
